theory Spec2Isabelle
  imports Main "HOL-Library.Multiset" "HOL-Library.AList"
begin

section \<open>Calendar values\<close>

text \<open>
  The program works with three kinds of values of Python's \<^verbatim>\<open>datetime\<close> module.
  A \<^verbatim>\<open>date\<close> is its proleptic Gregorian ordinal (\<^verbatim>\<open>date.toordinal()\<close>, day 1 is
  0001-01-01) and a \<^verbatim>\<open>timedelta\<close> is a signed number of microseconds. A
  \<^verbatim>\<open>datetime\<close> is naive or aware: \<open>Naive w\<close> has the wall-clock time \<open>w\<close>, the number of
  microseconds since midnight of ordinal 0; \<open>Aware w off\<close> has the wall-clock time \<open>w\<close>
  and the UTC offset \<open>off\<close>, as \<^verbatim>\<open>datetime.fromisoformat\<close> makes it from a text that ends
  in an offset. The strings written by \<^verbatim>\<open>strftime("%Y-%m-%d")\<close> name the date they were
  made from, so a payload stores the date itself.
\<close>

type_synonym date = int

type_synonym timedelta = int

datatype datetime = Naive int | Aware int timedelta

fun wall :: "datetime \<Rightarrow> int" where
  "wall (Naive w) = w"
| "wall (Aware w off) = w"

fun utcoffset :: "datetime \<Rightarrow> timedelta option" where
  \<comment> \<open>\<^verbatim>\<open>dt.utcoffset()\<close>\<close>
  "utcoffset (Naive w) = None"
| "utcoffset (Aware w off) = Some off"

fun instant :: "datetime \<Rightarrow> int" where
  \<comment> \<open>the wall-clock time, moved to UTC when the datetime is aware\<close>
  "instant (Naive w) = w"
| "instant (Aware w off) = w - off"

definition aware :: "datetime \<Rightarrow> bool" where
  "aware dt = (utcoffset dt \<noteq> None)"

definition usec_per_day :: int where
  "usec_per_day = 86400000000"

definition MAXORDINAL :: int where
  "MAXORDINAL = 3652059"

definition datetime_max :: datetime where
  \<comment> \<open>\<^verbatim>\<open>datetime.max\<close>, 9999-12-31T23:59:59.999999, a naive datetime\<close>
  "datetime_max = Naive (MAXORDINAL * usec_per_day + (usec_per_day - 1))"

definition dt_date :: "datetime \<Rightarrow> date" where
  \<comment> \<open>\<^verbatim>\<open>dt.date()\<close>\<close>
  "dt_date dt = wall dt div usec_per_day"

definition dt_sub :: "datetime \<Rightarrow> datetime \<Rightarrow> timedelta" where
  \<comment> \<open>the value of \<^verbatim>\<open>a - b\<close> on two datetimes of one kind: the difference of the
      wall-clock times of two naive ones, of the UTC times of two aware ones\<close>
  "dt_sub a b = instant a - instant b"

definition td_days :: "timedelta \<Rightarrow> int" where
  \<comment> \<open>\<^verbatim>\<open>td.days\<close>: a timedelta is normalised with 0 <= seconds < 86400, so the
      day count is the floor\<close>
  "td_days td = td div usec_per_day"

definition timedelta_days :: "int \<Rightarrow> timedelta" where
  \<comment> \<open>\<^verbatim>\<open>timedelta(days=n)\<close>; n is always the day count of a difference of two
      datetimes here, which is inside the range timedelta accepts\<close>
  "timedelta_days n = n * usec_per_day"

datatype error =
    ValueError string
  | TypeError
  | OverflowError
  | UnboundLocalError string
  | JSONDecodeError
  | ApiError nat string
  | UnsupportedIssueType "string option" string
  | RepositoryError string

text \<open>
  \<^item> \<open>ValueError s\<close>: \<^verbatim>\<open>datetime.fromisoformat\<close> rejects the text \<open>s\<close>;
  \<^item> \<open>TypeError\<close>: \<^verbatim>\<open>date + int\<close>, and a naive datetime subtracted from or compared
    with an aware one;
  \<^item> \<open>OverflowError\<close>: a date outside 0001-01-01 .. 9999-12-31;
  \<^item> \<open>UnboundLocalError v\<close>: the local variable \<open>v\<close> is read before it was assigned;
  \<^item> \<open>JSONDecodeError\<close>: \<^verbatim>\<open>resp.json()\<close> on a body that is not JSON;
  \<^item> \<open>ApiError status text\<close>: \<^verbatim>\<open>Exception(f"API error {status}: {text}")\<close>;
  \<^item> \<open>UnsupportedIssueType name project\<close>:
    \<^verbatim>\<open>Exception(f"Error while migrating '{name}' in the project {project}")\<close>;
  \<^item> \<open>RepositoryError msg\<close>: an exception raised inside a call of the Jira client
    or of \<^verbatim>\<open>requests\<close>.
\<close>

definition date_add :: "date \<Rightarrow> timedelta \<Rightarrow> error + date" where
  \<comment> \<open>\<^verbatim>\<open>date + timedelta\<close>: only the day count of the timedelta is used\<close>
  "date_add d td =
     (let ordinal = d + td_days td
      in if 0 < ordinal \<and> ordinal \<le> MAXORDINAL then Inr ordinal else Inl OverflowError)"

definition dt_minus :: "datetime \<Rightarrow> datetime \<Rightarrow> error + timedelta" where
  \<comment> \<open>\<^verbatim>\<open>a - b\<close> on two datetimes\<close>
  "dt_minus a b = (if aware a = aware b then Inr (dt_sub a b) else Inl TypeError)"

definition dt_lt :: "datetime \<Rightarrow> datetime \<Rightarrow> error + bool" where
  \<comment> \<open>\<^verbatim>\<open>a < b\<close> on two datetimes\<close>
  "dt_lt a b = (if aware a = aware b then Inr (instant a < instant b) else Inl TypeError)"

subsection \<open>Texts of dates\<close>

text \<open>
  \<^verbatim>\<open>datetime.fromisoformat\<close> belongs to Python's library, so the program's functions
  take the parser as a parameter: \<open>None\<close> is the \<^verbatim>\<open>ValueError\<close> it raises, and it may
  answer with a naive or with an aware datetime. The function \<open>fromisoformat_date\<close> below
  is the library's behaviour on the texts of the form YYYY-MM-DD, the form of Jira's date
  fields; it rejects every other text and serves as the parser of the concrete runs.
  \<open>fromisoformat_utc\<close> also reads the texts YYYY-MM-DDT00:00:00+00:00, midnight with the
  offset of UTC.
\<close>

type_synonym parser = "string \<Rightarrow> datetime option"

definition digit_of :: "char \<Rightarrow> int option" where
  "digit_of c =
     (let n = (of_char c :: nat) in if 48 \<le> n \<and> n \<le> 57 then Some (int n - 48) else None)"

fun number_of :: "int \<Rightarrow> string \<Rightarrow> int option" where
  "number_of acc [] = Some acc"
| "number_of acc (c # cs) =
     (case digit_of c of None \<Rightarrow> None | Some d \<Rightarrow> number_of (10 * acc + d) cs)"

definition is_leap :: "int \<Rightarrow> bool" where
  "is_leap year = (year mod 4 = 0 \<and> (year mod 100 \<noteq> 0 \<or> year mod 400 = 0))"

definition DAYS_IN_MONTH :: "int list" where
  "DAYS_IN_MONTH = [31, 28, 31, 30, 31, 30, 31, 31, 30, 31, 30, 31]"

definition days_before_year :: "int \<Rightarrow> int" where
  "days_before_year year =
     (let y = year - 1 in y * 365 + y div 4 - y div 100 + y div 400)"

definition days_in_month :: "int \<Rightarrow> int \<Rightarrow> int" where
  "days_in_month year month =
     (if month = 2 \<and> is_leap year then 29 else DAYS_IN_MONTH ! nat (month - 1))"

definition days_before_month :: "int \<Rightarrow> int \<Rightarrow> int" where
  "days_before_month year month =
     sum_list (take (nat (month - 1)) DAYS_IN_MONTH)
       + (if month > 2 \<and> is_leap year then 1 else 0)"

definition ymd2ord :: "int \<Rightarrow> int \<Rightarrow> int \<Rightarrow> date" where
  "ymd2ord year month day = days_before_year year + days_before_month year month + day"

definition fromisoformat_date :: parser where
  "fromisoformat_date s =
     (if length s = 10 \<and> s ! 4 = CHR ''-'' \<and> s ! 7 = CHR ''-'' then
        (case (number_of 0 (take 4 s), number_of 0 (take 2 (drop 5 s)), number_of 0 (drop 8 s)) of
           (Some year, Some month, Some day) \<Rightarrow>
             if 1 \<le> year \<and> 1 \<le> month \<and> month \<le> 12
                \<and> 1 \<le> day \<and> day \<le> days_in_month year month
             then Some (Naive (ymd2ord year month day * usec_per_day))
             else None
         | _ \<Rightarrow> None)
      else None)"

definition fromisoformat_utc :: parser where
  "fromisoformat_utc s =
     (if length s = 25 \<and> drop 10 s = ''T00:00:00+00:00'' then
        (case fromisoformat_date (take 10 s) of
           Some dt \<Rightarrow> Some (Aware (wall dt) 0)
         | None \<Rightarrow> None)
      else fromisoformat_date s)"

section \<open>Issues as the repository returns them\<close>

text \<open>
  One entry of \<^verbatim>\<open>fields["issuelinks"]\<close>: the name of the link type and the key of
  the issue at the far end, under \<^verbatim>\<open>outwardIssue\<close> or under \<^verbatim>\<open>inwardIssue\<close>
  (\<open>None\<close>: the entry has no such member).
\<close>

record issue_link =
  type_name :: string
  outwardIssue :: "string option"
  inwardIssue :: "string option"

text \<open>
  An issue of a search result, or the fields of a fetched issue. A member that is
  absent or JSON \<^verbatim>\<open>null\<close> is \<open>None\<close>. The description is the rich-text document,
  which the migration copies without looking inside.
\<close>

record issue =
  key :: string
  summary :: "string option"
  description :: "string option"
  status_name :: "string option"
  customfield_10015 :: "string option"
  duedate :: "string option"
  issuelinks :: "issue_link list"
  issuetype_name :: "string option"

definition truthy :: "string option \<Rightarrow> string option" where
  \<comment> \<open>Python's truth test on an optional text: \<^verbatim>\<open>None\<close> and \<^verbatim>\<open>''\<close> are false\<close>
  "truthy v = (case v of None \<Rightarrow> None | Some s \<Rightarrow> if s = [] then None else Some s)"

section \<open>Child ordering\<close>

definition get_start_date :: "parser \<Rightarrow> issue \<Rightarrow> datetime" where
  "get_start_date fromisoformat issue =
     (case truthy (customfield_10015 issue) of
        Some start \<Rightarrow>
          (case fromisoformat start of
             Some dt \<Rightarrow> dt
           | None \<Rightarrow> datetime_max)
      | None \<Rightarrow> datetime_max)"

text \<open>
  \<^verbatim>\<open>sorted(issues, key=get_start_date)\<close> computes the key of every issue and sorts the
  issues by their keys. Python's sort is stable, compares two keys with \<^verbatim>\<open><\<close> only, and
  ends with the exception of a comparison that raises. It is the insertion sort below: an
  issue is put in front of the first issue of the sorted rest whose key is not less than
  its own. Another sorting algorithm differs from it only in which pairs of keys it
  compares, and each of them compares a naive key with an aware one when both kinds occur,
  since the comparisons of a sort settle the order of all keys.
\<close>

fun insort_lt :: "('a \<Rightarrow> datetime) \<Rightarrow> 'a \<Rightarrow> 'a list \<Rightarrow> error + 'a list" where
  "insort_lt k x [] = Inr [x]"
| "insort_lt k x (y # ys) =
     (case dt_lt (k y) (k x) of
        Inl e \<Rightarrow> Inl e
      | Inr y_first \<Rightarrow>
          if y_first then (case insort_lt k x ys of Inl e \<Rightarrow> Inl e | Inr zs \<Rightarrow> Inr (y # zs))
          else Inr (x # y # ys))"

fun sorted_key :: "('a \<Rightarrow> datetime) \<Rightarrow> 'a list \<Rightarrow> error + 'a list" where
  "sorted_key k [] = Inr []"
| "sorted_key k (x # xs) =
     (case sorted_key k xs of Inl e \<Rightarrow> Inl e | Inr ys \<Rightarrow> insort_lt k x ys)"

definition ordre_child_issues :: "parser \<Rightarrow> issue list \<Rightarrow> error + issue list" where
  "ordre_child_issues fromisoformat issues = sorted_key (get_start_date fromisoformat) issues"

definition one_kind :: "datetime list \<Rightarrow> bool" where
  \<comment> \<open>the datetimes are all aware or all naive\<close>
  "one_kind ks = (list_all aware ks \<or> list_all (\<lambda>k. \<not> aware k) ks)"

section \<open>Search and fetch calls\<close>

text \<open>
  What \<^verbatim>\<open>requests.get\<close> returned: the status, the raw body and the decoded body
  (\<open>None\<close> when the body is not JSON and \<^verbatim>\<open>resp.json()\<close> raises). For a search the
  decoded body is its member \<^verbatim>\<open>issues\<close>, \<open>None\<close> when the body has no such member.
\<close>

record 'j response =
  status_code :: nat
  resp_text :: string
  resp_json :: "'j option"

text \<open>The lines the functions print on the server's console.\<close>

datatype console_line =
    IssueLine string "string option" "string option"
  | HttpErrorLine nat string

definition rest_api_get :: "'j response \<Rightarrow> error + 'j" where
  "rest_api_get resp =
     (if status_code resp \<ge> 400 then Inl (ApiError (status_code resp) (resp_text resp))
      else case resp_json resp of None \<Rightarrow> Inl JSONDecodeError | Some j \<Rightarrow> Inr j)"

definition issues_of :: "issue list option \<Rightarrow> issue list" where
  \<comment> \<open>\<^verbatim>\<open>data.get("issues", [])\<close>\<close>
  "issues_of data = (case data of None \<Rightarrow> [] | Some issues \<Rightarrow> issues)"

definition issue_line :: "issue \<Rightarrow> console_line" where
  "issue_line i = IssueLine (key i) (summary i) (status_name i)"

definition get_jql_template_epic ::
  "(issue list option) response \<Rightarrow> console_line list \<times> (error + issue list)" where
  "get_jql_template_epic resp =
     (if status_code resp = 200 then
        (case resp_json resp of
           None \<Rightarrow> ([], Inl JSONDecodeError)
         | Some data \<Rightarrow> (map issue_line (issues_of data), Inr (issues_of data)))
      else
        ([HttpErrorLine (status_code resp) (resp_text resp)], Inl (UnboundLocalError ''data'')))"

definition get_child_issues_for_epic ::
  "parser \<Rightarrow> (issue list option) response \<Rightarrow> console_line list \<times> (error + issue list)" where
  "get_child_issues_for_epic fromisoformat resp =
     (if status_code resp = 200 then
        (case resp_json resp of
           None \<Rightarrow> ([], Inl JSONDecodeError)
         | Some data \<Rightarrow>
             (map issue_line (issues_of data),
              ordre_child_issues fromisoformat (issues_of data)))
      else
        ([HttpErrorLine (status_code resp) (resp_text resp)], Inl (UnboundLocalError ''data'')))"

section \<open>The Issue Repository and the operator's choices\<close>

datatype issuetype_ref = TypeName string | TypeId string

text \<open>
  The \<^verbatim>\<open>fields\<close> of a create call. \<open>p_customfield_10014\<close> is the parent-Epic
  link, \<open>p_customfield_10015\<close> the start date; \<open>None\<close> is a member the payload
  does not have.
\<close>

record payload =
  p_project :: string
  p_summary :: "string option"
  p_description :: "string option"
  p_issuetype :: issuetype_ref
  p_customfield_10014 :: "string option"
  p_customfield_10015 :: "date option"
  p_duedate :: "date option"

record issue_type =
  it_name :: string
  it_id :: string

text \<open>
  The calls the handler issues, in the order it issues them, each write with what the
  repository answered: the key of the created issue, or the exception.
\<close>

datatype event =
    FetchIssue string
  | CreateIssue payload "error + string"
  | SearchChildren string
  | FetchProject string
  | CreateIssueLink string string string "error + unit"

text \<open>
  The repository is any deterministic collaborator: each answer may depend on the calls
  made so far. \<open>CreateIssueLink t i o\<close> is
  \<^verbatim>\<open>create_issue_link(type=t, inwardIssue=i, outwardIssue=o)\<close>.
\<close>

record repo =
  jira_issue :: "event list \<Rightarrow> string \<Rightarrow> error + issue"
  jira_create_issue :: "event list \<Rightarrow> payload \<Rightarrow> error + string"
  requests_get :: "event list \<Rightarrow> string \<Rightarrow> error + (issue list option) response"
  jira_project :: "event list \<Rightarrow> string \<Rightarrow> error + issue_type list"
  jira_create_issue_link :: "event list \<Rightarrow> string \<Rightarrow> string \<Rightarrow> string \<Rightarrow> error + unit"

record selection =
  selected_epic :: string
  selected_key :: string
  new_start_date :: date

section \<open>The Migrate Template handler\<close>

subsection \<open>Dates of the Epic\<close>

definition fromisoformat_Z :: "parser \<Rightarrow> string \<Rightarrow> error + datetime" where
  \<comment> \<open>\<^verbatim>\<open>datetime.fromisoformat(s.replace("Z", ""))\<close>\<close>
  "fromisoformat_Z fromisoformat s =
     (let t = filter (\<lambda>c. c \<noteq> CHR ''Z'') s
      in case fromisoformat t of None \<Rightarrow> Inl (ValueError t) | Some dt \<Rightarrow> Inr dt)"

text \<open>
  \<^verbatim>\<open>epic_duration\<close> starts as the integer 0 and becomes a timedelta only when the
  Epic has both dates.
\<close>

datatype duration = IntZero | Timedelta timedelta

definition epic_dates :: "parser \<Rightarrow> issue \<Rightarrow> error + (datetime option \<times> duration)" where
  "epic_dates fromisoformat epic =
     (case truthy (customfield_10015 epic) of
        Some epic_start \<Rightarrow>
          (case fromisoformat_Z fromisoformat epic_start of
             Inl e \<Rightarrow> Inl e
           | Inr epic_start_dt \<Rightarrow>
               (case truthy (duedate epic) of
                  Some epic_due \<Rightarrow>
                    (case fromisoformat_Z fromisoformat epic_due of
                       Inl e \<Rightarrow> Inl e
                     | Inr epic_due_dt \<Rightarrow>
                         (case dt_minus epic_due_dt epic_start_dt of
                            Inl e \<Rightarrow> Inl e
                          | Inr epic_duration \<Rightarrow>
                              Inr (Some epic_start_dt, Timedelta epic_duration)))
                | None \<Rightarrow> Inr (Some epic_start_dt, IntZero)))
      | None \<Rightarrow> Inr (None, IntZero))"

definition date_plus :: "date \<Rightarrow> duration \<Rightarrow> error + date" where
  \<comment> \<open>\<^verbatim>\<open>new_start_date + epic_duration\<close>\<close>
  "date_plus d epic_duration =
     (case epic_duration of IntZero \<Rightarrow> Inl TypeError | Timedelta td \<Rightarrow> date_add d td)"

definition new_epic_data :: "selection \<Rightarrow> issue \<Rightarrow> duration \<Rightarrow> error + payload" where
  "new_epic_data S epic epic_duration =
     (case date_plus (new_start_date S) epic_duration of
        Inl e \<Rightarrow> Inl e
      | Inr due \<Rightarrow>
          Inr \<lparr>p_project = selected_key S,
               p_summary = summary epic,
               p_description = description epic,
               p_issuetype = TypeName ''Epic'',
               p_customfield_10014 = None,
               p_customfield_10015 = Some (new_start_date S),
               p_duedate = Some due\<rparr>)"

text \<open>
  The preview of the same plan, behind the button \<^verbatim>\<open>Show process issues\<close>, computes the
  delta of the Epic with a default of zero days and adds it to the start of every child.
\<close>

definition preview_delta_epic :: "date \<Rightarrow> datetime option \<Rightarrow> timedelta" where
  \<comment> \<open>\<^verbatim>\<open>delta_epic\<close>: \<^verbatim>\<open>new_start_date - epic_start_dt.date()\<close> or
      \<^verbatim>\<open>timedelta(days=0)\<close>\<close>
  "preview_delta_epic new_start epic_start_dt =
     (case epic_start_dt of
        Some esd \<Rightarrow> timedelta_days (new_start - dt_date esd)
      | None \<Rightarrow> timedelta_days 0)"

subsection \<open>Links and dates of a child\<close>

datatype direction = outward | inward

record stored_link =
  l_type :: string
  l_direction :: direction
  l_key :: string

definition stored_of :: "issue_link \<Rightarrow> stored_link option" where
  "stored_of link =
     (case outwardIssue link of
        Some k \<Rightarrow> Some \<lparr>l_type = type_name link, l_direction = outward, l_key = k\<rparr>
      | None \<Rightarrow>
          (case inwardIssue link of
             Some k \<Rightarrow> Some \<lparr>l_type = type_name link, l_direction = inward, l_key = k\<rparr>
           | None \<Rightarrow> None))"

definition original_links :: "issue_link list \<Rightarrow> stored_link list" where
  "original_links links = List.map_filter stored_of links"

definition new_child_start_of ::
  "parser \<Rightarrow> datetime option \<Rightarrow> date \<Rightarrow> issue \<Rightarrow> error + date option" where
  "new_child_start_of fromisoformat epic_start_dt new_start ch =
     (case epic_start_dt of
        None \<Rightarrow> Inr None
      | Some esd \<Rightarrow>
          (case truthy (customfield_10015 ch) of
             None \<Rightarrow> Inr None
           | Some orig_start \<Rightarrow>
               (case fromisoformat_Z fromisoformat orig_start of
                  Inl e \<Rightarrow> Inl e
                | Inr child_start_dt \<Rightarrow>
                    (case dt_minus child_start_dt esd of
                       Inl e \<Rightarrow> Inl e
                     | Inr td \<Rightarrow>
                         (let delta_days = td_days td
                          in case date_add new_start (timedelta_days delta_days) of
                               Inl e \<Rightarrow> Inl e
                             | Inr d \<Rightarrow> Inr (Some d))))))"

definition new_child_due_of :: "parser \<Rightarrow> date option \<Rightarrow> issue \<Rightarrow> error + date option" where
  "new_child_due_of fromisoformat new_child_start ch =
     (case truthy (customfield_10015 ch) of
        None \<Rightarrow> Inr None
      | Some orig_start \<Rightarrow>
          (case truthy (duedate ch) of
             None \<Rightarrow> Inr None
           | Some orig_due \<Rightarrow>
               (case fromisoformat_Z fromisoformat orig_start of
                  Inl e \<Rightarrow> Inl e
                | Inr start_dt \<Rightarrow>
                    (case fromisoformat_Z fromisoformat orig_due of
                       Inl e \<Rightarrow> Inl e
                     | Inr due_dt \<Rightarrow>
                         (case dt_minus due_dt start_dt of
                            Inl e \<Rightarrow> Inl e
                          | Inr td \<Rightarrow>
                              (let duration = td_days td
                               in case new_child_start of
                                    None \<Rightarrow> Inr None
                                  | Some ncs \<Rightarrow>
                                      (case date_add ncs (timedelta_days duration) of
                                         Inl e \<Rightarrow> Inl e
                                       | Inr d \<Rightarrow> Inr (Some d))))))))"

definition child_dates ::
  "parser \<Rightarrow> datetime option \<Rightarrow> date \<Rightarrow> issue \<Rightarrow> error + (date option \<times> date option)" where
  "child_dates fromisoformat epic_start_dt new_start ch =
     (case new_child_start_of fromisoformat epic_start_dt new_start ch of
        Inl e \<Rightarrow> Inl e
      | Inr new_child_start \<Rightarrow>
          (case new_child_due_of fromisoformat new_child_start ch of
             Inl e \<Rightarrow> Inl e
           | Inr new_child_due \<Rightarrow> Inr (new_child_start, new_child_due)))"

subsection \<open>Creating a child\<close>

fun find_type_id :: "issue_type list \<Rightarrow> string option \<Rightarrow> string option" where
  "find_type_id [] child_type_name = None"
| "find_type_id (itype # rest) child_type_name =
     (if Some (it_name itype) = child_type_name then Some (it_id itype)
      else find_type_id rest child_type_name)"

definition create_payload ::
  "selection \<Rightarrow> string \<Rightarrow> issue \<Rightarrow> string \<Rightarrow> date option \<Rightarrow> date option \<Rightarrow> payload" where
  "create_payload S new_epic_key ch child_type_id new_child_start new_child_due =
     \<lparr>p_project = selected_key S,
      p_summary = summary ch,
      p_description = description ch,
      p_issuetype = TypeId child_type_id,
      p_customfield_10014 = Some new_epic_key,
      p_customfield_10015 = new_child_start,
      p_duedate = new_child_due\<rparr>"

text \<open>
  The handler's variables: the calls issued so far, the children fetched, the snapshot of
  each child's links and the KeyMap. Both dictionaries keep the order in which their keys
  were first inserted, as \<open>AList.update\<close> does.
\<close>

record locals =
  trace :: "event list"
  child_issues :: "issue list"
  child_links_map :: "(string \<times> stored_link list) list"
  old_to_new_keys :: "(string \<times> string) list"

definition migrate_child ::
  "repo \<Rightarrow> parser \<Rightarrow> selection \<Rightarrow> datetime option \<Rightarrow> string \<Rightarrow> issue \<Rightarrow> locals
     \<Rightarrow> locals \<times> error option" where
  "migrate_child R fromisoformat S epic_start_dt new_epic_key ch st =
     (let st1 = st\<lparr>child_links_map :=
                     AList.update (key ch) (original_links (issuelinks ch)) (child_links_map st)\<rparr>
      in case child_dates fromisoformat epic_start_dt (new_start_date S) ch of
           Inl e \<Rightarrow> (st1, Some e)
         | Inr (new_child_start, new_child_due) \<Rightarrow>
             (let st2 = st1\<lparr>trace := trace st1 @ [FetchProject (selected_key S)]\<rparr>
              in case jira_project R (trace st1) (selected_key S) of
                   Inl e \<Rightarrow> (st2, Some e)
                 | Inr issue_types \<Rightarrow>
                     (case truthy (find_type_id issue_types (issuetype_name ch)) of
                        None \<Rightarrow>
                          (st2, Some (UnsupportedIssueType (issuetype_name ch) (selected_key S)))
                      | Some child_type_id \<Rightarrow>
                          (let pl = create_payload S new_epic_key ch child_type_id
                                      new_child_start new_child_due;
                               res = jira_create_issue R (trace st2) pl;
                               st3 = st2\<lparr>trace := trace st2 @ [CreateIssue pl res]\<rparr>
                           in case res of
                                Inl e \<Rightarrow> (st3, Some e)
                              | Inr new_key \<Rightarrow>
                                  (st3\<lparr>old_to_new_keys :=
                                         AList.update (key ch) new_key (old_to_new_keys st3)\<rparr>,
                                   None)))))"

fun migrate_children ::
  "repo \<Rightarrow> parser \<Rightarrow> selection \<Rightarrow> datetime option \<Rightarrow> string \<Rightarrow> issue list \<Rightarrow> locals
     \<Rightarrow> locals \<times> error option" where
  "migrate_children R fromisoformat S epic_start_dt new_epic_key [] st = (st, None)"
| "migrate_children R fromisoformat S epic_start_dt new_epic_key (ch # rest) st =
     (case migrate_child R fromisoformat S epic_start_dt new_epic_key ch st of
        (st', Some e) \<Rightarrow> (st', Some e)
      | (st', None) \<Rightarrow> migrate_children R fromisoformat S epic_start_dt new_epic_key rest st')"

subsection \<open>Recreating the links\<close>

definition get_key :: "(string \<times> string) list \<Rightarrow> string \<Rightarrow> string option" where
  \<comment> \<open>\<^verbatim>\<open>old_to_new_keys.get(k)\<close> followed by the truth test\<close>
  "get_key keys k = truthy (map_of keys k)"

definition create_issue_link ::
  "repo \<Rightarrow> event list \<Rightarrow> string \<Rightarrow> string \<Rightarrow> string \<Rightarrow> event list \<times> error option" where
  "create_issue_link R tr t inwardI outwardI =
     (let res = jira_create_issue_link R tr t inwardI outwardI
      in (tr @ [CreateIssueLink t inwardI outwardI res],
          case res of Inl e \<Rightarrow> Some e | Inr _ \<Rightarrow> None))"

fun recreate_links_of ::
  "repo \<Rightarrow> (string \<times> string) list \<Rightarrow> string \<Rightarrow> stored_link list \<Rightarrow> event list
     \<Rightarrow> event list \<times> error option" where
  "recreate_links_of R keys new_key [] tr = (tr, None)"
| "recreate_links_of R keys new_key (link # links) tr =
     (case get_key keys (l_key link) of
        None \<Rightarrow> recreate_links_of R keys new_key links tr
      | Some linked_new_key \<Rightarrow>
          (case (if l_direction link = outward
                 then create_issue_link R tr (l_type link) new_key linked_new_key
                 else create_issue_link R tr (l_type link) linked_new_key new_key) of
             (tr', Some e) \<Rightarrow> (tr', Some e)
           | (tr', None) \<Rightarrow> recreate_links_of R keys new_key links tr'))"

fun recreate_links ::
  "repo \<Rightarrow> (string \<times> string) list \<Rightarrow> (string \<times> stored_link list) list \<Rightarrow> event list
     \<Rightarrow> event list \<times> error option" where
  "recreate_links R keys [] tr = (tr, None)"
| "recreate_links R keys ((old_key, links) # rest) tr =
     (case get_key keys old_key of
        None \<Rightarrow> recreate_links R keys rest tr
      | Some new_key \<Rightarrow>
          (case recreate_links_of R keys new_key links tr of
             (tr', Some e) \<Rightarrow> (tr', Some e)
           | (tr', None) \<Rightarrow> recreate_links R keys rest tr'))"

subsection \<open>The whole run\<close>

definition create_epic ::
  "repo \<Rightarrow> parser \<Rightarrow> selection \<Rightarrow> event list \<times> (error + (datetime option \<times> string))" where
  "create_epic R fromisoformat S =
     (let tr0 = [FetchIssue (selected_epic S)]
      in case jira_issue R [] (selected_epic S) of
           Inl e \<Rightarrow> (tr0, Inl e)
         | Inr epic_fields \<Rightarrow>
             (case epic_dates fromisoformat epic_fields of
                Inl e \<Rightarrow> (tr0, Inl e)
              | Inr (epic_start_dt, epic_duration) \<Rightarrow>
                  (case new_epic_data S epic_fields epic_duration of
                     Inl e \<Rightarrow> (tr0, Inl e)
                   | Inr pl \<Rightarrow>
                       (let res = jira_create_issue R tr0 pl;
                            tr1 = tr0 @ [CreateIssue pl res]
                        in case res of
                             Inl e \<Rightarrow> (tr1, Inl e)
                           | Inr new_epic_key \<Rightarrow> (tr1, Inr (epic_start_dt, new_epic_key))))))"

definition fetch_children ::
  "repo \<Rightarrow> parser \<Rightarrow> selection \<Rightarrow> event list \<Rightarrow> event list \<times> (error + issue list)" where
  "fetch_children R fromisoformat S tr =
     (tr @ [SearchChildren (selected_epic S)],
      case requests_get R tr (selected_epic S) of
        Inl e \<Rightarrow> Inl e
      | Inr resp \<Rightarrow> snd (get_child_issues_for_epic fromisoformat resp))"

definition children_and_links ::
  "repo \<Rightarrow> parser \<Rightarrow> selection \<Rightarrow> datetime option \<Rightarrow> string \<Rightarrow> locals
     \<Rightarrow> locals \<times> (error + unit)" where
  "children_and_links R fromisoformat S epic_start_dt new_epic_key st =
     (case migrate_children R fromisoformat S epic_start_dt new_epic_key (child_issues st) st of
        (st', Some e) \<Rightarrow> (st', Inl e)
      | (st', None) \<Rightarrow>
          (case recreate_links R (old_to_new_keys st') (child_links_map st') (trace st') of
             (tr, Some e) \<Rightarrow> (st'\<lparr>trace := tr\<rparr>, Inl e)
           | (tr, None) \<Rightarrow> (st'\<lparr>trace := tr\<rparr>, Inr ())))"

definition start_locals :: "event list \<Rightarrow> issue list \<Rightarrow> locals" where
  "start_locals tr children =
     \<lparr>trace = tr, child_issues = children, child_links_map = [], old_to_new_keys = []\<rparr>"

definition migrate :: "repo \<Rightarrow> parser \<Rightarrow> selection \<Rightarrow> locals \<times> (error + unit)" where
  "migrate R fromisoformat S =
     (case create_epic R fromisoformat S of
        (tr1, Inl e) \<Rightarrow> (start_locals tr1 [], Inl e)
      | (tr1, Inr (epic_start_dt, new_epic_key)) \<Rightarrow>
          (case fetch_children R fromisoformat S tr1 of
             (tr2, Inl e) \<Rightarrow> (start_locals tr2 [], Inl e)
           | (tr2, Inr children) \<Rightarrow>
               children_and_links R fromisoformat S epic_start_dt new_epic_key
                 (start_locals tr2 children)))"

section \<open>Reading a trace\<close>

text \<open>
  The payloads of the create-issue calls of a trace and the (type, inwardIssue,
  outwardIssue) triples of its create-link calls, both in the order of the calls.
\<close>

definition payload_of :: "event \<Rightarrow> payload option" where
  "payload_of ev = (case ev of CreateIssue pl r \<Rightarrow> Some pl | _ \<Rightarrow> None)"

definition link_of :: "event \<Rightarrow> (string \<times> string \<times> string) option" where
  "link_of ev = (case ev of CreateIssueLink t i ou r \<Rightarrow> Some (t, i, ou) | _ \<Rightarrow> None)"

definition created_payloads :: "event list \<Rightarrow> payload list" where
  "created_payloads tr = List.map_filter payload_of tr"

definition link_calls :: "event list \<Rightarrow> (string \<times> string \<times> string) list" where
  "link_calls tr = List.map_filter link_of tr"

text \<open>
  \<open>built_for\<close> holds of a child and a payload when the payload is the one the handler
  builds for that child: the child's summary and description, the new Epic as parent, the
  dates that \<open>child_dates\<close> computes for it, and some issue-type identifier.
\<close>

definition built_for ::
  "parser \<Rightarrow> selection \<Rightarrow> datetime option \<Rightarrow> string \<Rightarrow> issue \<Rightarrow> payload \<Rightarrow> bool" where
  "built_for P S esd nek ch pl =
     (case child_dates P esd (new_start_date S) ch of
        Inl e \<Rightarrow> False
      | Inr (ns, nd) \<Rightarrow>
          (case p_issuetype pl of
             TypeId tid \<Rightarrow> pl = create_payload S nek ch tid ns nd
           | TypeName n \<Rightarrow> False))"

section \<open>A concrete template\<close>

text \<open>
  An Epic PPT-1 (2024-01-10 to 2024-01-20) and four children. The repository of the
  concrete runs answers every call, numbers the issues it creates DST-1, DST-2, ... and
  knows the issue types Epic and Task in the target project.
\<close>

fun created_count :: "event list \<Rightarrow> nat" where
  "created_count [] = 0"
| "created_count (CreateIssue p r # evs) = Suc (created_count evs)"
| "created_count (ev # evs) = created_count evs"

definition repo_of :: "issue \<Rightarrow> (issue list option) response \<Rightarrow> repo" where
  "repo_of epic resp =
     \<lparr>jira_issue = (\<lambda>h k. Inr epic),
      jira_create_issue = (\<lambda>h p. Inr (''DST-'' @ [char_of (49 + created_count h)])),
      requests_get = (\<lambda>h k. Inr resp),
      jira_project = (\<lambda>h k. Inr [\<lparr>it_name = ''Epic'', it_id = ''10000''\<rparr>,
                                   \<lparr>it_name = ''Task'', it_id = ''10001''\<rparr>]),
      jira_create_issue_link = (\<lambda>h t i ou. Inr ())\<rparr>"

definition epic1 :: issue where
  "epic1 = \<lparr>key = ''PPT-1'', summary = Some ''Release'', description = None,
     status_name = Some ''To Do'', customfield_10015 = Some ''2024-01-10'',
     duedate = Some ''2024-01-20'', issuelinks = [], issuetype_name = Some ''Epic''\<rparr>"

definition child_a :: issue where
  "child_a = \<lparr>key = ''PPT-2'', summary = Some ''Build'', description = None,
     status_name = Some ''To Do'', customfield_10015 = Some ''2024-03-01'',
     duedate = Some ''2024-03-04'',
     issuelinks = [\<lparr>type_name = ''Blocks'', outwardIssue = Some ''PPT-4'', inwardIssue = None\<rparr>,
                   \<lparr>type_name = ''Blocks'', outwardIssue = Some ''EXT-9'', inwardIssue = None\<rparr>],
     issuetype_name = Some ''Task''\<rparr>"

definition child_b :: issue where
  "child_b = \<lparr>key = ''PPT-3'', summary = Some ''Ship'', description = None,
     status_name = Some ''To Do'', customfield_10015 = None, duedate = None,
     issuelinks = [], issuetype_name = Some ''Task''\<rparr>"

definition child_c :: issue where
  "child_c = \<lparr>key = ''PPT-4'', summary = Some ''Test'', description = None,
     status_name = Some ''To Do'', customfield_10015 = Some ''2024-01-15'', duedate = None,
     issuelinks = [\<lparr>type_name = ''Blocks'', outwardIssue = None, inwardIssue = Some ''PPT-2''\<rparr>],
     issuetype_name = Some ''Task''\<rparr>"

definition child_d :: issue where
  "child_d = \<lparr>key = ''PPT-5'', summary = Some ''Review'', description = None,
     status_name = Some ''To Do'', customfield_10015 = Some ''15/01/2024'', duedate = None,
     issuelinks = [], issuetype_name = Some ''Task''\<rparr>"

definition child_f :: issue where
  "child_f = \<lparr>key = ''PPT-7'', summary = Some ''Plan'', description = None,
     status_name = Some ''To Do'', customfield_10015 = Some ''2024-01-15T00:00:00+00:00'',
     duedate = None, issuelinks = [], issuetype_name = Some ''Task''\<rparr>"

definition epic0 :: issue where
  "epic0 = \<lparr>key = ''PPT-1'', summary = Some ''Release'', description = None,
     status_name = Some ''To Do'', customfield_10015 = None,
     duedate = None, issuelinks = [], issuetype_name = Some ''Epic''\<rparr>"

text \<open>
  The search answers with the children PPT-2, PPT-3 and PPT-4 in this order; the operator
  migrates PPT-1 into the project DST with the new start date 2024-02-01 (ordinal 738917).
  \<open>new_epic1\<close>, \<open>new_c\<close>, \<open>new_a\<close> and \<open>new_b\<close> are the payloads of that run. \<open>epic0\<close>
  is the same Epic without dates, \<open>epic2\<close> the same Epic without due date. The start date of \<open>child_d\<close> is no ISO text, the one of
  \<open>child_f\<close> is midnight with the offset of UTC.
\<close>

definition resp1 :: "(issue list option) response" where
  "resp1 = \<lparr>status_code = 200, resp_text = '''', resp_json = Some (Some [child_a, child_b, child_c])\<rparr>"

definition repo1 :: repo where
  "repo1 = repo_of epic1 resp1"

definition sel1 :: selection where
  "sel1 = \<lparr>selected_epic = ''PPT-1'', selected_key = ''DST'', new_start_date = 738917\<rparr>"

definition new_epic1 :: payload where
  "new_epic1 = \<lparr>p_project = ''DST'', p_summary = Some ''Release'', p_description = None,
      p_issuetype = TypeName ''Epic'', p_customfield_10014 = None,
      p_customfield_10015 = Some 738917, p_duedate = Some 738927\<rparr>"

definition new_c :: payload where
  "new_c = \<lparr>p_project = ''DST'', p_summary = Some ''Test'', p_description = None,
      p_issuetype = TypeId ''10001'', p_customfield_10014 = Some ''DST-1'',
      p_customfield_10015 = Some 738922, p_duedate = None\<rparr>"

definition new_a :: payload where
  "new_a = \<lparr>p_project = ''DST'', p_summary = Some ''Build'', p_description = None,
      p_issuetype = TypeId ''10001'', p_customfield_10014 = Some ''DST-1'',
      p_customfield_10015 = Some 738968, p_duedate = Some 738971\<rparr>"

definition new_b :: payload where
  "new_b = \<lparr>p_project = ''DST'', p_summary = Some ''Ship'', p_description = None,
      p_issuetype = TypeId ''10001'', p_customfield_10014 = Some ''DST-1'',
      p_customfield_10015 = None, p_duedate = None\<rparr>"

definition repo0 :: repo where
  "repo0 = repo_of epic0 resp1"

definition epic2 :: issue where
  "epic2 = epic1\<lparr>duedate := None\<rparr>"

definition repo2 :: repo where
  "repo2 = repo_of epic2 resp1"

section \<open>The plan of the link pass\<close>

text \<open>
  What the two loops of the link pass amount to: \<open>link_call\<close> is the call made for one
  stored link (none when the far end has no new key), \<open>link_plan\<close> the calls for the whole
  snapshot, in order. \<open>epic_payload\<close> is the payload of the new Epic once both of its
  dates are parsed.
\<close>

definition link_call ::
  "(string \<times> string) list \<Rightarrow> string \<Rightarrow> stored_link \<Rightarrow> (string \<times> string \<times> string) option" where
  "link_call keys new_key link =
     (case get_key keys (l_key link) of
        None \<Rightarrow> None
      | Some linked_new_key \<Rightarrow>
          Some (if l_direction link = outward then (l_type link, new_key, linked_new_key)
                else (l_type link, linked_new_key, new_key)))"

definition link_plan_of ::
  "(string \<times> string) list \<Rightarrow> string \<times> stored_link list \<Rightarrow> (string \<times> string \<times> string) list" where
  "link_plan_of keys entry =
     (case get_key keys (fst entry) of
        None \<Rightarrow> []
      | Some new_key \<Rightarrow> List.map_filter (link_call keys new_key) (snd entry))"

definition link_plan ::
  "(string \<times> string) list \<Rightarrow> (string \<times> stored_link list) list \<Rightarrow> (string \<times> string \<times> string) list" where
  "link_plan keys cmap = concat (map (link_plan_of keys) cmap)"

definition ok_link :: "string \<times> string \<times> string \<Rightarrow> event" where
  "ok_link c = (case c of (t, i, ou) \<Rightarrow> CreateIssueLink t i ou (Inr ()))"

definition epic_payload :: "selection \<Rightarrow> issue \<Rightarrow> datetime \<Rightarrow> datetime \<Rightarrow> payload" where
  "epic_payload S epic sdt ddt =
     \<lparr>p_project = selected_key S,
      p_summary = summary epic,
      p_description = description epic,
      p_issuetype = TypeName ''Epic'',
      p_customfield_10014 = None,
      p_customfield_10015 = Some (new_start_date S),
      p_duedate = Some (new_start_date S + td_days (dt_sub ddt sdt))\<rparr>"

text \<open>
  \<open>inside\<close> keeps the stored links whose far end has an entry in the KeyMap.
\<close>

definition inside :: "(string \<times> string) list \<Rightarrow> stored_link list \<Rightarrow> stored_link list" where
  "inside keys links = filter (\<lambda>l. map_of keys (l_key l) \<noteq> None) links"

section \<open>More concrete runs\<close>

text \<open>
  A second search result holds a child of type Bug, which the target project does not
  have; \<open>st7\<close> is the state of that run once the first child is created. \<open>repo_fail\<close>
  refuses every create call. \<open>blocks_out\<close> and \<open>blocks_in\<close> are the two records of the
  link "PPT-2 blocks PPT-4", as each end lists it.
\<close>

definition child_e :: issue where
  "child_e = \<lparr>key = ''PPT-6'', summary = Some ''Fix'', description = None,
     status_name = Some ''To Do'', customfield_10015 = Some ''2024-02-01'', duedate = None,
     issuelinks = [], issuetype_name = Some ''Bug''\<rparr>"

definition resp7 :: "(issue list option) response" where
  "resp7 = \<lparr>status_code = 200, resp_text = '''', resp_json = Some (Some [child_a, child_e, child_c])\<rparr>"

definition repo7 :: repo where
  "repo7 = repo_of epic1 resp7"

definition trace_epic1 :: "event list" where
  "trace_epic1 = [FetchIssue ''PPT-1'', CreateIssue new_epic1 (Inr ''DST-1'')]"

definition st7 :: locals where
  "st7 = \<lparr>trace = trace_epic1 @ [SearchChildren ''PPT-1'', FetchProject ''DST'',
                     CreateIssue new_c (Inr ''DST-2'')],
          child_issues = [child_c, child_e, child_a],
          child_links_map =
            [(''PPT-4'', [\<lparr>l_type = ''Blocks'', l_direction = inward, l_key = ''PPT-2''\<rparr>])],
          old_to_new_keys = [(''PPT-4'', ''DST-2'')]\<rparr>"

definition repo_fail :: repo where
  "repo_fail = repo1\<lparr>jira_create_issue := (\<lambda>h p. Inl (RepositoryError ''403''))\<rparr>"

definition blocks_out :: issue_link where
  "blocks_out = \<lparr>type_name = ''Blocks'', outwardIssue = Some ''PPT-4'', inwardIssue = None\<rparr>"

definition blocks_in :: issue_link where
  "blocks_in = \<lparr>type_name = ''Blocks'', outwardIssue = None, inwardIssue = Some ''PPT-2''\<rparr>"

section \<open>Calendar arithmetic and the two trace readers\<close>

lemma td_days_timedelta_days: "td_days (timedelta_days n) = n"
  by (simp add: td_days_def timedelta_days_def usec_per_day_def)

lemma date_add_days: "date_add d (timedelta_days n) = Inr r \<Longrightarrow> r = d + n"
  by (auto simp: date_add_def td_days_timedelta_days Let_def split: if_splits)

lemma created_payloads_append:
  "created_payloads (xs @ ys) = created_payloads xs @ created_payloads ys"
  by (simp add: created_payloads_def List.map_filter_def)

lemma link_calls_append: "link_calls (xs @ ys) = link_calls xs @ link_calls ys"
  by (simp add: link_calls_def List.map_filter_def)

lemma created_payloads_simps [simp]:
  "created_payloads [] = []"
  "created_payloads (CreateIssue pl r # evs) = pl # created_payloads evs"
  "created_payloads (FetchProject k # evs) = created_payloads evs"
  "created_payloads (FetchIssue k # evs) = created_payloads evs"
  "created_payloads (SearchChildren k # evs) = created_payloads evs"
  "created_payloads (CreateIssueLink t i ou u # evs) = created_payloads evs"
  by (simp_all add: created_payloads_def List.map_filter_def payload_of_def)

lemma link_calls_simps [simp]:
  "link_calls [] = []"
  "link_calls (CreateIssue pl r # evs) = link_calls evs"
  "link_calls (FetchProject k # evs) = link_calls evs"
  "link_calls (FetchIssue k # evs) = link_calls evs"
  "link_calls (SearchChildren k # evs) = link_calls evs"
  "link_calls (CreateIssueLink t i ou u # evs) = (t, i, ou) # link_calls evs"
  by (simp_all add: link_calls_def List.map_filter_def link_of_def)

lemma new_child_start_of_result:
  assumes "new_child_start_of P (Some esd) nsd ch = Inr r"
  shows "case truthy (customfield_10015 ch) of
           None \<Rightarrow> r = None
         | Some s \<Rightarrow> \<exists>cdt. fromisoformat_Z P s = Inr cdt \<and> r = Some (nsd + td_days (dt_sub cdt esd))"
  using assms
  by (auto simp: new_child_start_of_def dt_minus_def Let_def
      split: option.splits sum.splits if_splits dest: date_add_days)

lemma new_child_start_of_no_epic_start: "new_child_start_of P None nsd ch = Inr None"
  by (simp add: new_child_start_of_def)

lemma new_child_due_of_result:
  assumes "new_child_due_of P ns ch = Inr r"
  shows "case (truthy (customfield_10015 ch), truthy (duedate ch), ns) of
           (Some s, Some d, Some n) \<Rightarrow>
              \<exists>sdt ddt. fromisoformat_Z P s = Inr sdt \<and> fromisoformat_Z P d = Inr ddt
                 \<and> r = Some (n + td_days (dt_sub ddt sdt))
         | _ \<Rightarrow> r = None"
  using assms
  by (auto simp: new_child_due_of_def dt_minus_def Let_def
      split: option.splits sum.splits if_splits dest: date_add_days)

section \<open>The link pass follows its plan\<close>

lemma ok_link_simp: "ok_link (t, i, ou) = CreateIssueLink t i ou (Inr ())"
  by (simp add: ok_link_def)

lemma map_filter_Cons:
  "List.map_filter f (x # xs) = (case f x of None \<Rightarrow> List.map_filter f xs | Some y \<Rightarrow> y # List.map_filter f xs)"
  by (simp add: List.map_filter_def split: option.splits)

lemma map_filter_Nil: "List.map_filter f [] = []"
  by (simp add: List.map_filter_def)

lemma create_issue_link_result:
  assumes "create_issue_link R tr t i ou = (tr', r)"
  shows "\<exists>res. tr' = tr @ [CreateIssueLink t i ou res] \<and> (r = None \<longrightarrow> res = Inr ())"
  using assms by (auto simp: create_issue_link_def Let_def split: sum.splits)

lemma recreate_links_of_shape:
  assumes "recreate_links_of R keys new_key links tr = (tr', r)"
  shows "\<exists>evs rest. tr' = tr @ evs \<and> created_payloads evs = []
           \<and> List.map_filter (link_call keys new_key) links = link_calls evs @ rest
           \<and> (r = None \<longrightarrow> rest = [] \<and> evs = map ok_link (link_calls evs))"
  using assms
proof (induction links arbitrary: tr)
  case Nil
  then show ?case by (simp add: map_filter_Nil)
next
  case (Cons link links)
  show ?case
  proof (cases "get_key keys (l_key link)")
    case None
    with Cons.prems have "recreate_links_of R keys new_key links tr = (tr', r)" by simp
    from Cons.IH [OF this] None show ?thesis
      by (simp add: map_filter_Cons link_call_def)
  next
    case (Some lk)
    define t where "t = l_type link"
    define i where "i = (if l_direction link = outward then new_key else lk)"
    define ou where "ou = (if l_direction link = outward then lk else new_key)"
    have lc: "link_call keys new_key link = Some (t, i, ou)"
      using Some by (simp add: link_call_def t_def i_def ou_def)
    obtain tr1 r1 where c: "create_issue_link R tr t i ou = (tr1, r1)"
      by (cases "create_issue_link R tr t i ou") auto
    from create_issue_link_result [OF c] obtain res where
      tr1: "tr1 = tr @ [CreateIssueLink t i ou res]" and res: "r1 = None \<longrightarrow> res = Inr ()"
      by blast
    have step: "(if l_direction link = outward
                 then create_issue_link R tr (l_type link) new_key lk
                 else create_issue_link R tr (l_type link) lk new_key) = (tr1, r1)"
      using c by (cases "l_direction link = outward") (simp_all add: t_def i_def ou_def)
    show ?thesis
    proof (cases r1)
      case None
      with Cons.prems Some step have "recreate_links_of R keys new_key links tr1 = (tr', r)"
        by simp
      from Cons.IH [OF this] obtain evs rest where
        ih: "tr' = tr1 @ evs" "created_payloads evs = []"
          "List.map_filter (link_call keys new_key) links = link_calls evs @ rest"
          "r = None \<longrightarrow> rest = [] \<and> evs = map ok_link (link_calls evs)"
        by blast
      from None res have "res = Inr ()" by simp
      with ih tr1 lc show ?thesis
        by (intro exI [of _ "CreateIssueLink t i ou res # evs"] exI [of _ rest])
           (simp add: map_filter_Cons ok_link_simp)
    next
      case (Some e)
      with Cons.prems \<open>get_key keys (l_key link) = Some lk\<close> step
      have "tr' = tr1" "r = Some e" by simp_all
      with tr1 lc show ?thesis
        by (intro exI [of _ "[CreateIssueLink t i ou res]"]
              exI [of _ "List.map_filter (link_call keys new_key) links"])
           (simp add: map_filter_Cons)
    qed
  qed
qed

lemma recreate_links_shape:
  assumes "recreate_links R keys cmap tr = (tr', r)"
  shows "\<exists>evs rest. tr' = tr @ evs \<and> created_payloads evs = []
           \<and> link_plan keys cmap = link_calls evs @ rest
           \<and> (r = None \<longrightarrow> rest = [] \<and> evs = map ok_link (link_calls evs))"
  using assms
proof (induction cmap arbitrary: tr)
  case Nil
  then show ?case by (simp add: link_plan_def)
next
  case (Cons entry cmap)
  obtain old_key links where entry: "entry = (old_key, links)" by (cases entry)
  show ?case
  proof (cases "get_key keys old_key")
    case None
    with Cons.prems entry have "recreate_links R keys cmap tr = (tr', r)" by simp
    from Cons.IH [OF this] None entry show ?thesis
      by (simp add: link_plan_def link_plan_of_def)
  next
    case (Some new_key)
    obtain tr1 r1 where inner: "recreate_links_of R keys new_key links tr = (tr1, r1)"
      by (cases "recreate_links_of R keys new_key links tr") auto
    from recreate_links_of_shape [OF inner] obtain evs1 rest1 where
      s1: "tr1 = tr @ evs1" "created_payloads evs1 = []"
        "List.map_filter (link_call keys new_key) links = link_calls evs1 @ rest1"
        "r1 = None \<longrightarrow> rest1 = [] \<and> evs1 = map ok_link (link_calls evs1)"
      by blast
    have plan: "link_plan keys (entry # cmap) = link_calls evs1 @ rest1 @ link_plan keys cmap"
      using Some entry s1(3) by (simp add: link_plan_def link_plan_of_def)
    show ?thesis
    proof (cases r1)
      case None
      with Cons.prems Some entry inner have "recreate_links R keys cmap tr1 = (tr', r)"
        by simp
      from Cons.IH [OF this] obtain evs rest where
        ih: "tr' = tr1 @ evs" "created_payloads evs = []"
          "link_plan keys cmap = link_calls evs @ rest"
          "r = None \<longrightarrow> rest = [] \<and> evs = map ok_link (link_calls evs)"
        by blast
      from None s1(4) have r1: "rest1 = []" "evs1 = map ok_link (link_calls evs1)" by simp_all
      have a: "tr' = tr @ (evs1 @ evs)" using ih(1) s1(1) by simp
      have b: "created_payloads (evs1 @ evs) = []"
        using ih(2) s1(2) by (simp add: created_payloads_append)
      have c: "link_plan keys (entry # cmap) = link_calls (evs1 @ evs) @ rest"
        using plan r1(1) ih(3) by (simp add: link_calls_append)
      have d: "r = None \<longrightarrow> rest = [] \<and> evs1 @ evs = map ok_link (link_calls (evs1 @ evs))"
        using ih(4) r1(2) by (auto simp: link_calls_append)
      from a b c d show ?thesis by blast
    next
      case (Some e)
      with Cons.prems \<open>get_key keys old_key = Some new_key\<close> entry inner
      have "tr' = tr1" "r = Some e" by simp_all
      with s1 plan show ?thesis
        by (intro exI [of _ evs1] exI [of _ "rest1 @ link_plan keys cmap"]) simp
    qed
  qed
qed

section \<open>The loop over the children\<close>

lemma migrate_child_trace:
  assumes "migrate_child R P S esd nek ch st = (st', r)"
  shows "child_issues st' = child_issues st
       \<and> child_links_map st'
           = AList.update (key ch) (original_links (issuelinks ch)) (child_links_map st)
       \<and> (\<exists>evs. trace st' = trace st @ evs \<and> link_calls evs = []
            \<and> (created_payloads evs = [] \<and> r \<noteq> None
                  \<and> old_to_new_keys st' = old_to_new_keys st
                \<or> (\<exists>pl. created_payloads evs = [pl] \<and> built_for P S esd nek ch pl)))"
  using assms
  by (auto simp: migrate_child_def Let_def built_for_def create_payload_def
        created_payloads_append link_calls_append
      split: sum.splits option.splits prod.splits)

lemma migrate_children_shape:
  assumes "migrate_children R P S esd nek cs st = (st', r)"
  shows "child_issues st' = child_issues st
       \<and> (\<exists>evs. trace st' = trace st @ evs \<and> link_calls evs = []
            \<and> length (created_payloads evs) \<le> length cs
            \<and> list_all2 (built_for P S esd nek)
                 (take (length (created_payloads evs)) cs) (created_payloads evs)
            \<and> (r = None \<longrightarrow> length (created_payloads evs) = length cs))"
  using assms
proof (induction cs arbitrary: st)
  case Nil
  then show ?case by simp
next
  case (Cons ch rest)
  obtain st1 r1 where one: "migrate_child R P S esd nek ch st = (st1, r1)"
    by (cases "migrate_child R P S esd nek ch st") auto
  from migrate_child_trace [OF one] obtain evs1 where
    c1: "child_issues st1 = child_issues st" "trace st1 = trace st @ evs1" "link_calls evs1 = []"
      "created_payloads evs1 = [] \<and> r1 \<noteq> None
         \<or> (\<exists>pl. created_payloads evs1 = [pl] \<and> built_for P S esd nek ch pl)"
    by blast
  show ?case
  proof (cases r1)
    case (Some e)
    with Cons.prems one have "st' = st1" "r = Some e" by simp_all
    with c1 show ?thesis
      by (intro conjI exI [of _ evs1]) auto
  next
    case None
    with c1(4) obtain pl where pl: "created_payloads evs1 = [pl]" "built_for P S esd nek ch pl"
      by auto
    from None Cons.prems one have "migrate_children R P S esd nek rest st1 = (st', r)"
      by simp
    from Cons.IH [OF this] obtain evs where
      ih: "child_issues st' = child_issues st1" "trace st' = trace st1 @ evs" "link_calls evs = []"
        "length (created_payloads evs) \<le> length rest"
        "list_all2 (built_for P S esd nek)
           (take (length (created_payloads evs)) rest) (created_payloads evs)"
        "r = None \<longrightarrow> length (created_payloads evs) = length rest"
      by blast
    have "trace st' = trace st @ (evs1 @ evs)" using ih(2) c1(2) by simp
    moreover have "link_calls (evs1 @ evs) = []" using ih(3) c1(3) by (simp add: link_calls_append)
    moreover have "created_payloads (evs1 @ evs) = pl # created_payloads evs"
      using pl(1) by (simp add: created_payloads_append)
    ultimately show ?thesis
      using ih c1(1) pl(2) by (intro conjI exI [of _ "evs1 @ evs"]) simp_all
  qed
qed

lemma migrate_children_append:
  "migrate_children R P S esd nek (xs @ ys) st =
     (case migrate_children R P S esd nek xs st of
        (st', Some e) \<Rightarrow> (st', Some e)
      | (st', None) \<Rightarrow> migrate_children R P S esd nek ys st')"
  by (induction xs arbitrary: st) (auto split: prod.splits option.splits)

lemma update_entries:
  "(a, b) \<in> set (AList.update k v al) \<Longrightarrow> (a, b) = (k, v) \<or> (a, b) \<in> set al"
  by (induction al) (auto split: if_splits)

lemma migrate_children_links_sound:
  assumes "migrate_children R P S esd nek cs st = (st', r)"
    and "(k, links) \<in> set (child_links_map st')"
  shows "(k, links) \<in> set (child_links_map st)
       \<or> (\<exists>ch\<in>set cs. k = key ch \<and> links = original_links (issuelinks ch))"
  using assms
proof (induction cs arbitrary: st)
  case Nil
  then show ?case by simp
next
  case (Cons ch rest)
  obtain st1 r1 where one: "migrate_child R P S esd nek ch st = (st1, r1)"
    by (cases "migrate_child R P S esd nek ch st") auto
  from migrate_child_trace [OF one] have
    m1: "child_links_map st1
           = AList.update (key ch) (original_links (issuelinks ch)) (child_links_map st)"
    by blast
  have in1: "(k, links) \<in> set (child_links_map st1)
       \<or> (\<exists>c\<in>set rest. k = key c \<and> links = original_links (issuelinks c))"
  proof (cases r1)
    case (Some e)
    with Cons.prems one show ?thesis by simp
  next
    case None
    with Cons.prems one have "migrate_children R P S esd nek rest st1 = (st', r)" by simp
    from Cons.IH [OF this Cons.prems(2)] show ?thesis .
  qed
  then show ?case
    using m1 update_entries [of k links "key ch" "original_links (issuelinks ch)" "child_links_map st"]
    by auto
qed

lemma migrate_children_links_frame:
  assumes "migrate_children R P S esd nek cs st = (st', r)"
    and "k \<notin> key ` set cs"
  shows "map_of (child_links_map st') k = map_of (child_links_map st) k"
  using assms
proof (induction cs arbitrary: st)
  case Nil
  then show ?case by simp
next
  case (Cons ch rest)
  obtain st1 r1 where one: "migrate_child R P S esd nek ch st = (st1, r1)"
    by (cases "migrate_child R P S esd nek ch st") auto
  from migrate_child_trace [OF one] have
    m1: "child_links_map st1
           = AList.update (key ch) (original_links (issuelinks ch)) (child_links_map st)"
    by blast
  from Cons.prems(2) have ne: "k \<noteq> key ch" and nr: "k \<notin> key ` set rest" by auto
  have a: "map_of (child_links_map st1) k = map_of (child_links_map st) k"
    using m1 ne by (simp add: update_conv')
  show ?case
  proof (cases r1)
    case (Some e)
    with Cons.prems one a show ?thesis by simp
  next
    case None
    with Cons.prems one have "migrate_children R P S esd nek rest st1 = (st', r)" by simp
    from Cons.IH [OF this nr] a show ?thesis by simp
  qed
qed

lemma migrate_children_links_complete:
  assumes "migrate_children R P S esd nek cs st = (st', None)"
    and "distinct (map key cs)" and "ch \<in> set cs"
  shows "map_of (child_links_map st') (key ch) = Some (original_links (issuelinks ch))"
  using assms
proof (induction cs arbitrary: st)
  case Nil
  then show ?case by simp
next
  case (Cons c rest)
  obtain st1 r1 where one: "migrate_child R P S esd nek c st = (st1, r1)"
    by (cases "migrate_child R P S esd nek c st") auto
  from migrate_child_trace [OF one] have
    m1: "child_links_map st1
           = AList.update (key c) (original_links (issuelinks c)) (child_links_map st)"
    by blast
  from Cons.prems(1) one have r1: "r1 = None"
    by (cases r1) auto
  with Cons.prems(1) one have rest: "migrate_children R P S esd nek rest st1 = (st', None)"
    by simp
  show ?case
  proof (cases "ch = c")
    case True
    from Cons.prems(2) have "key c \<notin> key ` set rest" by auto
    from migrate_children_links_frame [OF rest this] m1 True show ?thesis
      by (simp add: update_conv')
  next
    case False
    with Cons.prems have "ch \<in> set rest" "distinct (map key rest)" by auto
    from Cons.IH [OF rest this(2) this(1)] show ?thesis .
  qed
qed

lemma migrate_children_links_distinct:
  assumes "migrate_children R P S esd nek cs st = (st', r)"
    and "distinct (map fst (child_links_map st))"
  shows "distinct (map fst (child_links_map st'))"
  using assms
proof (induction cs arbitrary: st)
  case Nil
  then show ?case by simp
next
  case (Cons c rest)
  obtain st1 r1 where one: "migrate_child R P S esd nek c st = (st1, r1)"
    by (cases "migrate_child R P S esd nek c st") auto
  from migrate_child_trace [OF one] Cons.prems(2) have d1: "distinct (map fst (child_links_map st1))"
    by (simp add: distinct_update)
  show ?case
  proof (cases r1)
    case (Some e)
    with Cons.prems one d1 show ?thesis by simp
  next
    case None
    with Cons.prems one have "migrate_children R P S esd nek rest st1 = (st', r)" by simp
    from Cons.IH [OF this d1] show ?thesis .
  qed
qed

section \<open>The shape of a run\<close>

lemma create_epic_failed:
  assumes "create_epic R P S = (tr, Inl e)"
  shows "tr = [FetchIssue (selected_epic S)]
       \<or> (\<exists>epic s d sdt ddt.
            jira_issue R [] (selected_epic S) = Inr epic
          \<and> truthy (customfield_10015 epic) = Some s \<and> truthy (duedate epic) = Some d
          \<and> fromisoformat_Z P s = Inr sdt \<and> fromisoformat_Z P d = Inr ddt
          \<and> tr = [FetchIssue (selected_epic S),
                  CreateIssue (epic_payload S epic sdt ddt) (Inl e)])"
  using assms
  by (auto simp: create_epic_def Let_def epic_dates_def new_epic_data_def date_plus_def
        date_add_def epic_payload_def dt_minus_def
      split: sum.splits option.splits prod.splits duration.splits if_splits)

lemma create_epic_done:
  assumes "create_epic R P S = (tr, Inr (esd, nek))"
  shows "\<exists>epic s d sdt ddt.
            jira_issue R [] (selected_epic S) = Inr epic
          \<and> truthy (customfield_10015 epic) = Some s \<and> truthy (duedate epic) = Some d
          \<and> fromisoformat_Z P s = Inr sdt \<and> fromisoformat_Z P d = Inr ddt
          \<and> esd = Some sdt
          \<and> tr = [FetchIssue (selected_epic S),
                  CreateIssue (epic_payload S epic sdt ddt) (Inr nek)]"
  using assms
  by (auto simp: create_epic_def Let_def epic_dates_def new_epic_data_def date_plus_def
        date_add_def epic_payload_def dt_minus_def
      split: sum.splits option.splits prod.splits duration.splits if_splits)

lemma fetch_children_shape:
  assumes "fetch_children R P S tr = (tr2, r)"
  shows "tr2 = tr @ [SearchChildren (selected_epic S)]
       \<and> (\<forall>cs. r = Inr cs \<longrightarrow>
            (\<exists>resp data. requests_get R tr (selected_epic S) = Inr resp
               \<and> status_code resp = 200 \<and> resp_json resp = Some data
               \<and> ordre_child_issues P (issues_of data) = Inr cs))"
  using assms
  by (auto simp: fetch_children_def get_child_issues_for_epic_def
      split: sum.splits option.splits if_splits)

lemma migrate_shape:
  assumes run: "migrate R P S = (st, res)"
  shows "(\<exists>e. create_epic R P S = (trace st, Inl e) \<and> res = Inl e \<and> child_issues st = []
          \<and> child_links_map st = [])
   \<or> (\<exists>tr1 esd nek.
        create_epic R P S = (tr1, Inr (esd, nek))
      \<and> ((\<exists>e. trace st = tr1 @ [SearchChildren (selected_epic S)] \<and> res = Inl e
               \<and> child_issues st = [] \<and> child_links_map st = [])
         \<or> (\<exists>evc evl rest.
               fetch_children R P S tr1
                 = (tr1 @ [SearchChildren (selected_epic S)], Inr (child_issues st))
             \<and> trace st = tr1 @ [SearchChildren (selected_epic S)] @ evc @ evl
             \<and> link_calls evc = [] \<and> created_payloads evl = []
             \<and> length (created_payloads evc) \<le> length (child_issues st)
             \<and> list_all2 (built_for P S esd nek)
                  (take (length (created_payloads evc)) (child_issues st)) (created_payloads evc)
             \<and> (evl \<noteq> [] \<or> res = Inr () \<longrightarrow>
                  length (created_payloads evc) = length (child_issues st))
             \<and> link_plan (old_to_new_keys st) (child_links_map st) = link_calls evl @ rest
             \<and> (res = Inr () \<longrightarrow> rest = [] \<and> evl = map ok_link (link_calls evl))
             \<and> (\<forall>k links. (k, links) \<in> set (child_links_map st) \<longrightarrow>
                  (\<exists>ch\<in>set (child_issues st).
                     k = key ch \<and> links = original_links (issuelinks ch)))
             \<and> distinct (map fst (child_links_map st))
             \<and> (res = Inr () \<and> distinct (map key (child_issues st)) \<longrightarrow>
                  (\<forall>ch\<in>set (child_issues st).
                     map_of (child_links_map st) (key ch)
                       = Some (original_links (issuelinks ch)))))))"
proof -
  obtain tr1 r1 where ce: "create_epic R P S = (tr1, r1)"
    by (cases "create_epic R P S") auto
  show ?thesis
  proof (cases r1)
    case (Inl e)
    with run ce show ?thesis
      by (simp add: migrate_def start_locals_def) auto
  next
    case (Inr p)
    obtain esd nek where p: "p = (esd, nek)" by (cases p)
    obtain tr2 r2 where fc: "fetch_children R P S tr1 = (tr2, r2)"
      by (cases "fetch_children R P S tr1") auto
    from fetch_children_shape [OF fc]
    have tr2: "tr2 = tr1 @ [SearchChildren (selected_epic S)]" by simp
    show ?thesis
    proof (cases r2)
      case (Inl e)
      with run ce Inr p fc tr2 show ?thesis
        by (simp add: migrate_def start_locals_def) auto
    next
      case r2: (Inr cs)
      define st0 where "st0 = start_locals tr2 cs"
      have st0: "trace st0 = tr2" "child_issues st0 = cs" "child_links_map st0 = []"
        "old_to_new_keys st0 = []"
        by (simp_all add: st0_def start_locals_def)
      from run ce Inr p fc r2
      have cal: "children_and_links R P S esd nek st0 = (st, res)"
        by (simp add: migrate_def st0_def)
      obtain st1 rc where mc: "migrate_children R P S esd nek cs st0 = (st1, rc)"
        by (cases "migrate_children R P S esd nek cs st0") auto
      from migrate_children_shape [OF mc] obtain evc where
        c: "child_issues st1 = cs" "trace st1 = tr2 @ evc" "link_calls evc = []"
          "length (created_payloads evc) \<le> length cs"
          "list_all2 (built_for P S esd nek)
             (take (length (created_payloads evc)) cs) (created_payloads evc)"
          "rc = None \<longrightarrow> length (created_payloads evc) = length cs"
        using st0 by auto
      have sound1: "\<exists>ch\<in>set cs. k = key ch \<and> links = original_links (issuelinks ch)"
        if "(k, links) \<in> set (child_links_map st1)" for k links
        using migrate_children_links_sound [OF mc that] st0 by simp
      have dist1: "distinct (map fst (child_links_map st1))"
        using migrate_children_links_distinct [OF mc] st0 by simp
      have compl1: "map_of (child_links_map st1) (key ch) = Some (original_links (issuelinks ch))"
        if "rc = None" "distinct (map key cs)" "ch \<in> set cs" for ch
        using migrate_children_links_complete [of R P S esd nek cs st0 st1 ch] mc that by simp
      show ?thesis
      proof (cases rc)
        case (Some e)
        with cal mc st0 have fin: "st = st1" "res = Inl e"
          by (simp_all add: children_and_links_def)
        have "\<exists>evc evl rest.
               fetch_children R P S tr1
                 = (tr1 @ [SearchChildren (selected_epic S)], Inr (child_issues st))
             \<and> trace st = tr1 @ [SearchChildren (selected_epic S)] @ evc @ evl
             \<and> link_calls evc = [] \<and> created_payloads evl = []
             \<and> length (created_payloads evc) \<le> length (child_issues st)
             \<and> list_all2 (built_for P S esd nek)
                  (take (length (created_payloads evc)) (child_issues st)) (created_payloads evc)
             \<and> (evl \<noteq> [] \<or> res = Inr () \<longrightarrow>
                  length (created_payloads evc) = length (child_issues st))
             \<and> link_plan (old_to_new_keys st) (child_links_map st) = link_calls evl @ rest
             \<and> (res = Inr () \<longrightarrow> rest = [] \<and> evl = map ok_link (link_calls evl))
             \<and> (\<forall>k links. (k, links) \<in> set (child_links_map st) \<longrightarrow>
                  (\<exists>ch\<in>set (child_issues st).
                     k = key ch \<and> links = original_links (issuelinks ch)))
             \<and> distinct (map fst (child_links_map st))
             \<and> (res = Inr () \<and> distinct (map key (child_issues st)) \<longrightarrow>
                  (\<forall>ch\<in>set (child_issues st).
                     map_of (child_links_map st) (key ch)
                       = Some (original_links (issuelinks ch))))"
          apply (rule exI [of _ evc])
          apply (rule exI [of _ "[]"])
          apply (rule exI [of _ "link_plan (old_to_new_keys st) (child_links_map st)"])
          using fin c fc r2 tr2 sound1 dist1 by simp
        with ce Inr p show ?thesis by blast
      next
        case None
        obtain trl rl where rl: "recreate_links R (old_to_new_keys st1) (child_links_map st1)
            (trace st1) = (trl, rl)"
          by (cases "recreate_links R (old_to_new_keys st1) (child_links_map st1) (trace st1)") auto
        from recreate_links_shape [OF rl] obtain evl rest where
          l: "trl = trace st1 @ evl" "created_payloads evl = []"
            "link_plan (old_to_new_keys st1) (child_links_map st1) = link_calls evl @ rest"
            "rl = None \<longrightarrow> rest = [] \<and> evl = map ok_link (link_calls evl)"
          by blast
        from cal mc st0 None rl
        have fin: "st = st1\<lparr>trace := trl\<rparr>" "res = (case rl of None \<Rightarrow> Inr () | Some e \<Rightarrow> Inl e)"
          by (auto simp: children_and_links_def split: option.splits)
        have resok: "res = Inr () \<longrightarrow> rl = None"
          using fin(2) by (cases rl) auto
        have "\<exists>evc evl rest.
               fetch_children R P S tr1
                 = (tr1 @ [SearchChildren (selected_epic S)], Inr (child_issues st))
             \<and> trace st = tr1 @ [SearchChildren (selected_epic S)] @ evc @ evl
             \<and> link_calls evc = [] \<and> created_payloads evl = []
             \<and> length (created_payloads evc) \<le> length (child_issues st)
             \<and> list_all2 (built_for P S esd nek)
                  (take (length (created_payloads evc)) (child_issues st)) (created_payloads evc)
             \<and> (evl \<noteq> [] \<or> res = Inr () \<longrightarrow>
                  length (created_payloads evc) = length (child_issues st))
             \<and> link_plan (old_to_new_keys st) (child_links_map st) = link_calls evl @ rest
             \<and> (res = Inr () \<longrightarrow> rest = [] \<and> evl = map ok_link (link_calls evl))
             \<and> (\<forall>k links. (k, links) \<in> set (child_links_map st) \<longrightarrow>
                  (\<exists>ch\<in>set (child_issues st).
                     k = key ch \<and> links = original_links (issuelinks ch)))
             \<and> distinct (map fst (child_links_map st))
             \<and> (res = Inr () \<and> distinct (map key (child_issues st)) \<longrightarrow>
                  (\<forall>ch\<in>set (child_issues st).
                     map_of (child_links_map st) (key ch)
                       = Some (original_links (issuelinks ch))))"
          apply (rule exI [of _ evc])
          apply (rule exI [of _ evl])
          apply (rule exI [of _ rest])
          using fin(1) c fc r2 tr2 l sound1 dist1 compl1 [OF None] resok None by simp
        with ce Inr p show ?thesis by blast
      qed
    qed
  qed
qed

section \<open>The payloads of a run\<close>

lemma days_of_wall_difference:
  assumes "(b::int) mod usec_per_day = 0"
  shows "(a - b) div usec_per_day = a div usec_per_day - b div usec_per_day"
proof -
  from assms obtain k where k: "b = k * usec_per_day"
    by (metis mod_eq_0_iff_dvd dvd_def mult.commute)
  have nz: "usec_per_day \<noteq> 0" by (simp add: usec_per_day_def)
  have "(a - k * usec_per_day) div usec_per_day = a div usec_per_day - k"
    using nz div_mult_self1 [of usec_per_day a "- k"] by simp
  with k nz show ?thesis by simp
qed

lemma days_of_difference:
  assumes "wall b mod usec_per_day = 0" and "utcoffset a = utcoffset b"
  shows "td_days (dt_sub a b) = dt_date a - dt_date b"
proof (cases a)
  case a: (Naive wa)
  with assms(2) obtain wb where b: "b = Naive wb" by (cases b) auto
  with a assms(1) show ?thesis
    by (simp add: td_days_def dt_sub_def dt_date_def days_of_wall_difference)
next
  case a: (Aware wa off)
  with assms(2) obtain wb where b: "b = Aware wb off" by (cases b) auto
  with a assms(1) show ?thesis
    by (simp add: td_days_def dt_sub_def dt_date_def days_of_wall_difference)
qed

lemma built_forD:
  assumes "built_for P S esd nek ch pl"
  shows "\<exists>ns nd tid. child_dates P esd (new_start_date S) ch = Inr (ns, nd)
           \<and> pl = create_payload S nek ch tid ns nd"
proof (cases "child_dates P esd (new_start_date S) ch")
  case (Inl e)
  with assms show ?thesis by (simp add: built_for_def)
next
  case (Inr p)
  obtain ns nd where p: "p = (ns, nd)" by (cases p)
  show ?thesis
  proof (cases "p_issuetype pl")
    case (TypeName n)
    with assms Inr p show ?thesis by (simp add: built_for_def)
  next
    case (TypeId tid)
    with assms Inr p have "pl = create_payload S nek ch tid ns nd"
      by (simp add: built_for_def)
    with Inr p show ?thesis by blast
  qed
qed

lemma built_for_fields:
  assumes "built_for P S esd nek ch pl"
  shows "p_project pl = selected_key S \<and> p_summary pl = summary ch
       \<and> p_description pl = description ch \<and> p_customfield_10014 pl = Some nek
       \<and> (\<exists>tid. p_issuetype pl = TypeId tid)"
proof -
  from built_forD [OF assms] obtain ns nd tid where
    "pl = create_payload S nek ch tid ns nd" by blast
  then show ?thesis by (simp add: create_payload_def)
qed

lemma built_for_dates:
  assumes "built_for P S (Some esd) nek ch pl"
  shows "case truthy (customfield_10015 ch) of
           None \<Rightarrow> p_customfield_10015 pl = None \<and> p_duedate pl = None
         | Some s \<Rightarrow>
             \<exists>cdt. fromisoformat_Z P s = Inr cdt
               \<and> p_customfield_10015 pl = Some (new_start_date S + td_days (dt_sub cdt esd))
               \<and> (case truthy (duedate ch) of
                    None \<Rightarrow> p_duedate pl = None
                  | Some d \<Rightarrow>
                      \<exists>ddt. fromisoformat_Z P d = Inr ddt
                        \<and> p_duedate pl = Some (new_start_date S + td_days (dt_sub cdt esd)
                                                + td_days (dt_sub ddt cdt)))"
proof -
  from built_forD [OF assms] obtain ns nd tid where
    cd: "child_dates P (Some esd) (new_start_date S) ch = Inr (ns, nd)"
    and pl: "pl = create_payload S nek ch tid ns nd"
    by blast
  from cd have s: "new_child_start_of P (Some esd) (new_start_date S) ch = Inr ns"
    and d: "new_child_due_of P ns ch = Inr nd"
    by (auto simp: child_dates_def split: sum.splits)
  have ps: "p_customfield_10015 pl = ns" and pd: "p_duedate pl = nd"
    using pl by (simp_all add: create_payload_def)
  from new_child_start_of_result [OF s] new_child_due_of_result [OF d]
  show ?thesis
    unfolding ps pd by (auto split: option.splits)
qed

lemma migrate_payloadsE:
  assumes run: "migrate R P S = (st, res)"
    and pls: "created_payloads (trace st) = epl # cpls"
  obtains epic s d sdt ddt r0 where
      "jira_issue R [] (selected_epic S) = Inr epic"
      "truthy (customfield_10015 epic) = Some s" "truthy (duedate epic) = Some d"
      "fromisoformat_Z P s = Inr sdt" "fromisoformat_Z P d = Inr ddt"
      "epl = epic_payload S epic sdt ddt"
      "length cpls \<le> length (child_issues st)"
      "\<And>i. i < length cpls \<Longrightarrow> \<exists>nek. r0 = Inr nek
          \<and> built_for P S (Some sdt) nek (child_issues st ! i) (cpls ! i)"
      "CreateIssue epl r0 \<in> set (trace st)"
proof -
  from migrate_shape [OF run] consider
    (epic) e where "create_epic R P S = (trace st, Inl e)"
  | (search) tr1 esd nek where "create_epic R P S = (tr1, Inr (esd, nek))"
      "trace st = tr1 @ [SearchChildren (selected_epic S)]"
  | (children) tr1 esd nek evc evl where "create_epic R P S = (tr1, Inr (esd, nek))"
      "trace st = tr1 @ [SearchChildren (selected_epic S)] @ evc @ evl"
      "created_payloads evl = []"
      "length (created_payloads evc) \<le> length (child_issues st)"
      "list_all2 (built_for P S esd nek)
         (take (length (created_payloads evc)) (child_issues st)) (created_payloads evc)"
    by blast
  then show ?thesis
  proof cases
    case epic
    from create_epic_failed [OF epic] show ?thesis
    proof
      assume "trace st = [FetchIssue (selected_epic S)]"
      with pls show ?thesis by simp
    next
      assume "\<exists>epic s d sdt ddt.
            jira_issue R [] (selected_epic S) = Inr epic
          \<and> truthy (customfield_10015 epic) = Some s \<and> truthy (duedate epic) = Some d
          \<and> fromisoformat_Z P s = Inr sdt \<and> fromisoformat_Z P d = Inr ddt
          \<and> trace st = [FetchIssue (selected_epic S),
                  CreateIssue (epic_payload S epic sdt ddt) (Inl e)]"
      then obtain epic s d sdt ddt where
        e: "jira_issue R [] (selected_epic S) = Inr epic"
          "truthy (customfield_10015 epic) = Some s" "truthy (duedate epic) = Some d"
          "fromisoformat_Z P s = Inr sdt" "fromisoformat_Z P d = Inr ddt"
          "trace st = [FetchIssue (selected_epic S),
                  CreateIssue (epic_payload S epic sdt ddt) (Inl e)]"
        by blast
      from pls e(6) have p: "epl = epic_payload S epic sdt ddt" "cpls = []" by simp_all
      show ?thesis
        by (rule that [of epic s d sdt ddt "Inl e"]) (use e p in simp_all)
    qed
  next
    case search
    from create_epic_done [OF search(1)] obtain epic s d sdt ddt where
      e: "jira_issue R [] (selected_epic S) = Inr epic"
        "truthy (customfield_10015 epic) = Some s" "truthy (duedate epic) = Some d"
        "fromisoformat_Z P s = Inr sdt" "fromisoformat_Z P d = Inr ddt"
        "tr1 = [FetchIssue (selected_epic S), CreateIssue (epic_payload S epic sdt ddt) (Inr nek)]"
      by blast
    from pls search(2) e(6) have p: "epl = epic_payload S epic sdt ddt" "cpls = []"
      by simp_all
    show ?thesis
      by (rule that [of epic s d sdt ddt "Inr nek"]) (use e p search(2) in simp_all)
  next
    case children
    from create_epic_done [OF children(1)] obtain epic s d sdt ddt where
      e: "jira_issue R [] (selected_epic S) = Inr epic"
        "truthy (customfield_10015 epic) = Some s" "truthy (duedate epic) = Some d"
        "fromisoformat_Z P s = Inr sdt" "fromisoformat_Z P d = Inr ddt"
        "esd = Some sdt"
        "tr1 = [FetchIssue (selected_epic S), CreateIssue (epic_payload S epic sdt ddt) (Inr nek)]"
      by blast
    from pls children(2,3) e(7)
    have p: "epl = epic_payload S epic sdt ddt" "cpls = created_payloads evc"
      by (simp_all add: created_payloads_append)
    have b: "built_for P S (Some sdt) nek (child_issues st ! i) (cpls ! i)"
      if "i < length cpls" for i
      using list_all2_nthD2 [OF children(5), of i] that p(2) e(6) children(4) by simp
    have c: "CreateIssue epl (Inr nek) \<in> set (trace st)"
      using children(2) e(7) p(1) by simp
    have l: "length cpls \<le> length (child_issues st)"
      using children(4) p(2) by simp
    show ?thesis
      by (rule that [of epic s d sdt ddt "Inr nek"]) (use e p(1) b c l in simp_all)
  qed
qed

lemma built_for_due_iff:
  assumes "built_for P S (Some esd) nek ch pl"
  shows "p_duedate pl \<noteq> None \<longleftrightarrow>
           truthy (customfield_10015 ch) \<noteq> None \<and> truthy (duedate ch) \<noteq> None"
proof (cases "truthy (customfield_10015 ch)")
  case None
  with built_for_dates [OF assms] show ?thesis by simp
next
  case s: (Some s)
  show ?thesis
  proof (cases "truthy (duedate ch)")
    case None
    with s built_for_dates [OF assms] show ?thesis by auto
  next
    case (Some d)
    with s built_for_dates [OF assms] show ?thesis by auto
  qed
qed

lemma built_for_due_value:
  assumes "built_for P S (Some esd) nek ch pl"
    and "truthy (customfield_10015 ch) = Some s" and "truthy (duedate ch) = Some d"
  shows "\<exists>sdt ddt ns. fromisoformat_Z P s = Inr sdt \<and> fromisoformat_Z P d = Inr ddt
           \<and> p_customfield_10015 pl = Some ns
           \<and> p_duedate pl = Some (ns + td_days (dt_sub ddt sdt))"
  using built_for_dates [OF assms(1)] assms(2,3) by auto

lemma built_for_both_dates:
  assumes "built_for P S (Some esd) nek ch pl"
    and "p_customfield_10015 pl = Some a" and "p_duedate pl = Some b"
  shows "\<exists>s d sdt ddt.
           truthy (customfield_10015 ch) = Some s \<and> truthy (duedate ch) = Some d
         \<and> fromisoformat_Z P s = Inr sdt \<and> fromisoformat_Z P d = Inr ddt
         \<and> b - a = td_days (dt_sub ddt sdt)"
proof -
  from built_for_due_iff [OF assms(1)] assms(3) obtain s d where
    sd: "truthy (customfield_10015 ch) = Some s" "truthy (duedate ch) = Some d"
    by auto
  from built_for_due_value [OF assms(1) sd] assms(2,3) sd show ?thesis
    by auto
qed

lemma child_start_with_epic_start:
  assumes run: "migrate R P S = (st, res)"
    and pls: "created_payloads (trace st) = epl # cpls"
    and i: "i < length cpls"
    and epic: "jira_issue R [] (selected_epic S) = Inr epic"
    and es: "truthy (customfield_10015 epic) = Some es"
  shows "i < length (child_issues st)
       \<and> p_summary (cpls ! i) = summary (child_issues st ! i)
       \<and> (\<exists>esd. fromisoformat_Z P es = Inr esd
            \<and> (case truthy (customfield_10015 (child_issues st ! i)) of
                 None \<Rightarrow> p_customfield_10015 (cpls ! i) = None
               | Some cs \<Rightarrow>
                   \<exists>cdt. fromisoformat_Z P cs = Inr cdt
                     \<and> p_customfield_10015 (cpls ! i)
                         = Some (new_start_date S + td_days (dt_sub cdt esd))
                     \<and> (wall esd mod usec_per_day = 0 \<and> utcoffset cdt = utcoffset esd \<longrightarrow>
                          p_customfield_10015 (cpls ! i)
                            = Some (dt_date cdt + (new_start_date S - dt_date esd)))))"
proof (rule migrate_payloadsE [OF run pls])
  fix epic' s d esd ddt r0
  assume f: "jira_issue R [] (selected_epic S) = Inr epic'"
      "truthy (customfield_10015 epic') = Some s" "truthy (duedate epic') = Some d"
      "fromisoformat_Z P s = Inr esd" "fromisoformat_Z P d = Inr ddt"
      "epl = epic_payload S epic' esd ddt"
      "length cpls \<le> length (child_issues st)"
      "\<And>i. i < length cpls \<Longrightarrow> \<exists>nek. r0 = Inr nek
          \<and> built_for P S (Some esd) nek (child_issues st ! i) (cpls ! i)"
      "CreateIssue epl r0 \<in> set (trace st)"
  from f(1,2) epic es have "s = es" by simp
  with f(4,7) have e12: "fromisoformat_Z P es = Inr esd"
    "length cpls \<le> length (child_issues st)" by simp_all
  from f(8) [OF i] obtain nek where
    e3: "built_for P S (Some esd) nek (child_issues st ! i) (cpls ! i)" by blast
  note e = e12 e3
  have len: "i < length (child_issues st)" using e(2) i by simp
  have sm: "p_summary (cpls ! i) = summary (child_issues st ! i)"
    using built_for_fields [OF e(3)] by simp
  have dates: "case truthy (customfield_10015 (child_issues st ! i)) of
                 None \<Rightarrow> p_customfield_10015 (cpls ! i) = None
               | Some cs \<Rightarrow>
                   \<exists>cdt. fromisoformat_Z P cs = Inr cdt
                     \<and> p_customfield_10015 (cpls ! i)
                         = Some (new_start_date S + td_days (dt_sub cdt esd))
                     \<and> (wall esd mod usec_per_day = 0 \<and> utcoffset cdt = utcoffset esd \<longrightarrow>
                          p_customfield_10015 (cpls ! i)
                            = Some (dt_date cdt + (new_start_date S - dt_date esd)))"
  proof (cases "truthy (customfield_10015 (child_issues st ! i))")
    case None
    with built_for_dates [OF e(3)] show ?thesis by simp
  next
    case (Some cs)
    with built_for_dates [OF e(3)] obtain cdt where
      c: "fromisoformat_Z P cs = Inr cdt"
        "p_customfield_10015 (cpls ! i) = Some (new_start_date S + td_days (dt_sub cdt esd))"
      by auto
    have "wall esd mod usec_per_day = 0 \<and> utcoffset cdt = utcoffset esd \<longrightarrow>
            new_start_date S + td_days (dt_sub cdt esd)
              = dt_date cdt + (new_start_date S - dt_date esd)"
      by (simp add: days_of_difference)
    with c Some show ?thesis by simp
  qed
  from len sm e(1) dates show ?thesis by blast
qed

section \<open>The concrete run\<close>

lemma run1_payloads:
  "created_payloads (trace (fst (migrate repo1 fromisoformat_date sel1)))
     = [new_epic1, new_c, new_a, new_b]"
  by code_simp

lemma run1_children:
  "child_issues (fst (migrate repo1 fromisoformat_date sel1)) = [child_c, child_a, child_b]"
  by code_simp

lemma run1_result: "snd (migrate repo1 fromisoformat_date sel1) = Inr ()"
  by code_simp

lemma run1_epic: "jira_issue repo1 [] (selected_epic sel1) = Inr epic1"
  by (simp add: repo1_def repo_of_def)

lemma parsed_dates:
  "fromisoformat_Z fromisoformat_date ''2024-01-10'' = Inr (Naive (738895 * usec_per_day))"
  "fromisoformat_Z fromisoformat_date ''2024-01-20'' = Inr (Naive (738905 * usec_per_day))"
  "fromisoformat_Z fromisoformat_date ''2024-03-01'' = Inr (Naive (738946 * usec_per_day))"
  "fromisoformat_Z fromisoformat_date ''2024-03-04'' = Inr (Naive (738949 * usec_per_day))"
  "fromisoformat_Z fromisoformat_date ''2024-01-15'' = Inr (Naive (738900 * usec_per_day))"
  by code_simp+

lemma run1_pair:
  "migrate repo1 fromisoformat_date sel1
     = (fst (migrate repo1 fromisoformat_date sel1), snd (migrate repo1 fromisoformat_date sel1))"
  by simp

lemma epic1_truthy:
  "truthy (customfield_10015 epic1) = Some ''2024-01-10''"
  "truthy (duedate epic1) = Some ''2024-01-20''"
  by (simp_all add: epic1_def truthy_def)

lemma children_truthy:
  "truthy (customfield_10015 child_a) = Some ''2024-03-01''"
  "truthy (duedate child_a) = Some ''2024-03-04''"
  "truthy (customfield_10015 child_c) = Some ''2024-01-15''"
  "truthy (duedate child_c) = None"
  "truthy (customfield_10015 child_b) = None"
  "truthy (duedate child_b) = None"
  by (simp_all add: child_a_def child_b_def child_c_def truthy_def)

lemma run1_child_nth:
  "child_issues (fst (migrate repo1 fromisoformat_date sel1)) ! 0 = child_c"
  "child_issues (fst (migrate repo1 fromisoformat_date sel1)) ! Suc 0 = child_a"
  "child_issues (fst (migrate repo1 fromisoformat_date sel1)) ! 2 = child_b"
  by (simp_all add: run1_children)

section \<open>Stored links, planned calls and counting\<close>

lemma truthy_SomeD: "truthy v = Some s \<Longrightarrow> v = Some s \<and> s \<noteq> []"
  by (auto simp: truthy_def split: option.splits if_splits)

lemma get_key_SomeD: "get_key keys k = Some n \<Longrightarrow> map_of keys k = Some n"
  by (simp add: get_key_def truthy_SomeD)

lemma get_key_None: "map_of keys k = None \<Longrightarrow> get_key keys k = None"
  by (simp add: get_key_def truthy_def)

lemma set_map_filter_iff:
  "y \<in> set (List.map_filter f xs) \<longleftrightarrow> (\<exists>x\<in>set xs. f x = Some y)"
  by (induction xs) (auto split: option.splits)

lemma original_links_iff:
  "sl \<in> set (original_links ls) \<longleftrightarrow> (\<exists>l\<in>set ls. stored_of l = Some sl)"
  by (simp add: original_links_def set_map_filter_iff)

lemma stored_of_cases:
  assumes "stored_of l = Some sl"
  shows "l_type sl = type_name l
       \<and> (outwardIssue l = Some (l_key sl) \<and> l_direction sl = outward
          \<or> outwardIssue l = None \<and> inwardIssue l = Some (l_key sl) \<and> l_direction sl = inward)"
  using assms by (auto simp: stored_of_def split: option.splits)

lemma link_plan_of_iff:
  "c \<in> set (link_plan_of keys (k, links)) \<longleftrightarrow>
     (\<exists>nk. get_key keys k = Some nk \<and> (\<exists>link\<in>set links. link_call keys nk link = Some c))"
  by (cases "get_key keys k") (simp_all add: link_plan_of_def set_map_filter_iff)

lemma link_plan_iff:
  "c \<in> set (link_plan keys cmap) \<longleftrightarrow>
     (\<exists>(k, links)\<in>set cmap. \<exists>nk. get_key keys k = Some nk
        \<and> (\<exists>link\<in>set links. link_call keys nk link = Some c))"
proof -
  have "c \<in> set (link_plan keys cmap) \<longleftrightarrow> (\<exists>entry\<in>set cmap. c \<in> set (link_plan_of keys entry))"
    by (auto simp: link_plan_def)
  also have "\<dots> \<longleftrightarrow> (\<exists>(k, links)\<in>set cmap. c \<in> set (link_plan_of keys (k, links)))"
    by auto
  finally show ?thesis
    by (simp add: link_plan_of_iff)
qed

lemma link_call_SomeD:
  assumes "link_call keys nk link = Some (t, i, ou)"
  shows "\<exists>lk. get_key keys (l_key link) = Some lk \<and> t = l_type link
           \<and> (l_direction link = outward \<and> i = nk \<and> ou = lk
              \<or> l_direction link = inward \<and> i = lk \<and> ou = nk)"
proof (cases "get_key keys (l_key link)")
  case None
  with assms show ?thesis by (simp add: link_call_def)
next
  case (Some lk)
  with assms show ?thesis
    by (cases "l_direction link") (auto simp: link_call_def)
qed

lemma link_event_in_calls:
  "CreateIssueLink t i ou r \<in> set tr \<Longrightarrow> (t, i, ou) \<in> set (link_calls tr)"
  by (force simp: link_calls_def List.map_filter_def link_of_def)

lemma create_event_in_payloads:
  "CreateIssue pl r \<in> set tr \<Longrightarrow> pl \<in> set (created_payloads tr)"
  by (force simp: created_payloads_def List.map_filter_def payload_of_def)

lemma no_payloads_no_create:
  "created_payloads tr = [] \<Longrightarrow> CreateIssue pl r \<notin> set tr"
  using create_event_in_payloads [of pl r tr] by auto

lemma no_calls_no_link:
  "link_calls tr = [] \<Longrightarrow> CreateIssueLink t i ou r \<notin> set tr"
  using link_event_in_calls [of t i ou r tr] by auto

lemma count_in_concat:
  "x \<in> set xs \<Longrightarrow> c \<in> set (f x) \<Longrightarrow> 1 \<le> count_list (concat (map f xs)) c"
proof (induction xs)
  case Nil
  then show ?case by simp
next
  case (Cons z zs)
  show ?case
  proof (cases "z = x")
    case True
    with Cons.prems(2) have "count_list (f z) c \<noteq> 0"
      by (simp add: count_list_0_iff)
    then show ?thesis by simp
  next
    case False
    with Cons have "1 \<le> count_list (concat (map f zs)) c" by simp
    then show ?thesis by simp
  qed
qed

lemma count_twice_in_concat:
  assumes "x \<in> set xs" "y \<in> set xs" "x \<noteq> y" "c \<in> set (f x)" "c \<in> set (f y)"
  shows "2 \<le> count_list (concat (map f xs)) c"
  using assms
proof (induction xs)
  case Nil
  then show ?case by simp
next
  case (Cons z zs)
  consider (x) "z = x" | (y) "z = y" | (other) "z \<noteq> x" "z \<noteq> y" by blast
  then show ?case
  proof cases
    case x
    with Cons.prems have "y \<in> set zs" by auto
    from this Cons.prems(5) have r: "1 \<le> count_list (concat (map f zs)) c"
      by (rule count_in_concat [of y zs c f])
    from x Cons.prems(4) have "count_list (f z) c \<noteq> 0" by (simp add: count_list_0_iff)
    with r show ?thesis by simp
  next
    case y
    with Cons.prems have "x \<in> set zs" by auto
    from this Cons.prems(4) have r: "1 \<le> count_list (concat (map f zs)) c"
      by (rule count_in_concat [of x zs c f])
    from y Cons.prems(5) have "count_list (f z) c \<noteq> 0" by (simp add: count_list_0_iff)
    with r show ?thesis by simp
  next
    case other
    with Cons have "2 \<le> count_list (concat (map f zs)) c" by simp
    then show ?thesis by simp
  qed
qed

lemma find_type_id_no_match:
  "\<forall>itype\<in>set issue_types. Some (it_name itype) \<noteq> n \<Longrightarrow> find_type_id issue_types n = None"
  by (induction issue_types) auto

lemma find_type_id_SomeD:
  "find_type_id issue_types n = Some i \<Longrightarrow>
     \<exists>itype\<in>set issue_types. Some (it_name itype) = n \<and> it_id itype = i"
  by (induction issue_types) (auto split: if_splits)

section \<open>The link calls of a run\<close>

lemma migrate_links:
  assumes run: "migrate R P S = (st, res)"
  shows "set (link_calls (trace st))
           \<subseteq> set (link_plan (old_to_new_keys st) (child_links_map st))
       \<and> (res = Inr () \<longrightarrow>
            link_calls (trace st) = link_plan (old_to_new_keys st) (child_links_map st)
          \<and> (\<forall>c\<in>set (link_plan (old_to_new_keys st) (child_links_map st)).
                ok_link c \<in> set (trace st)))
       \<and> (\<forall>k links. (k, links) \<in> set (child_links_map st) \<longrightarrow>
            (\<exists>ch\<in>set (child_issues st).
               k = key ch \<and> links = original_links (issuelinks ch)))
       \<and> (res = Inr () \<and> distinct (map key (child_issues st)) \<longrightarrow>
            (\<forall>ch\<in>set (child_issues st).
               (key ch, original_links (issuelinks ch)) \<in> set (child_links_map st)))"
proof -
  from migrate_shape [OF run] consider
    (epic) e where "create_epic R P S = (trace st, Inl e)" "res = Inl e"
      "child_links_map st = []"
  | (search) tr1 esd nek e where "create_epic R P S = (tr1, Inr (esd, nek))"
      "trace st = tr1 @ [SearchChildren (selected_epic S)]" "res = Inl e"
      "child_links_map st = []"
  | (children) tr1 esd nek evc evl rest where "create_epic R P S = (tr1, Inr (esd, nek))"
      "trace st = tr1 @ [SearchChildren (selected_epic S)] @ evc @ evl"
      "link_calls evc = []"
      "link_plan (old_to_new_keys st) (child_links_map st) = link_calls evl @ rest"
      "res = Inr () \<longrightarrow> rest = [] \<and> evl = map ok_link (link_calls evl)"
      "\<forall>k links. (k, links) \<in> set (child_links_map st) \<longrightarrow>
            (\<exists>ch\<in>set (child_issues st).
               k = key ch \<and> links = original_links (issuelinks ch))"
      "res = Inr () \<and> distinct (map key (child_issues st)) \<longrightarrow>
            (\<forall>ch\<in>set (child_issues st).
               map_of (child_links_map st) (key ch)
                 = Some (original_links (issuelinks ch)))"
    by blast
  then show ?thesis
  proof cases
    case epic
    from create_epic_failed [OF epic(1)] have "link_calls (trace st) = []"
      by auto
    with epic(2,3) show ?thesis by simp
  next
    case search
    from create_epic_done [OF search(1)] search(2) have "link_calls (trace st) = []"
      by (auto simp: link_calls_append)
    with search(3,4) show ?thesis by simp
  next
    case children
    from create_epic_done [OF children(1)] have "link_calls tr1 = []" by auto
    with children(2,3) have lc: "link_calls (trace st) = link_calls evl"
      by (simp add: link_calls_append)
    have a: "set (link_calls (trace st))
           \<subseteq> set (link_plan (old_to_new_keys st) (child_links_map st))"
      using lc children(4) by simp
    have b: "link_calls (trace st) = link_plan (old_to_new_keys st) (child_links_map st)
          \<and> (\<forall>c\<in>set (link_plan (old_to_new_keys st) (child_links_map st)).
                ok_link c \<in> set (trace st))" if ok: "res = Inr ()"
    proof -
      from ok children(5) have r: "rest = []" and m: "evl = map ok_link (link_calls evl)"
        by simp_all
      from r children(4) lc have eq: "link_calls (trace st)
          = link_plan (old_to_new_keys st) (child_links_map st)" by simp
      have "ok_link c \<in> set (trace st)"
        if "c \<in> set (link_plan (old_to_new_keys st) (child_links_map st))" for c
      proof -
        from that r children(4) have "c \<in> set (link_calls evl)" by simp
        then have "ok_link c \<in> set (map ok_link (link_calls evl))" by simp
        with m have "ok_link c \<in> set evl" by simp
        with children(2) show ?thesis by simp
      qed
      with eq show ?thesis by blast
    qed
    have d: "(key ch, original_links (issuelinks ch)) \<in> set (child_links_map st)"
      if "res = Inr ()" "distinct (map key (child_issues st))" "ch \<in> set (child_issues st)"
      for ch
      using children(7) that by (auto dest: map_of_SomeD)
    from a b children(6) d show ?thesis by blast
  qed
qed

lemma planned_call_origin:
  assumes run: "migrate R P S = (st, res)"
    and c: "(t, i, ou) \<in> set (link_plan (old_to_new_keys st) (child_links_map st))"
  shows "\<exists>ch\<in>set (child_issues st). \<exists>link\<in>set (issuelinks ch). \<exists>b a' b'.
            t = type_name link
          \<and> get_key (old_to_new_keys st) (key ch) = Some a'
          \<and> get_key (old_to_new_keys st) b = Some b'
          \<and> (outwardIssue link = Some b \<and> i = a' \<and> ou = b'
             \<or> outwardIssue link = None \<and> inwardIssue link = Some b \<and> i = b' \<and> ou = a')"
proof -
  from c obtain k links nk sl where
    e: "(k, links) \<in> set (child_links_map st)" "get_key (old_to_new_keys st) k = Some nk"
      "sl \<in> set links" "link_call (old_to_new_keys st) nk sl = Some (t, i, ou)"
    by (auto simp: link_plan_iff)
  from migrate_links [OF run] e(1) obtain ch where
    ch: "ch \<in> set (child_issues st)" "k = key ch" "links = original_links (issuelinks ch)"
    by blast
  from e(3) ch(3) obtain link where
    l: "link \<in> set (issuelinks ch)" "stored_of link = Some sl"
    by (auto simp: original_links_iff)
  from link_call_SomeD [OF e(4)] obtain lk where
    lk: "get_key (old_to_new_keys st) (l_key sl) = Some lk" "t = l_type sl"
      "l_direction sl = outward \<and> i = nk \<and> ou = lk
       \<or> l_direction sl = inward \<and> i = lk \<and> ou = nk"
    by blast
  from stored_of_cases [OF l(2)] have
    sc: "l_type sl = type_name link"
      "outwardIssue link = Some (l_key sl) \<and> l_direction sl = outward
       \<or> outwardIssue link = None \<and> inwardIssue link = Some (l_key sl)
          \<and> l_direction sl = inward"
    by simp_all
  have "t = type_name link
          \<and> get_key (old_to_new_keys st) (key ch) = Some nk
          \<and> get_key (old_to_new_keys st) (l_key sl) = Some lk
          \<and> (outwardIssue link = Some (l_key sl) \<and> i = nk \<and> ou = lk
             \<or> outwardIssue link = None \<and> inwardIssue link = Some (l_key sl)
                \<and> i = lk \<and> ou = nk)"
    using lk sc e(2) ch(2) by auto
  with ch(1) l(1) show ?thesis by blast
qed

lemma planned_call_of_link:
  assumes run: "migrate R P S = (st, Inr ())"
    and dist: "distinct (map key (child_issues st))"
    and ch: "ch \<in> set (child_issues st)" and l: "link \<in> set (issuelinks ch)"
    and ka: "get_key (old_to_new_keys st) (key ch) = Some a'"
    and kb: "get_key (old_to_new_keys st) b = Some b'"
  shows "outwardIssue link = Some b \<Longrightarrow>
           (type_name link, a', b') \<in> set (link_plan (old_to_new_keys st) (child_links_map st))"
    and "outwardIssue link = None \<Longrightarrow> inwardIssue link = Some b \<Longrightarrow>
           (type_name link, b', a') \<in> set (link_plan (old_to_new_keys st) (child_links_map st))"
proof -
  from migrate_links [OF run] dist ch
  have entry: "(key ch, original_links (issuelinks ch)) \<in> set (child_links_map st)"
    by blast
  {
    assume o: "outwardIssue link = Some b"
    define sl where "sl = \<lparr>l_type = type_name link, l_direction = outward, l_key = b\<rparr>"
    have "stored_of link = Some sl" using o by (simp add: stored_of_def sl_def)
    with l have m: "sl \<in> set (original_links (issuelinks ch))"
      by (auto simp: original_links_iff)
    have "link_call (old_to_new_keys st) a' sl = Some (type_name link, a', b')"
      using kb by (simp add: link_call_def sl_def)
    with entry ka m
    show "(type_name link, a', b') \<in> set (link_plan (old_to_new_keys st) (child_links_map st))"
      by (auto simp: link_plan_iff)
  }
  {
    assume o: "outwardIssue link = None" and i: "inwardIssue link = Some b"
    define sl where "sl = \<lparr>l_type = type_name link, l_direction = inward, l_key = b\<rparr>"
    have "stored_of link = Some sl" using o i by (simp add: stored_of_def sl_def)
    with l have m: "sl \<in> set (original_links (issuelinks ch))"
      by (auto simp: original_links_iff)
    have "link_call (old_to_new_keys st) a' sl = Some (type_name link, b', a')"
      using kb by (simp add: link_call_def sl_def)
    with entry ka m
    show "(type_name link, b', a') \<in> set (link_plan (old_to_new_keys st) (child_links_map st))"
      by (auto simp: link_plan_iff)
  }
qed

lemma recreate_links_of_inside:
  "recreate_links_of R keys nk (inside keys links) tr = recreate_links_of R keys nk links tr"
proof (induction links arbitrary: tr)
  case Nil
  then show ?case by (simp add: inside_def)
next
  case (Cons link links)
  show ?case
  proof (cases "map_of keys (l_key link)")
    case None
    then have "get_key keys (l_key link) = None" by (rule get_key_None)
    with None Cons.IH show ?thesis by (simp add: inside_def)
  next
    case (Some v)
    then have "inside keys (link # links) = link # inside keys links"
      by (simp add: inside_def)
    with Cons.IH show ?thesis
      by (simp split: option.splits prod.splits)
  qed
qed

lemma recreate_links_inside:
  "recreate_links R keys (map (\<lambda>(k, ls). (k, inside keys ls)) cmap) tr
     = recreate_links R keys cmap tr"
proof (induction cmap arbitrary: tr)
  case Nil
  then show ?case by simp
next
  case (Cons entry cmap)
  obtain k ls where entry: "entry = (k, ls)" by (cases entry)
  show ?case
    using Cons.IH
    by (simp add: entry recreate_links_of_inside split: option.splits prod.splits)
qed

lemma recreate_links_of_no_error:
  assumes "\<forall>h t i ou. jira_create_issue_link R h t i ou = Inr ()"
  shows "snd (recreate_links_of R keys nk links tr) = None"
proof (induction links arbitrary: tr)
  case Nil
  then show ?case by simp
next
  case (Cons link links)
  have c: "create_issue_link R tr t i ou = (tr @ [CreateIssueLink t i ou (Inr ())], None)"
    for t i ou
    using assms by (simp add: create_issue_link_def)
  show ?case
    using Cons.IH by (simp add: c split: option.splits)
qed

lemma recreate_links_no_error:
  assumes "\<forall>h t i ou. jira_create_issue_link R h t i ou = Inr ()"
  shows "snd (recreate_links R keys cmap tr) = None"
proof (induction cmap arbitrary: tr)
  case Nil
  then show ?case by simp
next
  case (Cons entry cmap)
  obtain k ls where entry: "entry = (k, ls)" by (cases entry)
  show ?case
  proof (cases "get_key keys k")
    case None
    with Cons.IH entry show ?thesis by simp
  next
    case (Some nk)
    obtain tr1 r1 where inner: "recreate_links_of R keys nk ls tr = (tr1, r1)"
      by (cases "recreate_links_of R keys nk ls tr") auto
    from recreate_links_of_no_error [OF assms, of keys nk ls tr] inner
    have "r1 = None" by simp
    with Cons.IH entry Some inner show ?thesis by simp
  qed
qed

lemma built_for_in_list:
  assumes "list_all2 Q (take (length pls) cs) pls" and "pl \<in> set pls"
  shows "\<exists>c. Q c pl"
proof -
  from assms(2) obtain i where i: "i < length pls" "pls ! i = pl"
    by (auto simp: in_set_conv_nth)
  from list_all2_nthD2 [OF assms(1) i(1)] i(2) show ?thesis by blast
qed

section \<open>A child of an unknown type, and more facts of the concrete runs\<close>

lemma migrate_child_unsupported:
  assumes dates: "child_dates P esd (new_start_date S) ch = Inr dts"
    and types: "jira_project R (trace st) (selected_key S) = Inr issue_types"
    and nomatch: "\<forall>itype\<in>set issue_types. Some (it_name itype) \<noteq> issuetype_name ch"
  shows "migrate_child R P S esd nek ch st =
           (st\<lparr>child_links_map :=
                  AList.update (key ch) (original_links (issuelinks ch)) (child_links_map st),
               trace := trace st @ [FetchProject (selected_key S)]\<rparr>,
            Some (UnsupportedIssueType (issuetype_name ch) (selected_key S)))"
proof -
  obtain ns nd where dts: "dts = (ns, nd)" by (cases dts)
  have "find_type_id issue_types (issuetype_name ch) = None"
    using nomatch by (rule find_type_id_no_match)
  then have "truthy (find_type_id issue_types (issuetype_name ch)) = None"
    by (simp add: truthy_def)
  with dates dts types show ?thesis
    by (simp add: migrate_child_def Let_def)
qed

lemma run1_ok:
  "migrate repo1 fromisoformat_date sel1 = (fst (migrate repo1 fromisoformat_date sel1), Inr ())"
  using run1_result by (metis prod.collapse)

lemma run1_keys:
  "old_to_new_keys (fst (migrate repo1 fromisoformat_date sel1))
     = [(''PPT-4'', ''DST-2''), (''PPT-2'', ''DST-3''), (''PPT-3'', ''DST-4'')]"
  by code_simp

lemma run1_link_calls:
  "link_calls (trace (fst (migrate repo1 fromisoformat_date sel1)))
     = [(''Blocks'', ''DST-3'', ''DST-2''), (''Blocks'', ''DST-3'', ''DST-2'')]"
  by code_simp

lemma run1_new_keys:
  "get_key (old_to_new_keys (fst (migrate repo1 fromisoformat_date sel1))) ''PPT-2'' = Some ''DST-3''"
  "get_key (old_to_new_keys (fst (migrate repo1 fromisoformat_date sel1))) ''PPT-4'' = Some ''DST-2''"
  "map_of (old_to_new_keys (fst (migrate repo1 fromisoformat_date sel1))) ''EXT-9'' = None"
  by (simp_all add: run1_keys get_key_def truthy_def)

lemma run1_distinct:
  "distinct (map key (child_issues (fst (migrate repo1 fromisoformat_date sel1))))"
  by (simp add: run1_children child_a_def child_b_def child_c_def)

lemma child_links:
  "blocks_out \<in> set (issuelinks child_a)" "blocks_in \<in> set (issuelinks child_c)"
  "key child_a = ''PPT-2''" "key child_c = ''PPT-4''"
  by (simp_all add: child_a_def child_c_def blocks_out_def blocks_in_def)

lemma run7_epic:
  "create_epic repo7 fromisoformat_date sel1
     = (trace_epic1, Inr (Some (Naive (738895 * usec_per_day)), ''DST-1''))"
  by code_simp

lemma run7_search:
  "fetch_children repo7 fromisoformat_date sel1 trace_epic1
     = (trace_epic1 @ [SearchChildren ''PPT-1''], Inr ([child_c] @ child_e # [child_a]))"
  by code_simp

lemma run7_pre:
  "migrate_children repo7 fromisoformat_date sel1 (Some (Naive (738895 * usec_per_day))) ''DST-1''
     [child_c]
     (start_locals (trace_epic1 @ [SearchChildren ''PPT-1'']) ([child_c] @ child_e # [child_a]))
     = (st7, None)"
  by code_simp

lemma run7_dates:
  "child_dates fromisoformat_date (Some (Naive (738895 * usec_per_day))) (new_start_date sel1) child_e
     = Inr (Some 738939, None)"
  by code_simp

lemma run7_types:
  "jira_project repo7 (trace st7) (selected_key sel1)
     = Inr [\<lparr>it_name = ''Epic'', it_id = ''10000''\<rparr>, \<lparr>it_name = ''Task'', it_id = ''10001''\<rparr>]"
  by (simp add: repo7_def repo_of_def)

lemma run7_no_match:
  "\<forall>itype\<in>set [\<lparr>it_name = ''Epic'', it_id = ''10000''\<rparr>, \<lparr>it_name = ''Task'', it_id = ''10001''\<rparr>].
     Some (it_name itype) \<noteq> issuetype_name child_e"
  by (simp add: child_e_def)

lemma fail_pair:
  "migrate repo_fail fromisoformat_date sel1
     = (fst (migrate repo_fail fromisoformat_date sel1),
        snd (migrate repo_fail fromisoformat_date sel1))"
  by simp

lemma fail_event:
  "CreateIssue new_epic1 (Inl (RepositoryError ''403''))
     \<in> set (trace (fst (migrate repo_fail fromisoformat_date sel1)))"
  by code_simp

section \<open>The order of the snapshot and the cases of a run\<close>

lemma update_fresh: "k \<notin> fst ` set al \<Longrightarrow> AList.update k v al = al @ [(k, v)]"
  by (induction al) auto

lemma migrate_children_links_order:
  assumes "migrate_children R P S esd nek cs st = (st', None)"
    and "distinct (map key cs)"
    and "key ` set cs \<inter> fst ` set (child_links_map st) = {}"
  shows "child_links_map st'
       = child_links_map st @ map (\<lambda>ch. (key ch, original_links (issuelinks ch))) cs"
  using assms
proof (induction cs arbitrary: st)
  case Nil
  then show ?case by simp
next
  case (Cons c rest)
  obtain st1 r1 where one: "migrate_child R P S esd nek c st = (st1, r1)"
    by (cases "migrate_child R P S esd nek c st") auto
  from Cons.prems(3) have fresh: "key c \<notin> fst ` set (child_links_map st)" by auto
  from migrate_child_trace [OF one] have
    "child_links_map st1
       = AList.update (key c) (original_links (issuelinks c)) (child_links_map st)"
    by blast
  with fresh have m1: "child_links_map st1
       = child_links_map st @ [(key c, original_links (issuelinks c))]"
    by (simp add: update_fresh)
  from Cons.prems(1) one have r1: "r1 = None"
    by (cases r1) auto
  with Cons.prems(1) one have rest: "migrate_children R P S esd nek rest st1 = (st', None)"
    by simp
  from Cons.prems(2) have d: "distinct (map key rest)" and n: "key c \<notin> key ` set rest"
    by auto
  from Cons.prems(3) n have disj: "key ` set rest \<inter> fst ` set (child_links_map st1) = {}"
    unfolding m1 by auto
  from Cons.IH [OF rest d disj] show ?case
    unfolding m1 by simp
qed

lemma migrate_links_order:
  assumes run: "migrate R P S = (st, Inr ())"
    and dist: "distinct (map key (child_issues st))"
  shows "child_links_map st
       = map (\<lambda>ch. (key ch, original_links (issuelinks ch))) (child_issues st)"
proof -
  from run obtain tr1 esd nek where ce: "create_epic R P S = (tr1, Inr (esd, nek))"
    by (auto simp: migrate_def split: prod.splits sum.splits)
  with run obtain tr2 cs where fc: "fetch_children R P S tr1 = (tr2, Inr cs)"
    by (auto simp: migrate_def split: prod.splits sum.splits)
  define st0 where "st0 = start_locals tr2 cs"
  have st0: "child_issues st0 = cs" "child_links_map st0 = []"
    by (simp_all add: st0_def start_locals_def)
  from run ce fc have cal: "children_and_links R P S esd nek st0 = (st, Inr ())"
    by (simp add: migrate_def st0_def)
  obtain st1 rc where mc: "migrate_children R P S esd nek cs st0 = (st1, rc)"
    by (cases "migrate_children R P S esd nek cs st0") auto
  from cal mc st0(1) have rc: "rc = None"
    by (cases rc) (auto simp: children_and_links_def)
  from cal mc st0(1) rc have fin: "child_issues st = child_issues st1"
    "child_links_map st = child_links_map st1"
    by (auto simp: children_and_links_def split: prod.splits option.splits)
  from migrate_children_shape [OF mc] st0(1) have cs: "child_issues st1 = cs" by simp
  from dist fin(1) cs have d: "distinct (map key cs)" by simp
  from migrate_children_links_order [OF mc [unfolded rc] d] st0(2)
  have "child_links_map st1 = map (\<lambda>ch. (key ch, original_links (issuelinks ch))) cs"
    by simp
  with fin cs show ?thesis by simp
qed

lemma migrate_cases:
  assumes run: "migrate R P S = (st, res)"
  obtains (epic) e where
      "trace st = [FetchIssue (selected_epic S)]
         \<or> (\<exists>pl. trace st = [FetchIssue (selected_epic S), CreateIssue pl (Inl e)])"
      "res = Inl e" "child_issues st = []" "child_links_map st = []"
  | (search) pl nek e where
      "trace st = [FetchIssue (selected_epic S), CreateIssue pl (Inr nek),
                   SearchChildren (selected_epic S)]"
      "res = Inl e" "child_issues st = []" "child_links_map st = []"
  | (children) pl esd nek evc evl rest resp data where
      "trace st = [FetchIssue (selected_epic S), CreateIssue pl (Inr nek),
                   SearchChildren (selected_epic S)] @ evc @ evl"
      "requests_get R [FetchIssue (selected_epic S), CreateIssue pl (Inr nek)] (selected_epic S)
         = Inr resp"
      "status_code resp = 200" "resp_json resp = Some data"
      "ordre_child_issues P (issues_of data) = Inr (child_issues st)"
      "link_calls evc = []" "created_payloads evl = []"
      "length (created_payloads evc) \<le> length (child_issues st)"
      "list_all2 (built_for P S esd nek)
         (take (length (created_payloads evc)) (child_issues st)) (created_payloads evc)"
      "evl \<noteq> [] \<or> res = Inr () \<longrightarrow>
         length (created_payloads evc) = length (child_issues st)"
      "link_plan (old_to_new_keys st) (child_links_map st) = link_calls evl @ rest"
      "res = Inr () \<longrightarrow> rest = [] \<and> evl = map ok_link (link_calls evl)"
proof -
  from migrate_shape [OF run] consider
    (e) e where "create_epic R P S = (trace st, Inl e)" "res = Inl e" "child_issues st = []"
      "child_links_map st = []"
  | (s) tr1 esd nek e where "create_epic R P S = (tr1, Inr (esd, nek))"
      "trace st = tr1 @ [SearchChildren (selected_epic S)]" "res = Inl e"
      "child_issues st = []" "child_links_map st = []"
  | (c) tr1 esd nek evc evl rest where "create_epic R P S = (tr1, Inr (esd, nek))"
      "fetch_children R P S tr1
         = (tr1 @ [SearchChildren (selected_epic S)], Inr (child_issues st))"
      "trace st = tr1 @ [SearchChildren (selected_epic S)] @ evc @ evl"
      "link_calls evc = []" "created_payloads evl = []"
      "length (created_payloads evc) \<le> length (child_issues st)"
      "list_all2 (built_for P S esd nek)
         (take (length (created_payloads evc)) (child_issues st)) (created_payloads evc)"
      "evl \<noteq> [] \<or> res = Inr () \<longrightarrow>
         length (created_payloads evc) = length (child_issues st)"
      "link_plan (old_to_new_keys st) (child_links_map st) = link_calls evl @ rest"
      "res = Inr () \<longrightarrow> rest = [] \<and> evl = map ok_link (link_calls evl)"
    by blast
  then show ?thesis
  proof cases
    case e
    from create_epic_failed [OF e(1)] have
      tr: "trace st = [FetchIssue (selected_epic S)]
         \<or> (\<exists>pl. trace st = [FetchIssue (selected_epic S), CreateIssue pl (Inl e)])"
      by blast
    show ?thesis by (rule epic [OF tr e(2-4)])
  next
    case s
    from create_epic_done [OF s(1)] obtain pl where
      "tr1 = [FetchIssue (selected_epic S), CreateIssue pl (Inr nek)]" by blast
    with s(2) have tr: "trace st = [FetchIssue (selected_epic S), CreateIssue pl (Inr nek),
                   SearchChildren (selected_epic S)]" by simp
    show ?thesis by (rule search [OF tr s(3-5)])
  next
    case c
    from create_epic_done [OF c(1)] obtain pl where
      tr1: "tr1 = [FetchIssue (selected_epic S), CreateIssue pl (Inr nek)]" by blast
    from fetch_children_shape [OF c(2)] obtain resp data where
      r: "requests_get R tr1 (selected_epic S) = Inr resp" "status_code resp = 200"
        "resp_json resp = Some data"
        "ordre_child_issues P (issues_of data) = Inr (child_issues st)"
      by blast
    have t: "trace st = [FetchIssue (selected_epic S), CreateIssue pl (Inr nek),
                   SearchChildren (selected_epic S)] @ evc @ evl"
      using c(3) tr1 by simp
    show ?thesis
      by (rule children [OF t r(1) [unfolded tr1] r(2-4) c(4-10)])
  qed
qed

lemma run1_trace:
  "trace (fst (migrate repo1 fromisoformat_date sel1))
     = [FetchIssue ''PPT-1'', CreateIssue new_epic1 (Inr ''DST-1''), SearchChildren ''PPT-1'',
        FetchProject ''DST'', CreateIssue new_c (Inr ''DST-2''),
        FetchProject ''DST'', CreateIssue new_a (Inr ''DST-3''),
        FetchProject ''DST'', CreateIssue new_b (Inr ''DST-4''),
        CreateIssueLink ''Blocks'' ''DST-3'' ''DST-2'' (Inr ()),
        CreateIssueLink ''Blocks'' ''DST-3'' ''DST-2'' (Inr ())]"
  by code_simp

lemma run1_plan:
  "link_plan (old_to_new_keys (fst (migrate repo1 fromisoformat_date sel1)))
     (child_links_map (fst (migrate repo1 fromisoformat_date sel1)))
     = [(''Blocks'', ''DST-3'', ''DST-2''), (''Blocks'', ''DST-3'', ''DST-2'')]"
  by code_simp

lemma run1_search:
  "requests_get repo1 h k = Inr resp1"
  by (simp add: repo1_def repo_of_def)

section \<open>The sort of the children\<close>

lemma insort_lt_aware:
  assumes "aware (k x)" and "\<forall>y\<in>set ys. aware (k y)"
  shows "insort_lt k x ys = Inr (insort_key (\<lambda>i. instant (k i)) x ys)"
  using assms by (induction ys) (auto simp: dt_lt_def)

lemma insort_lt_naive:
  assumes "\<not> aware (k x)" and "\<forall>y\<in>set ys. \<not> aware (k y)"
  shows "insort_lt k x ys = Inr (insort_key (\<lambda>i. instant (k i)) x ys)"
  using assms by (induction ys) (auto simp: dt_lt_def)

lemma insort_lt_other_kind:
  assumes "ys \<noteq> []" and "\<forall>y\<in>set ys. aware (k y) \<noteq> aware (k x)"
  shows "insort_lt k x ys = Inl TypeError"
  using assms by (cases ys) (auto simp: dt_lt_def)

lemma sort_key_not_Nil: "xs \<noteq> [] \<Longrightarrow> sort_key f xs \<noteq> []"
proof
  assume "xs \<noteq> []" and "sort_key f xs = []"
  then have "length (sort_key f xs) = 0" by (simp only: list.size)
  then have "length xs = 0" by (simp only: length_sort)
  with \<open>xs \<noteq> []\<close> show False by simp
qed

lemma sorted_key_result:
  "sorted_key k xs =
     (if one_kind (map k xs) then Inr (sort_key (\<lambda>i. instant (k i)) xs) else Inl TypeError)"
proof (induction xs)
  case Nil
  show ?case by (simp add: one_kind_def)
next
  case (Cons x xs)
  let ?s = "sort_key (\<lambda>i. instant (k i)) xs"
  show ?case
  proof (cases "one_kind (map k xs)")
    case False
    then have "\<not> one_kind (map k (x # xs))" by (auto simp: one_kind_def)
    with False Cons show ?thesis by simp
  next
    case True
    with Cons have r: "sorted_key k xs = Inr ?s" by simp
    consider (aa) "aware (k x)" "\<forall>y\<in>set xs. aware (k y)"
      | (nn) "\<not> aware (k x)" "\<forall>y\<in>set xs. \<not> aware (k y)"
      | (an) "xs \<noteq> []" "aware (k x)" "\<forall>y\<in>set xs. \<not> aware (k y)"
      | (na) "xs \<noteq> []" "\<not> aware (k x)" "\<forall>y\<in>set xs. aware (k y)"
      using True by (cases xs) (auto simp: one_kind_def list_all_iff)
    then show ?thesis
    proof cases
      case aa
      then have "one_kind (map k (x # xs))" by (simp add: one_kind_def list_all_iff)
      moreover from aa have "insort_lt k x ?s = Inr (insort_key (\<lambda>i. instant (k i)) x ?s)"
        by (intro insort_lt_aware) simp_all
      ultimately show ?thesis using r by simp
    next
      case nn
      then have "one_kind (map k (x # xs))" by (simp add: one_kind_def list_all_iff)
      moreover from nn have "insort_lt k x ?s = Inr (insort_key (\<lambda>i. instant (k i)) x ?s)"
        by (intro insort_lt_naive) simp_all
      ultimately show ?thesis using r by simp
    next
      case an
      then have "\<not> one_kind (map k (x # xs))"
        by (cases xs) (auto simp: one_kind_def list_all_iff)
      moreover from an have "insort_lt k x ?s = Inl TypeError"
        by (intro insort_lt_other_kind sort_key_not_Nil) simp_all
      ultimately show ?thesis using r by simp
    next
      case na
      then have "\<not> one_kind (map k (x # xs))"
        by (cases xs) (auto simp: one_kind_def list_all_iff)
      moreover from na have "insort_lt k x ?s = Inl TypeError"
        by (intro insort_lt_other_kind sort_key_not_Nil) simp_all
      ultimately show ?thesis using r by simp
    qed
  qed
qed

lemma not_one_kind_iff:
  "\<not> one_kind ks \<longleftrightarrow> (\<exists>a\<in>set ks. \<exists>b\<in>set ks. aware a \<and> \<not> aware b)"
  by (auto simp: one_kind_def list_all_iff)

lemma get_start_date_cases:
  "(truthy (customfield_10015 x) = None \<longrightarrow> get_start_date P x = datetime_max)
   \<and> (\<forall>s. truthy (customfield_10015 x) = Some s \<and> P s = None
          \<longrightarrow> get_start_date P x = datetime_max)
   \<and> (\<forall>s dt. truthy (customfield_10015 x) = Some s \<and> P s = Some dt
          \<longrightarrow> get_start_date P x = dt)"
  by (simp add: get_start_date_def)

section \<open>Start dates of the children\<close>

text \<open>
  Claim C1. When the Epic has an original start date, the payload of the i-th created
  child belongs to the i-th child of the ordering; a child without an original start date
  gets no start date, and a child with one gets the operator's new start date plus the
  whole days from the Epic's original start to its own, which is the child's own original
  start date plus the delta when the Epic's start is a calendar date. When the Epic has no
  original start date, the preview of the plan takes a delta of zero days, as the claim
  says, but the handler stops with a \<^verbatim>\<open>TypeError\<close> at
  \<^verbatim>\<open>new_start_date + epic_duration\<close>, right after it fetched the Epic: it creates
  nothing, and no child gets a start date. The same happens when the Epic has a start date
  and no due date.
\<close>

theorem epic_without_start_date_stops_the_run:
  assumes run: "migrate R P S = (st, res)"
    and epic: "jira_issue R [] (selected_epic S) = Inr epic"
  shows "(truthy (customfield_10015 epic) = None \<longrightarrow>
            st = start_locals [FetchIssue (selected_epic S)] [] \<and> res = Inl TypeError
          \<and> created_payloads (trace st) = [])
       \<and> preview_delta_epic (new_start_date S) None = timedelta_days 0
       \<and> (\<forall>es esd. truthy (customfield_10015 epic) = Some es
              \<and> fromisoformat_Z P es = Inr esd \<and> truthy (duedate epic) = None \<longrightarrow>
            st = start_locals [FetchIssue (selected_epic S)] [] \<and> res = Inl TypeError)
       \<and> (\<forall>es epl cpls i. truthy (customfield_10015 epic) = Some es
              \<and> created_payloads (trace st) = epl # cpls \<and> i < length cpls \<longrightarrow>
            i < length (child_issues st)
          \<and> p_summary (cpls ! i) = summary (child_issues st ! i)
          \<and> (\<exists>esd. fromisoformat_Z P es = Inr esd
               \<and> (case truthy (customfield_10015 (child_issues st ! i)) of
                    None \<Rightarrow> p_customfield_10015 (cpls ! i) = None
                  | Some cs \<Rightarrow>
                      \<exists>cdt. fromisoformat_Z P cs = Inr cdt
                        \<and> p_customfield_10015 (cpls ! i)
                            = Some (new_start_date S + td_days (dt_sub cdt esd))
                        \<and> (wall esd mod usec_per_day = 0 \<and> utcoffset cdt = utcoffset esd \<longrightarrow>
                             p_customfield_10015 (cpls ! i)
                               = Some (dt_date cdt + (new_start_date S - dt_date esd))))))"
proof (intro conjI impI allI)
  assume "truthy (customfield_10015 epic) = None"
  with epic have "migrate R P S = (start_locals [FetchIssue (selected_epic S)] [], Inl TypeError)"
    by (simp add: migrate_def create_epic_def epic_dates_def new_epic_data_def date_plus_def)
  with run have eq: "st = start_locals [FetchIssue (selected_epic S)] []" "res = Inl TypeError"
    by simp_all
  from eq show "st = start_locals [FetchIssue (selected_epic S)] []" "res = Inl TypeError"
    by simp_all
  show "created_payloads (trace st) = []"
    unfolding eq(1) by (simp add: start_locals_def)
next
  show "preview_delta_epic (new_start_date S) None = timedelta_days 0"
    by (simp add: preview_delta_epic_def)
next
  fix es esd
  assume "truthy (customfield_10015 epic) = Some es
      \<and> fromisoformat_Z P es = Inr esd \<and> truthy (duedate epic) = None"
  with epic have "migrate R P S = (start_locals [FetchIssue (selected_epic S)] [], Inl TypeError)"
    by (simp add: migrate_def create_epic_def epic_dates_def new_epic_data_def date_plus_def)
  with run show "st = start_locals [FetchIssue (selected_epic S)] []" "res = Inl TypeError"
    by simp_all
next
  fix es epl cpls i
  assume h: "truthy (customfield_10015 epic) = Some es
      \<and> created_payloads (trace st) = epl # cpls \<and> i < length cpls"
  then have es: "truthy (customfield_10015 epic) = Some es"
    and pls: "created_payloads (trace st) = epl # cpls" and i: "i < length cpls"
    by simp_all
  note child = child_start_with_epic_start [OF run pls i epic es]
  from child show "i < length (child_issues st)" by (rule conjunct1)
  from child show "p_summary (cpls ! i) = summary (child_issues st ! i)"
    by (rule conjunct2 [THEN conjunct1])
  from child show "\<exists>esd. fromisoformat_Z P es = Inr esd
               \<and> (case truthy (customfield_10015 (child_issues st ! i)) of
                    None \<Rightarrow> p_customfield_10015 (cpls ! i) = None
                  | Some cs \<Rightarrow>
                      \<exists>cdt. fromisoformat_Z P cs = Inr cdt
                        \<and> p_customfield_10015 (cpls ! i)
                            = Some (new_start_date S + td_days (dt_sub cdt esd))
                        \<and> (wall esd mod usec_per_day = 0 \<and> utcoffset cdt = utcoffset esd \<longrightarrow>
                             p_customfield_10015 (cpls ! i)
                               = Some (dt_date cdt + (new_start_date S - dt_date esd))))"
    by (rule conjunct2 [THEN conjunct2])
qed

theorem epic_without_start_date_stops_the_run_witness:
  "jira_issue repo0 [] (selected_epic sel1) = Inr epic0
   \<and> truthy (customfield_10015 epic0) = None
   \<and> requests_get repo0 [] (selected_epic sel1) = Inr resp1
   \<and> truthy (customfield_10015 child_a) = Some ''2024-03-01''
   \<and> fst (migrate repo0 fromisoformat_date sel1) = start_locals [FetchIssue ''PPT-1''] []
   \<and> snd (migrate repo0 fromisoformat_date sel1) = Inl TypeError
   \<and> created_payloads (trace (fst (migrate repo0 fromisoformat_date sel1))) = []
   \<and> preview_delta_epic (new_start_date sel1) None = timedelta_days 0
   \<and> jira_issue repo2 [] (selected_epic sel1) = Inr epic2
   \<and> truthy (customfield_10015 epic2) = Some ''2024-01-10''
   \<and> truthy (duedate epic2) = None
   \<and> fst (migrate repo2 fromisoformat_date sel1) = start_locals [FetchIssue ''PPT-1''] []
   \<and> snd (migrate repo2 fromisoformat_date sel1) = Inl TypeError
   \<and> jira_issue repo1 [] (selected_epic sel1) = Inr epic1
   \<and> truthy (customfield_10015 epic1) = Some ''2024-01-10''
   \<and> created_payloads (trace (fst (migrate repo1 fromisoformat_date sel1)))
       = new_epic1 # [new_c, new_a, new_b]
   \<and> child_issues (fst (migrate repo1 fromisoformat_date sel1)) ! 1 = child_a
   \<and> p_customfield_10015 ([new_c, new_a, new_b] ! 1)
       = Some (dt_date (Naive (738946 * usec_per_day))
               + (new_start_date sel1 - dt_date (Naive (738895 * usec_per_day))))
   \<and> p_customfield_10015 ([new_c, new_a, new_b] ! 1) = Some 738968"
proof -
  have e0: "jira_issue repo0 [] (selected_epic sel1) = Inr epic0"
    by (simp add: repo0_def repo_of_def)
  have t0: "truthy (customfield_10015 epic0) = None"
    by (simp add: epic0_def truthy_def)
  have r0: "requests_get repo0 [] (selected_epic sel1) = Inr resp1"
    by (simp add: repo0_def repo_of_def)
  have pair0: "migrate repo0 fromisoformat_date sel1
     = (fst (migrate repo0 fromisoformat_date sel1), snd (migrate repo0 fromisoformat_date sel1))"
    by simp
  note bug = epic_without_start_date_stops_the_run [OF pair0 e0, THEN conjunct1, THEN mp, OF t0]
  have k: "selected_epic sel1 = ''PPT-1''" by (simp add: sel1_def)
  have b1: "fst (migrate repo0 fromisoformat_date sel1) = start_locals [FetchIssue ''PPT-1''] []"
    using bug [THEN conjunct1] by (simp only: k)
  have b2: "snd (migrate repo0 fromisoformat_date sel1) = Inl TypeError"
    using bug by (rule conjunct2 [THEN conjunct1])
  have b3: "created_payloads (trace (fst (migrate repo0 fromisoformat_date sel1))) = []"
    using bug by (rule conjunct2 [THEN conjunct2])
  have pv: "preview_delta_epic (new_start_date sel1) None = timedelta_days 0"
    by (rule epic_without_start_date_stops_the_run
        [OF pair0 e0, THEN conjunct2, THEN conjunct1])
  have e2: "jira_issue repo2 [] (selected_epic sel1) = Inr epic2"
    by (simp add: repo2_def repo_of_def)
  have t2: "truthy (customfield_10015 epic2) = Some ''2024-01-10''"
    "truthy (duedate epic2) = None"
    by (simp_all add: epic2_def epic1_def truthy_def)
  have pair2: "migrate repo2 fromisoformat_date sel1
     = (fst (migrate repo2 fromisoformat_date sel1), snd (migrate repo2 fromisoformat_date sel1))"
    by simp
  from epic_without_start_date_stops_the_run
    [OF pair2 e2, THEN conjunct2, THEN conjunct2, THEN conjunct1, rule_format,
     of "''2024-01-10''" "Naive (738895 * usec_per_day)"] t2 parsed_dates(1)
  have "fst (migrate repo2 fromisoformat_date sel1)
          = start_locals [FetchIssue (selected_epic sel1)] []
      \<and> snd (migrate repo2 fromisoformat_date sel1) = Inl TypeError"
    by blast
  then have d1: "fst (migrate repo2 fromisoformat_date sel1)
      = start_locals [FetchIssue ''PPT-1''] []"
    and d2: "snd (migrate repo2 fromisoformat_date sel1) = Inl TypeError"
    by (simp_all only: k)
  have i: "(1::nat) < length [new_c, new_a, new_b]" by simp
  have c: "child_issues (fst (migrate repo1 fromisoformat_date sel1)) ! 1 = child_a"
    by (simp add: run1_children)
  have m: "wall (Naive (738895 * usec_per_day)) mod usec_per_day = 0" by simp
  have o: "utcoffset (Naive (738946 * usec_per_day)) = utcoffset (Naive (738895 * usec_per_day))"
    by simp
  from epic_without_start_date_stops_the_run
    [OF run1_pair run1_epic, THEN conjunct2, THEN conjunct2, THEN conjunct2, rule_format,
     of "''2024-01-10''" new_epic1 "[new_c, new_a, new_b]" 1]
    epic1_truthy(1) run1_payloads i
  have "\<exists>esd. fromisoformat_Z fromisoformat_date ''2024-01-10'' = Inr esd
               \<and> (case truthy (customfield_10015
                       (child_issues (fst (migrate repo1 fromisoformat_date sel1)) ! 1)) of
                    None \<Rightarrow> p_customfield_10015 ([new_c, new_a, new_b] ! 1) = None
                  | Some cs \<Rightarrow>
                      \<exists>cdt. fromisoformat_Z fromisoformat_date cs = Inr cdt
                        \<and> p_customfield_10015 ([new_c, new_a, new_b] ! 1)
                            = Some (new_start_date sel1 + td_days (dt_sub cdt esd))
                        \<and> (wall esd mod usec_per_day = 0 \<and> utcoffset cdt = utcoffset esd \<longrightarrow>
                             p_customfield_10015 ([new_c, new_a, new_b] ! 1)
                               = Some (dt_date cdt + (new_start_date sel1 - dt_date esd))))"
    by blast
  then have pos: "p_customfield_10015 ([new_c, new_a, new_b] ! 1)
       = Some (dt_date (Naive (738946 * usec_per_day))
               + (new_start_date sel1 - dt_date (Naive (738895 * usec_per_day))))"
    using m o by (auto simp: c run1_child_nth children_truthy parsed_dates)
  have val: "p_customfield_10015 ([new_c, new_a, new_b] ! 1) = Some 738968"
    by (simp add: new_a_def)
  from e0 t0 r0 children_truthy(1) b1 b2 b3 pv e2 t2 d1 d2 run1_epic epic1_truthy(1)
    run1_payloads c pos val
  show ?thesis by (intro conjI)
qed

section \<open>Due dates\<close>

text \<open>
  Claim C2. Whenever a run issues create calls, the first is the new Epic, whose source
  has both original dates and whose due date is the new start date plus the days from
  its original start to its original due date. The payload of each created child has a
  due date if and only if the child has both an original start and an original due date,
  and then it is the child's new start date plus the days between the two. No payload
  gets a due date from anywhere else, so a placeholder of seven days is never written.
\<close>

theorem due_date_only_from_both_original_dates:
  assumes run: "migrate R P S = (st, res)"
    and pls: "created_payloads (trace st) = epl # cpls"
  shows "(\<exists>epic s d sdt ddt.
            jira_issue R [] (selected_epic S) = Inr epic
          \<and> truthy (customfield_10015 epic) = Some s \<and> truthy (duedate epic) = Some d
          \<and> fromisoformat_Z P s = Inr sdt \<and> fromisoformat_Z P d = Inr ddt
          \<and> p_customfield_10015 epl = Some (new_start_date S)
          \<and> p_duedate epl = Some (new_start_date S + td_days (dt_sub ddt sdt)))
       \<and> (\<forall>i<length cpls.
            i < length (child_issues st)
          \<and> (p_duedate (cpls ! i) \<noteq> None \<longleftrightarrow>
               truthy (customfield_10015 (child_issues st ! i)) \<noteq> None
               \<and> truthy (duedate (child_issues st ! i)) \<noteq> None)
          \<and> (\<forall>s d. truthy (customfield_10015 (child_issues st ! i)) = Some s
                  \<and> truthy (duedate (child_issues st ! i)) = Some d \<longrightarrow>
                (\<exists>sdt ddt ns. fromisoformat_Z P s = Inr sdt \<and> fromisoformat_Z P d = Inr ddt
                   \<and> p_customfield_10015 (cpls ! i) = Some ns
                   \<and> p_duedate (cpls ! i) = Some (ns + td_days (dt_sub ddt sdt)))))"
proof (rule migrate_payloadsE [OF run pls])
  fix epic s d sdt ddt r0
  assume e: "jira_issue R [] (selected_epic S) = Inr epic"
      "truthy (customfield_10015 epic) = Some s" "truthy (duedate epic) = Some d"
      "fromisoformat_Z P s = Inr sdt" "fromisoformat_Z P d = Inr ddt"
      "epl = epic_payload S epic sdt ddt"
      "length cpls \<le> length (child_issues st)"
      "\<And>i. i < length cpls \<Longrightarrow> \<exists>nek. r0 = Inr nek
          \<and> built_for P S (Some sdt) nek (child_issues st ! i) (cpls ! i)"
      "CreateIssue epl r0 \<in> set (trace st)"
  have epic_part: "\<exists>epic s d sdt ddt.
            jira_issue R [] (selected_epic S) = Inr epic
          \<and> truthy (customfield_10015 epic) = Some s \<and> truthy (duedate epic) = Some d
          \<and> fromisoformat_Z P s = Inr sdt \<and> fromisoformat_Z P d = Inr ddt
          \<and> p_customfield_10015 epl = Some (new_start_date S)
          \<and> p_duedate epl = Some (new_start_date S + td_days (dt_sub ddt sdt))"
    using e(1-5) unfolding e(6) by (simp add: epic_payload_def)
  have child_part: "\<forall>i<length cpls.
            i < length (child_issues st)
          \<and> (p_duedate (cpls ! i) \<noteq> None \<longleftrightarrow>
               truthy (customfield_10015 (child_issues st ! i)) \<noteq> None
               \<and> truthy (duedate (child_issues st ! i)) \<noteq> None)
          \<and> (\<forall>s d. truthy (customfield_10015 (child_issues st ! i)) = Some s
                  \<and> truthy (duedate (child_issues st ! i)) = Some d \<longrightarrow>
                (\<exists>sdt ddt ns. fromisoformat_Z P s = Inr sdt \<and> fromisoformat_Z P d = Inr ddt
                   \<and> p_customfield_10015 (cpls ! i) = Some ns
                   \<and> p_duedate (cpls ! i) = Some (ns + td_days (dt_sub ddt sdt))))"
  proof (intro allI impI conjI)
    fix i assume i: "i < length cpls"
    from e(8) [OF i] obtain nek where
      b: "built_for P S (Some sdt) nek (child_issues st ! i) (cpls ! i)" by blast
    show "i < length (child_issues st)" using i e(7) by simp
    show "p_duedate (cpls ! i) \<noteq> None \<longleftrightarrow>
               truthy (customfield_10015 (child_issues st ! i)) \<noteq> None
               \<and> truthy (duedate (child_issues st ! i)) \<noteq> None"
      by (rule built_for_due_iff [OF b])
    fix s d
    assume "truthy (customfield_10015 (child_issues st ! i)) = Some s
                  \<and> truthy (duedate (child_issues st ! i)) = Some d"
    then show "\<exists>sdt ddt ns. fromisoformat_Z P s = Inr sdt \<and> fromisoformat_Z P d = Inr ddt
                   \<and> p_customfield_10015 (cpls ! i) = Some ns
                   \<and> p_duedate (cpls ! i) = Some (ns + td_days (dt_sub ddt sdt))"
      using built_for_due_value [OF b] by blast
  qed
  from epic_part child_part show ?thesis by (rule conjI)
qed

theorem due_date_only_from_both_original_dates_witness:
  "migrate repo1 fromisoformat_date sel1
     = (fst (migrate repo1 fromisoformat_date sel1), snd (migrate repo1 fromisoformat_date sel1))
   \<and> created_payloads (trace (fst (migrate repo1 fromisoformat_date sel1)))
       = new_epic1 # [new_c, new_a, new_b]
   \<and> p_duedate new_epic1
       = Some (new_start_date sel1
               + td_days (dt_sub (Naive (738905 * usec_per_day)) (Naive (738895 * usec_per_day))))
   \<and> truthy (duedate child_c) = None \<and> p_duedate new_c = None
   \<and> truthy (customfield_10015 child_b) = None \<and> p_duedate new_b = None
   \<and> p_customfield_10015 new_a = Some 738968
   \<and> p_duedate new_a
       = Some (738968 + td_days (dt_sub (Naive (738949 * usec_per_day)) (Naive (738946 * usec_per_day))))"
proof -
  note inst = due_date_only_from_both_original_dates [OF run1_pair run1_payloads]
  from inst have epic_due: "p_duedate new_epic1
       = Some (new_start_date sel1
               + td_days (dt_sub (Naive (738905 * usec_per_day)) (Naive (738895 * usec_per_day))))"
    by (auto simp: run1_epic epic1_truthy parsed_dates)
  note child = inst [THEN conjunct2, rule_format]
  have c_due: "p_duedate new_c = None"
    using child [of 0] by (simp add: run1_child_nth children_truthy)
  have b_due: "p_duedate new_b = None"
    using child [of 2] by (simp add: run1_child_nth children_truthy)
  have "\<forall>s d. truthy (customfield_10015 child_a) = Some s
                  \<and> truthy (duedate child_a) = Some d \<longrightarrow>
                (\<exists>sdt ddt ns. fromisoformat_Z fromisoformat_date s = Inr sdt
                   \<and> fromisoformat_Z fromisoformat_date d = Inr ddt
                   \<and> p_customfield_10015 new_a = Some ns
                   \<and> p_duedate new_a = Some (ns + td_days (dt_sub ddt sdt)))"
    using child [of "Suc 0"] by (simp add: run1_child_nth)
  from this [rule_format, of "''2024-03-01''" "''2024-03-04''"]
  have a_due: "p_duedate new_a
       = Some (738968 + td_days (dt_sub (Naive (738949 * usec_per_day)) (Naive (738946 * usec_per_day))))"
    by (auto simp: children_truthy parsed_dates new_a_def)
  have a_start: "p_customfield_10015 new_a = Some 738968" by (simp add: new_a_def)
  from epic_due c_due b_due a_due a_start run1_pair run1_payloads children_truthy
  show ?thesis by simp
qed

section \<open>Durations\<close>

text \<open>
  Claim C3. For the created Epic, new due date minus new start date is the day count of
  original due minus original start; for a created child whose payload has both dates
  the same equation holds with the child's own original dates. When the original start
  has no time of day and the UTC offset of the original due date, as two calendar dates
  have, the day count is the difference of the two calendar dates.
\<close>

theorem duration_is_preserved:
  assumes run: "migrate R P S = (st, res)"
    and pls: "created_payloads (trace st) = epl # cpls"
  shows "(\<exists>epic s d sdt ddt a b.
            jira_issue R [] (selected_epic S) = Inr epic
          \<and> truthy (customfield_10015 epic) = Some s \<and> truthy (duedate epic) = Some d
          \<and> fromisoformat_Z P s = Inr sdt \<and> fromisoformat_Z P d = Inr ddt
          \<and> p_customfield_10015 epl = Some a \<and> p_duedate epl = Some b
          \<and> b - a = td_days (dt_sub ddt sdt)
          \<and> (wall sdt mod usec_per_day = 0 \<and> utcoffset ddt = utcoffset sdt \<longrightarrow>
                 b - a = dt_date ddt - dt_date sdt))
       \<and> (\<forall>i a b. i < length cpls \<and> p_customfield_10015 (cpls ! i) = Some a
               \<and> p_duedate (cpls ! i) = Some b \<longrightarrow>
            (\<exists>s d sdt ddt.
               truthy (customfield_10015 (child_issues st ! i)) = Some s
             \<and> truthy (duedate (child_issues st ! i)) = Some d
             \<and> fromisoformat_Z P s = Inr sdt \<and> fromisoformat_Z P d = Inr ddt
             \<and> b - a = td_days (dt_sub ddt sdt)
             \<and> (wall sdt mod usec_per_day = 0 \<and> utcoffset ddt = utcoffset sdt \<longrightarrow>
                    b - a = dt_date ddt - dt_date sdt)))"
proof (rule migrate_payloadsE [OF run pls])
  fix epic s d sdt ddt r0
  assume e: "jira_issue R [] (selected_epic S) = Inr epic"
      "truthy (customfield_10015 epic) = Some s" "truthy (duedate epic) = Some d"
      "fromisoformat_Z P s = Inr sdt" "fromisoformat_Z P d = Inr ddt"
      "epl = epic_payload S epic sdt ddt"
      "length cpls \<le> length (child_issues st)"
      "\<And>i. i < length cpls \<Longrightarrow> \<exists>nek. r0 = Inr nek
          \<and> built_for P S (Some sdt) nek (child_issues st ! i) (cpls ! i)"
      "CreateIssue epl r0 \<in> set (trace st)"
  have epic_part: "\<exists>epic s d sdt ddt a b.
            jira_issue R [] (selected_epic S) = Inr epic
          \<and> truthy (customfield_10015 epic) = Some s \<and> truthy (duedate epic) = Some d
          \<and> fromisoformat_Z P s = Inr sdt \<and> fromisoformat_Z P d = Inr ddt
          \<and> p_customfield_10015 epl = Some a \<and> p_duedate epl = Some b
          \<and> b - a = td_days (dt_sub ddt sdt)
          \<and> (wall sdt mod usec_per_day = 0 \<and> utcoffset ddt = utcoffset sdt \<longrightarrow>
                 b - a = dt_date ddt - dt_date sdt)"
  proof -
    have "wall sdt mod usec_per_day = 0 \<and> utcoffset ddt = utcoffset sdt \<longrightarrow>
            td_days (dt_sub ddt sdt) = dt_date ddt - dt_date sdt"
      by (simp add: days_of_difference)
    with e(1-5) show ?thesis
      unfolding e(6)
      by (intro exI [of _ epic] exI [of _ s] exI [of _ d] exI [of _ sdt] exI [of _ ddt]
            exI [of _ "new_start_date S"]
            exI [of _ "new_start_date S + td_days (dt_sub ddt sdt)"])
         (simp add: epic_payload_def)
  qed
  have child_part: "\<forall>i a b. i < length cpls \<and> p_customfield_10015 (cpls ! i) = Some a
               \<and> p_duedate (cpls ! i) = Some b \<longrightarrow>
            (\<exists>s d sdt ddt.
               truthy (customfield_10015 (child_issues st ! i)) = Some s
             \<and> truthy (duedate (child_issues st ! i)) = Some d
             \<and> fromisoformat_Z P s = Inr sdt \<and> fromisoformat_Z P d = Inr ddt
             \<and> b - a = td_days (dt_sub ddt sdt)
             \<and> (wall sdt mod usec_per_day = 0 \<and> utcoffset ddt = utcoffset sdt \<longrightarrow>
                    b - a = dt_date ddt - dt_date sdt))"
  proof (intro allI impI)
    fix i a b
    assume h: "i < length cpls \<and> p_customfield_10015 (cpls ! i) = Some a
               \<and> p_duedate (cpls ! i) = Some b"
    then have "i < length cpls" by simp
    from e(8) [OF this] obtain nek where
      bf: "built_for P S (Some sdt) nek (child_issues st ! i) (cpls ! i)" by blast
    from built_for_both_dates [OF bf] h obtain s' d' sdt' ddt' where
      c: "truthy (customfield_10015 (child_issues st ! i)) = Some s'"
        "truthy (duedate (child_issues st ! i)) = Some d'"
        "fromisoformat_Z P s' = Inr sdt'" "fromisoformat_Z P d' = Inr ddt'"
        "b - a = td_days (dt_sub ddt' sdt')"
      by blast
    have "wall sdt' mod usec_per_day = 0 \<and> utcoffset ddt' = utcoffset sdt' \<longrightarrow> b - a = dt_date ddt' - dt_date sdt'"
      using c(5) by (simp add: days_of_difference)
    with c show "\<exists>s d sdt ddt.
               truthy (customfield_10015 (child_issues st ! i)) = Some s
             \<and> truthy (duedate (child_issues st ! i)) = Some d
             \<and> fromisoformat_Z P s = Inr sdt \<and> fromisoformat_Z P d = Inr ddt
             \<and> b - a = td_days (dt_sub ddt sdt)
             \<and> (wall sdt mod usec_per_day = 0 \<and> utcoffset ddt = utcoffset sdt \<longrightarrow>
                    b - a = dt_date ddt - dt_date sdt)"
      by blast
  qed
  from epic_part child_part show ?thesis by (rule conjI)
qed

theorem duration_is_preserved_witness:
  "migrate repo1 fromisoformat_date sel1
     = (fst (migrate repo1 fromisoformat_date sel1), snd (migrate repo1 fromisoformat_date sel1))
   \<and> created_payloads (trace (fst (migrate repo1 fromisoformat_date sel1)))
       = new_epic1 # [new_c, new_a, new_b]
   \<and> p_customfield_10015 new_epic1 = Some 738917 \<and> p_duedate new_epic1 = Some 738927
   \<and> 738927 - 738917 = dt_date (Naive (738905 * usec_per_day)) - dt_date (Naive (738895 * usec_per_day))
   \<and> p_customfield_10015 new_a = Some 738968 \<and> p_duedate new_a = Some 738971
   \<and> 738971 - 738968 = dt_date (Naive (738949 * usec_per_day)) - dt_date (Naive (738946 * usec_per_day))"
proof -
  note inst = duration_is_preserved [OF run1_pair run1_payloads]
  have pe: "p_customfield_10015 new_epic1 = Some 738917" "p_duedate new_epic1 = Some 738927"
    by (simp_all add: new_epic1_def)
  have pa: "p_customfield_10015 new_a = Some 738968" "p_duedate new_a = Some 738971"
    by (simp_all add: new_a_def)
  from inst have "738927 - 738917
      = dt_date (Naive (738905 * usec_per_day)) - dt_date (Naive (738895 * usec_per_day))"
    by (auto simp: run1_epic epic1_truthy parsed_dates pe)
  moreover
  have "\<exists>s d sdt ddt.
               truthy (customfield_10015 child_a) = Some s
             \<and> truthy (duedate child_a) = Some d
             \<and> fromisoformat_Z fromisoformat_date s = Inr sdt
             \<and> fromisoformat_Z fromisoformat_date d = Inr ddt
             \<and> 738971 - 738968 = td_days (dt_sub ddt sdt)
             \<and> (wall sdt mod usec_per_day = 0 \<and> utcoffset ddt = utcoffset sdt \<longrightarrow>
                    738971 - 738968 = dt_date ddt - dt_date sdt)"
    using inst [THEN conjunct2, rule_format, of "Suc 0" 738968 738971]
    by (simp add: run1_child_nth pa)
  then have "738971 - 738968
      = dt_date (Naive (738949 * usec_per_day)) - dt_date (Naive (738946 * usec_per_day))"
    by (auto simp: children_truthy parsed_dates)
  ultimately show ?thesis
    using pe pa run1_pair run1_payloads by simp
qed

section \<open>Links keep their type and their direction\<close>

text \<open>
  Claim C4. Every create-link call of a run comes from a link of a migrated child whose
  far end is migrated too: it has the type name of that link, and the new key of the end
  that was the inward issue is passed as inward issue, the new key of the end that was
  the outward issue as outward issue. In a run that succeeds on children with distinct
  keys, each such link is recreated: a link listed at child A with the outward issue B
  gives the successful call with inward issue A' and outward issue B' (an outward link
  from A' to B', not flipped), and a link listed with the inward issue B gives the call
  with inward issue B' and outward issue A'.
\<close>

theorem links_keep_type_and_direction:
  assumes run: "migrate R P S = (st, res)"
  shows "(\<forall>t i ou r. CreateIssueLink t i ou r \<in> set (trace st) \<longrightarrow>
           (\<exists>ch\<in>set (child_issues st). \<exists>link\<in>set (issuelinks ch). \<exists>b a' b'.
               t = type_name link
             \<and> get_key (old_to_new_keys st) (key ch) = Some a'
             \<and> get_key (old_to_new_keys st) b = Some b'
             \<and> (outwardIssue link = Some b \<and> i = a' \<and> ou = b'
                \<or> outwardIssue link = None \<and> inwardIssue link = Some b
                   \<and> i = b' \<and> ou = a')))
       \<and> (res = Inr () \<and> distinct (map key (child_issues st)) \<longrightarrow>
           (\<forall>ch\<in>set (child_issues st). \<forall>link\<in>set (issuelinks ch). \<forall>b a' b'.
               get_key (old_to_new_keys st) (key ch) = Some a'
             \<and> get_key (old_to_new_keys st) b = Some b' \<longrightarrow>
               (outwardIssue link = Some b \<longrightarrow>
                  CreateIssueLink (type_name link) a' b' (Inr ()) \<in> set (trace st))
             \<and> (outwardIssue link = None \<and> inwardIssue link = Some b \<longrightarrow>
                  CreateIssueLink (type_name link) b' a' (Inr ()) \<in> set (trace st))))"
proof (intro conjI allI impI ballI)
  fix t i ou r
  assume "CreateIssueLink t i ou r \<in> set (trace st)"
  then have "(t, i, ou) \<in> set (link_calls (trace st))"
    by (rule link_event_in_calls)
  with migrate_links [OF run]
  have "(t, i, ou) \<in> set (link_plan (old_to_new_keys st) (child_links_map st))"
    by blast
  from planned_call_origin [OF run this]
  show "\<exists>ch\<in>set (child_issues st). \<exists>link\<in>set (issuelinks ch). \<exists>b a' b'.
               t = type_name link
             \<and> get_key (old_to_new_keys st) (key ch) = Some a'
             \<and> get_key (old_to_new_keys st) b = Some b'
             \<and> (outwardIssue link = Some b \<and> i = a' \<and> ou = b'
                \<or> outwardIssue link = None \<and> inwardIssue link = Some b
                   \<and> i = b' \<and> ou = a')" .
next
  fix ch link b a' b'
  assume ok: "res = Inr () \<and> distinct (map key (child_issues st))"
    and ch: "ch \<in> set (child_issues st)" and l: "link \<in> set (issuelinks ch)"
    and keys: "get_key (old_to_new_keys st) (key ch) = Some a'
             \<and> get_key (old_to_new_keys st) b = Some b'"
    and o: "outwardIssue link = Some b"
  from ok run have run': "migrate R P S = (st, Inr ())" by simp
  from planned_call_of_link(1) [OF run' _ ch l _ _ o] ok keys
  have "(type_name link, a', b') \<in> set (link_plan (old_to_new_keys st) (child_links_map st))"
    by blast
  with migrate_links [OF run'] have "ok_link (type_name link, a', b') \<in> set (trace st)"
    by blast
  then show "CreateIssueLink (type_name link) a' b' (Inr ()) \<in> set (trace st)"
    by (simp add: ok_link_simp)
next
  fix ch link b a' b'
  assume ok: "res = Inr () \<and> distinct (map key (child_issues st))"
    and ch: "ch \<in> set (child_issues st)" and l: "link \<in> set (issuelinks ch)"
    and keys: "get_key (old_to_new_keys st) (key ch) = Some a'
             \<and> get_key (old_to_new_keys st) b = Some b'"
    and o: "outwardIssue link = None \<and> inwardIssue link = Some b"
  from ok run have run': "migrate R P S = (st, Inr ())" by simp
  from planned_call_of_link(2) [OF run' _ ch l] ok keys o
  have "(type_name link, b', a') \<in> set (link_plan (old_to_new_keys st) (child_links_map st))"
    by blast
  with migrate_links [OF run'] have "ok_link (type_name link, b', a') \<in> set (trace st)"
    by blast
  then show "CreateIssueLink (type_name link) b' a' (Inr ()) \<in> set (trace st)"
    by (simp add: ok_link_simp)
qed

theorem links_keep_type_and_direction_witness:
  "snd (migrate repo1 fromisoformat_date sel1) = Inr ()
   \<and> distinct (map key (child_issues (fst (migrate repo1 fromisoformat_date sel1))))
   \<and> child_a \<in> set (child_issues (fst (migrate repo1 fromisoformat_date sel1)))
   \<and> blocks_out \<in> set (issuelinks child_a)
   \<and> outwardIssue blocks_out = Some ''PPT-4'' \<and> type_name blocks_out = ''Blocks''
   \<and> get_key (old_to_new_keys (fst (migrate repo1 fromisoformat_date sel1))) (key child_a)
       = Some ''DST-3''
   \<and> get_key (old_to_new_keys (fst (migrate repo1 fromisoformat_date sel1))) ''PPT-4''
       = Some ''DST-2''
   \<and> CreateIssueLink ''Blocks'' ''DST-3'' ''DST-2'' (Inr ())
       \<in> set (trace (fst (migrate repo1 fromisoformat_date sel1)))"
proof -
  let ?st = "fst (migrate repo1 fromisoformat_date sel1)"
  have ch: "child_a \<in> set (child_issues ?st)" by (simp add: run1_children)
  have o: "outwardIssue blocks_out = Some ''PPT-4''" "type_name blocks_out = ''Blocks''"
    by (simp_all add: blocks_out_def)
  have ka: "get_key (old_to_new_keys ?st) (key child_a) = Some ''DST-3''"
    by (simp add: child_links run1_new_keys)
  note inst = links_keep_type_and_direction [OF run1_ok, THEN conjunct2, rule_format,
      of child_a blocks_out "''DST-3''" "''PPT-4''" "''DST-2''"]
  have "CreateIssueLink (type_name blocks_out) ''DST-3'' ''DST-2'' (Inr ()) \<in> set (trace ?st)"
    using inst run1_distinct ch child_links(1) ka run1_new_keys(2) o(1) by blast
  with run1_result run1_distinct ch child_links(1) o ka run1_new_keys(2) show ?thesis
    by simp
qed

section \<open>Links are recreated only between migrated issues\<close>

text \<open>
  Claim C5. Every create-link call of a run joins the new keys of two source issues that
  both have an entry in the KeyMap: a migrated child and the far end of one of its stored
  links. A stored link whose far end has no entry is skipped silently: the link pass on a
  snapshot does what it does on the snapshot without those links (same calls, same
  outcome), and when the repository accepts every link call the pass ends without an
  error, whatever the links point to.
\<close>

theorem links_only_between_migrated_issues:
  assumes run: "migrate R P S = (st, res)"
  shows "(\<forall>t i ou r. CreateIssueLink t i ou r \<in> set (trace st) \<longrightarrow>
           (\<exists>ch\<in>set (child_issues st). \<exists>sl\<in>set (original_links (issuelinks ch)). \<exists>a' b'.
               map_of (old_to_new_keys st) (key ch) = Some a'
             \<and> map_of (old_to_new_keys st) (l_key sl) = Some b'
             \<and> (i = a' \<and> ou = b' \<or> i = b' \<and> ou = a')))
       \<and> recreate_links R keys (map (\<lambda>(k, ls). (k, inside keys ls)) cmap) tr
           = recreate_links R keys cmap tr
       \<and> ((\<forall>h t i ou. jira_create_issue_link R h t i ou = Inr ()) \<longrightarrow>
            snd (recreate_links R keys cmap tr) = None)"
proof (intro conjI allI impI)
  fix t i ou r
  assume "CreateIssueLink t i ou r \<in> set (trace st)"
  then have "(t, i, ou) \<in> set (link_calls (trace st))"
    by (rule link_event_in_calls)
  with migrate_links [OF run]
  have "(t, i, ou) \<in> set (link_plan (old_to_new_keys st) (child_links_map st))"
    by blast
  then obtain k links nk sl where
    e: "(k, links) \<in> set (child_links_map st)" "get_key (old_to_new_keys st) k = Some nk"
      "sl \<in> set links" "link_call (old_to_new_keys st) nk sl = Some (t, i, ou)"
    by (auto simp: link_plan_iff)
  from migrate_links [OF run] e(1) obtain ch where
    ch: "ch \<in> set (child_issues st)" "k = key ch" "links = original_links (issuelinks ch)"
    by blast
  from link_call_SomeD [OF e(4)] obtain lk where
    lk: "get_key (old_to_new_keys st) (l_key sl) = Some lk"
      "l_direction sl = outward \<and> i = nk \<and> ou = lk
       \<or> l_direction sl = inward \<and> i = lk \<and> ou = nk"
    by blast
  have "map_of (old_to_new_keys st) (key ch) = Some nk
      \<and> map_of (old_to_new_keys st) (l_key sl) = Some lk
      \<and> (i = nk \<and> ou = lk \<or> i = lk \<and> ou = nk)"
    using e(2) ch(2) lk by (auto dest: get_key_SomeD)
  with ch(1,3) e(3)
  show "\<exists>ch\<in>set (child_issues st). \<exists>sl\<in>set (original_links (issuelinks ch)). \<exists>a' b'.
               map_of (old_to_new_keys st) (key ch) = Some a'
             \<and> map_of (old_to_new_keys st) (l_key sl) = Some b'
             \<and> (i = a' \<and> ou = b' \<or> i = b' \<and> ou = a')"
    by blast
next
  show "recreate_links R keys (map (\<lambda>(k, ls). (k, inside keys ls)) cmap) tr
           = recreate_links R keys cmap tr"
    by (rule recreate_links_inside)
next
  assume "\<forall>h t i ou. jira_create_issue_link R h t i ou = Inr ()"
  then show "snd (recreate_links R keys cmap tr) = None"
    by (rule recreate_links_no_error)
qed

theorem links_only_between_migrated_issues_witness:
  "CreateIssueLink ''Blocks'' ''DST-3'' ''DST-2'' (Inr ())
       \<in> set (trace (fst (migrate repo1 fromisoformat_date sel1)))
   \<and> (\<exists>ch\<in>set (child_issues (fst (migrate repo1 fromisoformat_date sel1))).
        \<exists>sl\<in>set (original_links (issuelinks ch)). \<exists>a' b'.
           map_of (old_to_new_keys (fst (migrate repo1 fromisoformat_date sel1))) (key ch) = Some a'
         \<and> map_of (old_to_new_keys (fst (migrate repo1 fromisoformat_date sel1))) (l_key sl)
             = Some b'
         \<and> (''DST-3'' = a' \<and> ''DST-2'' = b' \<or> ''DST-3'' = b' \<and> ''DST-2'' = a'))
   \<and> \<lparr>type_name = ''Blocks'', outwardIssue = Some ''EXT-9'', inwardIssue = None\<rparr>
       \<in> set (issuelinks child_a)
   \<and> map_of (old_to_new_keys (fst (migrate repo1 fromisoformat_date sel1))) ''EXT-9'' = None
   \<and> link_calls (trace (fst (migrate repo1 fromisoformat_date sel1)))
       = [(''Blocks'', ''DST-3'', ''DST-2''), (''Blocks'', ''DST-3'', ''DST-2'')]
   \<and> snd (migrate repo1 fromisoformat_date sel1) = Inr ()
   \<and> snd (recreate_links repo1 (old_to_new_keys (fst (migrate repo1 fromisoformat_date sel1)))
            (child_links_map (fst (migrate repo1 fromisoformat_date sel1))) trace_epic1) = None"
proof -
  let ?st = "fst (migrate repo1 fromisoformat_date sel1)"
  note inst = links_only_between_migrated_issues [OF run1_ok,
      of "old_to_new_keys ?st" "child_links_map ?st" trace_epic1]
  have ev: "CreateIssueLink ''Blocks'' ''DST-3'' ''DST-2'' (Inr ()) \<in> set (trace ?st)"
    by code_simp
  from inst [THEN conjunct1, rule_format, OF ev]
  have origin: "\<exists>ch\<in>set (child_issues ?st).
        \<exists>sl\<in>set (original_links (issuelinks ch)). \<exists>a' b'.
           map_of (old_to_new_keys ?st) (key ch) = Some a'
         \<and> map_of (old_to_new_keys ?st) (l_key sl) = Some b'
         \<and> (''DST-3'' = a' \<and> ''DST-2'' = b' \<or> ''DST-3'' = b' \<and> ''DST-2'' = a')" .
  have accepts: "\<forall>h t i ou. jira_create_issue_link repo1 h t i ou = Inr ()"
    by (simp add: repo1_def repo_of_def)
  from inst [THEN conjunct2, THEN conjunct2, THEN mp, OF accepts]
  have silent: "snd (recreate_links repo1 (old_to_new_keys ?st) (child_links_map ?st)
      trace_epic1) = None" .
  have ext: "\<lparr>type_name = ''Blocks'', outwardIssue = Some ''EXT-9'', inwardIssue = None\<rparr>
       \<in> set (issuelinks child_a)"
    by (simp add: child_a_def)
  from ev origin ext run1_new_keys(3) run1_link_calls run1_result silent show ?thesis
    by blast
qed

section \<open>Child ordering: a stable sort that fails on keys of two kinds\<close>

text \<open>
  Claim C6. The key of a child is the parsed value of its start date, and
  \<^verbatim>\<open>datetime.max\<close>, a naive datetime, when the start date is missing or the parser
  rejects it. When the keys are all naive or all aware, \<open>ordre_child_issues\<close> returns the
  children sorted ascending by their keys: a permutation of the input in which the issues
  of equal key keep their fetch order, and in which the children with the key
  \<^verbatim>\<open>datetime.max\<close> stand after every child of an earlier key. When a naive and an aware
  key occur together, and so when a start date with a UTC offset meets a missing or
  malformed one, the sort raises a \<^verbatim>\<open>TypeError\<close> and orders nothing.
\<close>

theorem ordre_child_issues_sorts_one_kind_of_keys:
  "(one_kind (map (get_start_date P) issues) \<longrightarrow>
      (\<exists>r. ordre_child_issues P issues = Inr r
         \<and> sorted (map (\<lambda>i. instant (get_start_date P i)) r)
         \<and> mset r = mset issues
         \<and> (\<forall>d. filter (\<lambda>i. instant (get_start_date P i) = d) r
                 = filter (\<lambda>i. instant (get_start_date P i) = d) issues)
         \<and> (\<forall>i j. i < length r \<and> j < length r
               \<and> instant (get_start_date P (r ! i)) < instant datetime_max
               \<and> get_start_date P (r ! j) = datetime_max \<longrightarrow> i < j)))
   \<and> (\<not> one_kind (map (get_start_date P) issues) \<longrightarrow>
        ordre_child_issues P issues = Inl TypeError)
   \<and> (\<not> one_kind (map (get_start_date P) issues) \<longleftrightarrow>
        (\<exists>a\<in>set issues. \<exists>b\<in>set issues.
           aware (get_start_date P a) \<and> \<not> aware (get_start_date P b)))
   \<and> (truthy (customfield_10015 x) = None \<longrightarrow> get_start_date P x = datetime_max)
   \<and> (\<forall>s. truthy (customfield_10015 x) = Some s \<and> P s = None
          \<longrightarrow> get_start_date P x = datetime_max)
   \<and> (\<forall>s dt. truthy (customfield_10015 x) = Some s \<and> P s = Some dt
          \<longrightarrow> get_start_date P x = dt)
   \<and> \<not> aware datetime_max"
proof -
  let ?k = "get_start_date P"
  let ?f = "\<lambda>i. instant (get_start_date P i)"
  let ?r = "sort_key ?f issues"
  have res: "ordre_child_issues P issues
      = (if one_kind (map ?k issues) then Inr ?r else Inl TypeError)"
    unfolding ordre_child_issues_def by (rule sorted_key_result)
  have srt: "sorted (map ?f ?r)" by simp
  have len: "length ?r = length issues" by simp
  have perm: "mset ?r = mset issues" by simp
  have stable: "\<forall>d. filter (\<lambda>i. ?f i = d) ?r = filter (\<lambda>i. ?f i = d) issues"
    by (simp add: sort_key_stable)
  have last: "i < j" if "i < length ?r" "j < length ?r"
      "?f (?r ! i) < instant datetime_max" "?k (?r ! j) = datetime_max" for i j
  proof (rule ccontr)
    assume "\<not> i < j"
    then have "j \<le> i" by simp
    with srt that(1) have "map ?f ?r ! j \<le> map ?f ?r ! i"
      by (simp add: sorted_iff_nth_mono del: nth_map)
    with that show False by simp
  qed
  have good: "one_kind (map ?k issues) \<longrightarrow>
      (\<exists>r. ordre_child_issues P issues = Inr r
         \<and> sorted (map ?f r)
         \<and> mset r = mset issues
         \<and> (\<forall>d. filter (\<lambda>i. ?f i = d) r = filter (\<lambda>i. ?f i = d) issues)
         \<and> (\<forall>i j. i < length r \<and> j < length r
               \<and> ?f (r ! i) < instant datetime_max
               \<and> ?k (r ! j) = datetime_max \<longrightarrow> i < j))"
  proof
    assume "one_kind (map ?k issues)"
    with res have "ordre_child_issues P issues = Inr ?r" by simp
    with srt perm stable last show "\<exists>r. ordre_child_issues P issues = Inr r
         \<and> sorted (map ?f r)
         \<and> mset r = mset issues
         \<and> (\<forall>d. filter (\<lambda>i. ?f i = d) r = filter (\<lambda>i. ?f i = d) issues)
         \<and> (\<forall>i j. i < length r \<and> j < length r
               \<and> ?f (r ! i) < instant datetime_max
               \<and> ?k (r ! j) = datetime_max \<longrightarrow> i < j)"
      by (intro exI [of _ ?r]) blast
  qed
  have bad: "\<not> one_kind (map ?k issues) \<longrightarrow> ordre_child_issues P issues = Inl TypeError"
    using res by simp
  have mixed: "\<not> one_kind (map ?k issues) \<longleftrightarrow>
        (\<exists>a\<in>set issues. \<exists>b\<in>set issues. aware (?k a) \<and> \<not> aware (?k b))"
    by (simp add: not_one_kind_iff)
  have mx: "\<not> aware datetime_max" by (simp add: aware_def datetime_max_def)
  from good bad mixed get_start_date_cases [of x P] mx show ?thesis
    by (intro conjI) blast+
qed

theorem ordre_child_issues_sorts_one_kind_of_keys_witness:
  "one_kind (map (get_start_date fromisoformat_date) [child_a, child_d, child_b, child_c])
   \<and> ordre_child_issues fromisoformat_date [child_a, child_d, child_b, child_c]
       = Inr [child_c, child_a, child_d, child_b]
   \<and> sorted (map (\<lambda>i. instant (get_start_date fromisoformat_date i))
        [child_c, child_a, child_d, child_b])
   \<and> filter (\<lambda>i. instant (get_start_date fromisoformat_date i) = instant datetime_max)
        [child_c, child_a, child_d, child_b]
       = filter (\<lambda>i. instant (get_start_date fromisoformat_date i) = instant datetime_max)
           [child_a, child_d, child_b, child_c]
   \<and> truthy (customfield_10015 child_b) = None
   \<and> get_start_date fromisoformat_date child_b = datetime_max
   \<and> truthy (customfield_10015 child_d) = Some ''15/01/2024''
   \<and> fromisoformat_date ''15/01/2024'' = None
   \<and> get_start_date fromisoformat_date child_d = datetime_max
   \<and> truthy (customfield_10015 child_a) = Some ''2024-03-01''
   \<and> fromisoformat_date ''2024-03-01'' = Some (Naive (738946 * usec_per_day))
   \<and> get_start_date fromisoformat_date child_a = Naive (738946 * usec_per_day)
   \<and> truthy (customfield_10015 child_f) = Some ''2024-01-15T00:00:00+00:00''
   \<and> fromisoformat_utc ''2024-01-15T00:00:00+00:00'' = Some (Aware (738900 * usec_per_day) 0)
   \<and> aware (get_start_date fromisoformat_utc child_f)
   \<and> \<not> aware (get_start_date fromisoformat_utc child_b)
   \<and> \<not> one_kind (map (get_start_date fromisoformat_utc) [child_f, child_b])
   \<and> ordre_child_issues fromisoformat_utc [child_f, child_b] = Inl TypeError"
proof -
  let ?l = "[child_a, child_d, child_b, child_c]"
  let ?f = "\<lambda>i. instant (get_start_date fromisoformat_date i)"
  note inst = ordre_child_issues_sorts_one_kind_of_keys [of fromisoformat_date ?l]
  have tb: "truthy (customfield_10015 child_b) = None"
    by (simp add: child_b_def truthy_def)
  have td: "truthy (customfield_10015 child_d) = Some ''15/01/2024''"
    by (simp add: child_d_def truthy_def)
  have ta: "truthy (customfield_10015 child_a) = Some ''2024-03-01''"
    by (simp add: child_a_def truthy_def)
  have tf: "truthy (customfield_10015 child_f) = Some ''2024-01-15T00:00:00+00:00''"
    by (simp add: child_f_def truthy_def)
  have pd: "fromisoformat_date ''15/01/2024'' = None"
    by (simp add: fromisoformat_date_def)
  have pa: "fromisoformat_date ''2024-03-01'' = Some (Naive (738946 * usec_per_day))"
    by code_simp
  have pf: "fromisoformat_utc ''2024-01-15T00:00:00+00:00'' = Some (Aware (738900 * usec_per_day) 0)"
    by code_simp
  have kb: "get_start_date fromisoformat_date child_b = datetime_max"
    using inst [of child_b, THEN conjunct2, THEN conjunct2, THEN conjunct2, THEN conjunct1] tb
    by (rule mp)
  have kd: "get_start_date fromisoformat_date child_d = datetime_max"
    using inst [of child_d, THEN conjunct2, THEN conjunct2, THEN conjunct2, THEN conjunct2,
        THEN conjunct1, rule_format, of "''15/01/2024''"] td pd
    by simp
  have ka: "get_start_date fromisoformat_date child_a = Naive (738946 * usec_per_day)"
    using inst [of child_a, THEN conjunct2, THEN conjunct2, THEN conjunct2, THEN conjunct2,
        THEN conjunct2, THEN conjunct1, rule_format,
        of "''2024-03-01''" "Naive (738946 * usec_per_day)"] ta pa
    by simp
  have ok: "one_kind (map (get_start_date fromisoformat_date) ?l)"
    by code_simp
  have run: "ordre_child_issues fromisoformat_date ?l = Inr [child_c, child_a, child_d, child_b]"
    by code_simp
  from inst [of child_a, THEN conjunct1, THEN mp, OF ok] obtain r where
    r: "ordre_child_issues fromisoformat_date ?l = Inr r" "sorted (map ?f r)"
      "\<forall>d. filter (\<lambda>i. ?f i = d) r = filter (\<lambda>i. ?f i = d) ?l"
    by blast
  from r(1) run have req: "r = [child_c, child_a, child_d, child_b]" by simp
  have srt: "sorted (map ?f [child_c, child_a, child_d, child_b])"
    using r(2) unfolding req .
  have stable: "filter (\<lambda>i. ?f i = instant datetime_max) [child_c, child_a, child_d, child_b]
       = filter (\<lambda>i. ?f i = instant datetime_max) ?l"
    using r(3) [rule_format, of "instant datetime_max"] unfolding req .
  note bad = ordre_child_issues_sorts_one_kind_of_keys
    [of fromisoformat_utc "[child_f, child_b]"]
  have kf: "get_start_date fromisoformat_utc child_f = Aware (738900 * usec_per_day) 0"
    using bad [of child_f, THEN conjunct2, THEN conjunct2, THEN conjunct2, THEN conjunct2,
        THEN conjunct2, THEN conjunct1, rule_format,
        of "''2024-01-15T00:00:00+00:00''" "Aware (738900 * usec_per_day) 0"] tf pf
    by simp
  have kb2: "get_start_date fromisoformat_utc child_b = datetime_max"
    using bad [of child_b, THEN conjunct2, THEN conjunct2, THEN conjunct2, THEN conjunct1] tb
    by (rule mp)
  have af: "aware (get_start_date fromisoformat_utc child_f)"
    unfolding kf by (simp add: aware_def)
  have nb: "\<not> aware (get_start_date fromisoformat_utc child_b)"
    unfolding kb2
    by (rule bad [of child_b, THEN conjunct2, THEN conjunct2, THEN conjunct2, THEN conjunct2,
        THEN conjunct2, THEN conjunct2])
  have "\<exists>a\<in>set [child_f, child_b]. \<exists>b\<in>set [child_f, child_b].
           aware (get_start_date fromisoformat_utc a) \<and> \<not> aware (get_start_date fromisoformat_utc b)"
    using af nb by simp
  with bad [of child_b, THEN conjunct2, THEN conjunct2, THEN conjunct1]
  have mixed: "\<not> one_kind (map (get_start_date fromisoformat_utc) [child_f, child_b])"
    by (rule iffD2)
  have raise: "ordre_child_issues fromisoformat_utc [child_f, child_b] = Inl TypeError"
    using bad [of child_b, THEN conjunct2, THEN conjunct1] mixed by (rule mp)
  from ok run srt stable tb kb td pd kd ta pa ka tf pf af nb mixed raise show ?thesis
    by (intro conjI)
qed

section \<open>An issue type the target project lacks\<close>

text \<open>
  Claim C7. The type of a child is looked up by equality of names, so a name differing in
  case does not match. When the Epic was created, the children before \<open>ch\<close> were created
  and no issue type of the target project has the name of the type of \<open>ch\<close>, the run ends
  with the error \<open>UnsupportedIssueType\<close>, which no other failure produces; its last call is
  the fetch of the project, so the create calls are those of the Epic and of the children
  before \<open>ch\<close>, and no link is created.
\<close>

theorem unsupported_issue_type_aborts:
  assumes epic: "create_epic R P S = (tr1, Inr (esd, nek))"
    and search: "fetch_children R P S tr1 = (tr2, Inr (pre @ ch # post))"
    and pre: "migrate_children R P S esd nek pre (start_locals tr2 (pre @ ch # post)) = (st, None)"
    and dates: "child_dates P esd (new_start_date S) ch = Inr dts"
    and types: "jira_project R (trace st) (selected_key S) = Inr issue_types"
    and nomatch: "\<forall>itype\<in>set issue_types. Some (it_name itype) \<noteq> issuetype_name ch"
  shows "snd (migrate R P S) = Inl (UnsupportedIssueType (issuetype_name ch) (selected_key S))
       \<and> trace (fst (migrate R P S)) = trace st @ [FetchProject (selected_key S)]
       \<and> length (created_payloads (trace (fst (migrate R P S)))) = Suc (length pre)
       \<and> link_calls (trace (fst (migrate R P S))) = []
       \<and> find_type_id issue_types (issuetype_name ch) = None"
proof -
  let ?st0 = "start_locals tr2 (pre @ ch # post)"
  let ?st' = "st\<lparr>child_links_map :=
                  AList.update (key ch) (original_links (issuelinks ch)) (child_links_map st),
               trace := trace st @ [FetchProject (selected_key S)]\<rparr>"
  let ?err = "UnsupportedIssueType (issuetype_name ch) (selected_key S)"
  have one: "migrate_child R P S esd nek ch st = (?st', Some ?err)"
    using dates types nomatch by (rule migrate_child_unsupported)
  have loop: "migrate_children R P S esd nek (pre @ ch # post) ?st0 = (?st', Some ?err)"
    using pre one by (simp add: migrate_children_append)
  have ci: "child_issues ?st0 = pre @ ch # post" by (simp add: start_locals_def)
  have cal: "children_and_links R P S esd nek ?st0 = (?st', Inl ?err)"
    using loop by (simp add: children_and_links_def ci)
  have m: "migrate R P S = (?st', Inl ?err)"
    using epic search cal by (simp add: migrate_def)
  from migrate_children_shape [OF pre] obtain evs where
    evs: "trace st = trace ?st0 @ evs" "link_calls evs = []"
      "length (created_payloads evs) = length pre"
    by auto
  from fetch_children_shape [OF search]
  have tr2: "tr2 = tr1 @ [SearchChildren (selected_epic S)]" by simp
  from create_epic_done [OF epic] obtain pl where
    tr1: "tr1 = [FetchIssue (selected_epic S), CreateIssue pl (Inr nek)]" by blast
  have t0: "trace ?st0 = tr2" by (simp add: start_locals_def)
  have cnt: "length (created_payloads (trace st)) = Suc (length pre)"
    using evs(1,3) t0 tr2 tr1 by (simp add: created_payloads_append)
  have lc: "link_calls (trace st) = []"
    using evs(1,2) t0 tr2 tr1 by (simp add: link_calls_append)
  have f: "find_type_id issue_types (issuetype_name ch) = None"
    using nomatch by (rule find_type_id_no_match)
  from m cnt lc f show ?thesis
    by (simp add: created_payloads_append link_calls_append)
qed

theorem unsupported_issue_type_aborts_witness:
  "create_epic repo7 fromisoformat_date sel1
     = (trace_epic1, Inr (Some (Naive (738895 * usec_per_day)), ''DST-1''))
   \<and> fetch_children repo7 fromisoformat_date sel1 trace_epic1
     = (trace_epic1 @ [SearchChildren ''PPT-1''], Inr ([child_c] @ child_e # [child_a]))
   \<and> migrate_children repo7 fromisoformat_date sel1 (Some (Naive (738895 * usec_per_day))) ''DST-1''
     [child_c]
     (start_locals (trace_epic1 @ [SearchChildren ''PPT-1'']) ([child_c] @ child_e # [child_a]))
     = (st7, None)
   \<and> child_dates fromisoformat_date (Some (Naive (738895 * usec_per_day))) (new_start_date sel1) child_e
     = Inr (Some 738939, None)
   \<and> jira_project repo7 (trace st7) (selected_key sel1)
     = Inr [\<lparr>it_name = ''Epic'', it_id = ''10000''\<rparr>, \<lparr>it_name = ''Task'', it_id = ''10001''\<rparr>]
   \<and> issuetype_name child_e = Some ''Bug''
   \<and> snd (migrate repo7 fromisoformat_date sel1)
       = Inl (UnsupportedIssueType (Some ''Bug'') ''DST'')
   \<and> trace (fst (migrate repo7 fromisoformat_date sel1)) = trace st7 @ [FetchProject ''DST'']
   \<and> length (created_payloads (trace (fst (migrate repo7 fromisoformat_date sel1))))
       = Suc (length [child_c])
   \<and> created_payloads (trace (fst (migrate repo7 fromisoformat_date sel1))) = [new_epic1, new_c]
   \<and> link_calls (trace (fst (migrate repo7 fromisoformat_date sel1))) = []"
proof -
  note inst = unsupported_issue_type_aborts
    [OF run7_epic run7_search run7_pre run7_dates run7_types run7_no_match]
  have ty: "issuetype_name child_e = Some ''Bug''" by (simp add: child_e_def)
  have sk: "selected_key sel1 = ''DST''" by (simp add: sel1_def)
  let ?st = "fst (migrate repo7 fromisoformat_date sel1)"
  have r: "snd (migrate repo7 fromisoformat_date sel1)
       = Inl (UnsupportedIssueType (Some ''Bug'') ''DST'')"
    using inst [THEN conjunct1] by (simp only: ty sk)
  have t: "trace ?st = trace st7 @ [FetchProject ''DST'']"
    using inst [THEN conjunct2, THEN conjunct1] by (simp only: sk)
  have n: "length (created_payloads (trace ?st)) = Suc (length [child_c])"
    by (rule inst [THEN conjunct2, THEN conjunct2, THEN conjunct1])
  have l: "link_calls (trace ?st) = []"
    by (rule inst [THEN conjunct2, THEN conjunct2, THEN conjunct2, THEN conjunct1])
  have pls: "created_payloads (trace ?st) = [new_epic1, new_c]"
    unfolding t by (simp add: st7_def trace_epic1_def created_payloads_append)
  from run7_epic run7_search run7_pre run7_dates run7_types ty r t n pls l show ?thesis
    by (intro conjI)
qed

section \<open>A failed search\<close>

text \<open>
  Claim C8. When a search answers with a status other than 200, both search functions
  print the status and the body on the console and then read the variable
  \<^verbatim>\<open>data\<close>, which was never assigned: the exception that reaches the operator is the
  \<^verbatim>\<open>UnboundLocalError\<close>, which carries neither the status nor the body. Only
  \<open>rest_api_get\<close>, which no caller uses, raises an error made of both.
\<close>

theorem search_failure_loses_status_and_body:
  "get_child_issues_for_epic fromisoformat_date
     \<lparr>status_code = 500, resp_text = ''Internal Server Error'', resp_json = None\<rparr>
     = ([HttpErrorLine 500 ''Internal Server Error''], Inl (UnboundLocalError ''data''))
   \<and> get_jql_template_epic
     \<lparr>status_code = 500, resp_text = ''Internal Server Error'', resp_json = None\<rparr>
     = ([HttpErrorLine 500 ''Internal Server Error''], Inl (UnboundLocalError ''data''))
   \<and> rest_api_get
     \<lparr>status_code = 500, resp_text = ''Internal Server Error'', resp_json = (None :: issue list option option)\<rparr>
     = Inl (ApiError 500 ''Internal Server Error'')"
  by (simp add: get_child_issues_for_epic_def get_jql_template_epic_def rest_api_get_def)

section \<open>The order of the calls\<close>

text \<open>
  Claim C9. The trace of a run is a part without link calls followed by a part without
  create-issue calls; link calls are issued only when a create call was made for the Epic
  and for every child, and they follow the plan of the link pass in its order. A run that
  succeeds has made the create call of the Epic and of every child, its link part is the
  whole plan, each call answered, and when the keys of the children are distinct the
  snapshot lists the children in their order and every link of a child whose two ends
  have new keys is created in that part. The first create call is the Epic's; the i-th
  after it carries the summary and description of the i-th child and the key of the
  created Epic as parent. The children are the issues of the search response, made right
  after the create call of the Epic, in the order of \<open>ordre_child_issues\<close>. When the
  create call of the Epic fails, it is the last call of the run and the run fails with its
  error: no child is created.
\<close>

theorem calls_are_sequential:
  assumes run: "migrate R P S = (st, res)"
  shows "(\<exists>cr ln. trace st = cr @ ln \<and> link_calls cr = [] \<and> created_payloads ln = []
            \<and> (ln \<noteq> [] \<or> res = Inr () \<longrightarrow>
                 length (created_payloads cr) = Suc (length (child_issues st)))
            \<and> (\<exists>rest. link_plan (old_to_new_keys st) (child_links_map st)
                         = link_calls ln @ rest)
            \<and> (res = Inr () \<longrightarrow>
                 ln = map ok_link (link_plan (old_to_new_keys st) (child_links_map st))
               \<and> (distinct (map key (child_issues st)) \<longrightarrow>
                    child_links_map st
                      = map (\<lambda>ch. (key ch, original_links (issuelinks ch))) (child_issues st)
                  \<and> (\<forall>ch\<in>set (child_issues st). \<forall>link\<in>set (issuelinks ch). \<forall>b a' b'.
                        get_key (old_to_new_keys st) (key ch) = Some a'
                      \<and> get_key (old_to_new_keys st) b = Some b' \<longrightarrow>
                        (outwardIssue link = Some b \<longrightarrow>
                           CreateIssueLink (type_name link) a' b' (Inr ()) \<in> set ln)
                      \<and> (outwardIssue link = None \<and> inwardIssue link = Some b \<longrightarrow>
                           CreateIssueLink (type_name link) b' a' (Inr ()) \<in> set ln)))))
       \<and> (\<forall>epl cpls. created_payloads (trace st) = epl # cpls \<longrightarrow>
            p_issuetype epl = TypeName ''Epic'' \<and> p_customfield_10014 epl = None
          \<and> length cpls \<le> length (child_issues st)
          \<and> (res = Inr () \<longrightarrow> length cpls = length (child_issues st))
          \<and> (\<forall>i<length cpls.
                p_summary (cpls ! i) = summary (child_issues st ! i)
              \<and> p_description (cpls ! i) = description (child_issues st ! i))
          \<and> (cpls \<noteq> [] \<longrightarrow>
                (\<exists>nek. CreateIssue epl (Inr nek) \<in> set (trace st)
                   \<and> (\<forall>i<length cpls. p_customfield_10014 (cpls ! i) = Some nek))))
       \<and> (res = Inr () \<or> child_issues st \<noteq> [] \<longrightarrow>
            (\<exists>epl nek resp data.
               take 3 (trace st) = [FetchIssue (selected_epic S), CreateIssue epl (Inr nek),
                                    SearchChildren (selected_epic S)]
             \<and> requests_get R [FetchIssue (selected_epic S), CreateIssue epl (Inr nek)]
                  (selected_epic S) = Inr resp
             \<and> status_code resp = 200 \<and> resp_json resp = Some data
             \<and> ordre_child_issues P (issues_of data) = Inr (child_issues st)))
       \<and> (\<forall>epl e. CreateIssue epl (Inl e) \<in> set (trace st)
              \<and> p_issuetype epl = TypeName ''Epic'' \<longrightarrow>
            trace st = [FetchIssue (selected_epic S), CreateIssue epl (Inl e)] \<and> res = Inl e)"
proof -
  let ?keys = "old_to_new_keys st" and ?cmap = "child_links_map st"
  have payloads: "p_issuetype epl = TypeName ''Epic'' \<and> p_customfield_10014 epl = None
          \<and> length cpls \<le> length (child_issues st)
          \<and> (res = Inr () \<longrightarrow> length cpls = length (child_issues st))
          \<and> (\<forall>i<length cpls.
                p_summary (cpls ! i) = summary (child_issues st ! i)
              \<and> p_description (cpls ! i) = description (child_issues st ! i))
          \<and> (cpls \<noteq> [] \<longrightarrow>
                (\<exists>nek. CreateIssue epl (Inr nek) \<in> set (trace st)
                   \<and> (\<forall>i<length cpls. p_customfield_10014 (cpls ! i) = Some nek)))"
    if pls: "created_payloads (trace st) = epl # cpls" for epl cpls
  proof (rule migrate_payloadsE [OF run pls])
    fix epic s d sdt ddt r0
    assume e: "jira_issue R [] (selected_epic S) = Inr epic"
      "truthy (customfield_10015 epic) = Some s" "truthy (duedate epic) = Some d"
      "fromisoformat_Z P s = Inr sdt" "fromisoformat_Z P d = Inr ddt"
      "epl = epic_payload S epic sdt ddt"
      "length cpls \<le> length (child_issues st)"
      "\<And>i. i < length cpls \<Longrightarrow> \<exists>nek. r0 = Inr nek
          \<and> built_for P S (Some sdt) nek (child_issues st ! i) (cpls ! i)"
      "CreateIssue epl r0 \<in> set (trace st)"
    have ep: "p_issuetype epl = TypeName ''Epic''" "p_customfield_10014 epl = None"
      using e(6) by (simp_all add: epic_payload_def)
    have fields: "p_summary (cpls ! i) = summary (child_issues st ! i)
              \<and> p_description (cpls ! i) = description (child_issues st ! i)"
      if "i < length cpls" for i
    proof -
      from e(8) [OF that] obtain nek where
        "built_for P S (Some sdt) nek (child_issues st ! i) (cpls ! i)" by blast
      from built_for_fields [OF this] show ?thesis by simp
    qed
    have parent: "\<exists>nek. CreateIssue epl (Inr nek) \<in> set (trace st)
                   \<and> (\<forall>i<length cpls. p_customfield_10014 (cpls ! i) = Some nek)"
      if "cpls \<noteq> []"
    proof -
      from that have "0 < length cpls" by simp
      from e(8) [OF this] obtain nek where nek: "r0 = Inr nek" by blast
      have "p_customfield_10014 (cpls ! i) = Some nek" if "i < length cpls" for i
      proof -
        from e(8) [OF that] nek
        have "built_for P S (Some sdt) nek (child_issues st ! i) (cpls ! i)" by auto
        from built_for_fields [OF this] show ?thesis by simp
      qed
      with e(9) nek show ?thesis by blast
    qed
    have all: "length cpls = length (child_issues st)" if ok: "res = Inr ()"
    proof (rule migrate_cases [OF run])
      fix e assume "res = Inl e"
      with ok show ?thesis by simp
    next
      fix e assume "res = Inl e"
      with ok show ?thesis by simp
    next
      fix pl nek evc evl
      assume t: "trace st = [FetchIssue (selected_epic S), CreateIssue pl (Inr nek),
                   SearchChildren (selected_epic S)] @ evc @ evl"
        and l: "created_payloads evl = []"
        and n: "evl \<noteq> [] \<or> res = Inr () \<longrightarrow>
           length (created_payloads evc) = length (child_issues st)"
      from t l pls have "cpls = created_payloads evc"
        by (simp add: created_payloads_append)
      with n ok show ?thesis by simp
    qed
    from ep e(7) all fields parent show ?thesis by blast
  qed
  have split: "\<exists>cr ln. trace st = cr @ ln \<and> link_calls cr = [] \<and> created_payloads ln = []
            \<and> (ln \<noteq> [] \<or> res = Inr () \<longrightarrow>
                 length (created_payloads cr) = Suc (length (child_issues st)))
            \<and> (\<exists>rest. link_plan ?keys ?cmap = link_calls ln @ rest)
            \<and> (res = Inr () \<longrightarrow> ln = map ok_link (link_plan ?keys ?cmap))"
  proof (rule migrate_cases [OF run])
    fix e
    assume tr: "trace st = [FetchIssue (selected_epic S)]
         \<or> (\<exists>pl. trace st = [FetchIssue (selected_epic S), CreateIssue pl (Inl e)])"
      and res: "res = Inl e"
    from tr have lc: "link_calls (trace st) = []" by auto
    show ?thesis
      using lc res by (intro exI [of _ "trace st"] exI [of _ "[]"]) simp
  next
    fix pl nek e
    assume tr: "trace st = [FetchIssue (selected_epic S), CreateIssue pl (Inr nek),
                   SearchChildren (selected_epic S)]"
      and res: "res = Inl e"
    from tr have lc: "link_calls (trace st) = []" by simp
    show ?thesis
      using lc res by (intro exI [of _ "trace st"] exI [of _ "[]"]) simp
  next
    fix pl nek evc evl rest
    assume t: "trace st = [FetchIssue (selected_epic S), CreateIssue pl (Inr nek),
                   SearchChildren (selected_epic S)] @ evc @ evl"
      and lc: "link_calls evc = []" and cp: "created_payloads evl = []"
      and n: "evl \<noteq> [] \<or> res = Inr () \<longrightarrow>
           length (created_payloads evc) = length (child_issues st)"
      and plan: "link_plan ?keys ?cmap = link_calls evl @ rest"
      and ok: "res = Inr () \<longrightarrow> rest = [] \<and> evl = map ok_link (link_calls evl)"
    let ?cr = "[FetchIssue (selected_epic S), CreateIssue pl (Inr nek),
                SearchChildren (selected_epic S)] @ evc"
    have a: "trace st = ?cr @ evl" using t by simp
    have b: "link_calls ?cr = []" using lc by simp
    have c: "evl \<noteq> [] \<or> res = Inr () \<longrightarrow>
        length (created_payloads ?cr) = Suc (length (child_issues st))"
      using n by simp
    have d: "\<exists>rest. link_plan ?keys ?cmap = link_calls evl @ rest"
      using plan by blast
    have e: "res = Inr () \<longrightarrow> evl = map ok_link (link_plan ?keys ?cmap)"
      using ok plan by auto
    from a b cp c d e show ?thesis
      by (intro exI [of _ ?cr] exI [of _ evl] conjI)
  qed
  then obtain cr ln where
    s: "trace st = cr @ ln" "link_calls cr = []" "created_payloads ln = []"
      "ln \<noteq> [] \<or> res = Inr () \<longrightarrow>
         length (created_payloads cr) = Suc (length (child_issues st))"
      "\<exists>rest. link_plan ?keys ?cmap = link_calls ln @ rest"
      "res = Inr () \<longrightarrow> ln = map ok_link (link_plan ?keys ?cmap)"
    by blast
  have links: "child_links_map st
                 = map (\<lambda>ch. (key ch, original_links (issuelinks ch))) (child_issues st)
             \<and> (\<forall>ch\<in>set (child_issues st). \<forall>link\<in>set (issuelinks ch). \<forall>b a' b'.
                   get_key ?keys (key ch) = Some a' \<and> get_key ?keys b = Some b' \<longrightarrow>
                   (outwardIssue link = Some b \<longrightarrow>
                      CreateIssueLink (type_name link) a' b' (Inr ()) \<in> set ln)
                 \<and> (outwardIssue link = None \<and> inwardIssue link = Some b \<longrightarrow>
                      CreateIssueLink (type_name link) b' a' (Inr ()) \<in> set ln))"
    if ok: "res = Inr ()" and dist: "distinct (map key (child_issues st))"
  proof -
    from run ok have run': "migrate R P S = (st, Inr ())" by simp
    from s(6) ok have ln: "ln = map ok_link (link_plan ?keys ?cmap)" by simp
    have ev: "CreateIssueLink t i ou (Inr ()) \<in> set ln"
      if "(t, i, ou) \<in> set (link_plan ?keys ?cmap)" for t i ou
    proof -
      from that have "ok_link (t, i, ou) \<in> ok_link ` set (link_plan ?keys ?cmap)"
        by (rule imageI)
      then have "ok_link (t, i, ou) \<in> set (map ok_link (link_plan ?keys ?cmap))"
        by (simp only: set_map)
      then show ?thesis unfolding ln by (simp only: ok_link_simp)
    qed
    have "(outwardIssue link = Some b \<longrightarrow>
              CreateIssueLink (type_name link) a' b' (Inr ()) \<in> set ln)
        \<and> (outwardIssue link = None \<and> inwardIssue link = Some b \<longrightarrow>
              CreateIssueLink (type_name link) b' a' (Inr ()) \<in> set ln)"
      if ch: "ch \<in> set (child_issues st)" and l: "link \<in> set (issuelinks ch)"
        and k: "get_key ?keys (key ch) = Some a' \<and> get_key ?keys b = Some b'"
      for ch link b a' b'
    proof (intro conjI impI)
      from k have ka: "get_key ?keys (key ch) = Some a'" and kb: "get_key ?keys b = Some b'"
        by simp_all
      {
        assume "outwardIssue link = Some b"
        from planned_call_of_link(1) [OF run' dist ch l ka kb this]
        show "CreateIssueLink (type_name link) a' b' (Inr ()) \<in> set ln" by (rule ev)
      }
      {
        assume "outwardIssue link = None \<and> inwardIssue link = Some b"
        then have "outwardIssue link = None" "inwardIssue link = Some b" by simp_all
        from planned_call_of_link(2) [OF run' dist ch l ka kb this]
        show "CreateIssueLink (type_name link) b' a' (Inr ()) \<in> set ln" by (rule ev)
      }
    qed
    with migrate_links_order [OF run' dist] show ?thesis by blast
  qed
  have first: "\<exists>cr ln. trace st = cr @ ln \<and> link_calls cr = [] \<and> created_payloads ln = []
            \<and> (ln \<noteq> [] \<or> res = Inr () \<longrightarrow>
                 length (created_payloads cr) = Suc (length (child_issues st)))
            \<and> (\<exists>rest. link_plan ?keys ?cmap = link_calls ln @ rest)
            \<and> (res = Inr () \<longrightarrow>
                 ln = map ok_link (link_plan ?keys ?cmap)
               \<and> (distinct (map key (child_issues st)) \<longrightarrow>
                    child_links_map st
                      = map (\<lambda>ch. (key ch, original_links (issuelinks ch))) (child_issues st)
                  \<and> (\<forall>ch\<in>set (child_issues st). \<forall>link\<in>set (issuelinks ch). \<forall>b a' b'.
                        get_key ?keys (key ch) = Some a' \<and> get_key ?keys b = Some b' \<longrightarrow>
                        (outwardIssue link = Some b \<longrightarrow>
                           CreateIssueLink (type_name link) a' b' (Inr ()) \<in> set ln)
                      \<and> (outwardIssue link = None \<and> inwardIssue link = Some b \<longrightarrow>
                           CreateIssueLink (type_name link) b' a' (Inr ()) \<in> set ln))))"
  proof (rule exI [of _ cr], rule exI [of _ ln], intro conjI)
    show "trace st = cr @ ln" by (rule s(1))
    show "link_calls cr = []" by (rule s(2))
    show "created_payloads ln = []" by (rule s(3))
    show "ln \<noteq> [] \<or> res = Inr () \<longrightarrow>
        length (created_payloads cr) = Suc (length (child_issues st))" by (rule s(4))
    show "\<exists>rest. link_plan ?keys ?cmap = link_calls ln @ rest" by (rule s(5))
    show "res = Inr () \<longrightarrow>
                 ln = map ok_link (link_plan ?keys ?cmap)
               \<and> (distinct (map key (child_issues st)) \<longrightarrow>
                    child_links_map st
                      = map (\<lambda>ch. (key ch, original_links (issuelinks ch))) (child_issues st)
                  \<and> (\<forall>ch\<in>set (child_issues st). \<forall>link\<in>set (issuelinks ch). \<forall>b a' b'.
                        get_key ?keys (key ch) = Some a' \<and> get_key ?keys b = Some b' \<longrightarrow>
                        (outwardIssue link = Some b \<longrightarrow>
                           CreateIssueLink (type_name link) a' b' (Inr ()) \<in> set ln)
                      \<and> (outwardIssue link = None \<and> inwardIssue link = Some b \<longrightarrow>
                           CreateIssueLink (type_name link) b' a' (Inr ()) \<in> set ln)))"
    proof (intro impI conjI)
      assume ok: "res = Inr ()"
      with s(6) show "ln = map ok_link (link_plan ?keys ?cmap)" by simp
      assume dist: "distinct (map key (child_issues st))"
      from links [OF ok dist] show "child_links_map st
          = map (\<lambda>ch. (key ch, original_links (issuelinks ch))) (child_issues st)"
        by (rule conjunct1)
      from links [OF ok dist] show "\<forall>ch\<in>set (child_issues st). \<forall>link\<in>set (issuelinks ch). \<forall>b a' b'.
                        get_key ?keys (key ch) = Some a' \<and> get_key ?keys b = Some b' \<longrightarrow>
                        (outwardIssue link = Some b \<longrightarrow>
                           CreateIssueLink (type_name link) a' b' (Inr ()) \<in> set ln)
                      \<and> (outwardIssue link = None \<and> inwardIssue link = Some b \<longrightarrow>
                           CreateIssueLink (type_name link) b' a' (Inr ()) \<in> set ln)"
        by (rule conjunct2)
    qed
  qed
  have searched: "\<exists>epl nek resp data.
               take 3 (trace st) = [FetchIssue (selected_epic S), CreateIssue epl (Inr nek),
                                    SearchChildren (selected_epic S)]
             \<and> requests_get R [FetchIssue (selected_epic S), CreateIssue epl (Inr nek)]
                  (selected_epic S) = Inr resp
             \<and> status_code resp = 200 \<and> resp_json resp = Some data
             \<and> ordre_child_issues P (issues_of data) = Inr (child_issues st)"
    if h: "res = Inr () \<or> child_issues st \<noteq> []"
  proof (rule migrate_cases [OF run])
    fix e assume "res = Inl e" "child_issues st = []"
    with h show ?thesis by simp
  next
    fix e assume "res = Inl e" "child_issues st = []"
    with h show ?thesis by simp
  next
    fix pl nek evc evl resp data
    assume t: "trace st = [FetchIssue (selected_epic S), CreateIssue pl (Inr nek),
                   SearchChildren (selected_epic S)] @ evc @ evl"
      and r: "requests_get R [FetchIssue (selected_epic S), CreateIssue pl (Inr nek)]
                (selected_epic S) = Inr resp"
        "status_code resp = 200" "resp_json resp = Some data"
        "ordre_child_issues P (issues_of data) = Inr (child_issues st)"
    from t have "take 3 (trace st) = [FetchIssue (selected_epic S), CreateIssue pl (Inr nek),
                                    SearchChildren (selected_epic S)]"
      by simp
    with r show ?thesis by blast
  qed
  have failed: "trace st = [FetchIssue (selected_epic S), CreateIssue epl (Inl e')]
        \<and> res = Inl e'"
    if ev: "CreateIssue epl (Inl e') \<in> set (trace st)"
      and ty: "p_issuetype epl = TypeName ''Epic''" for epl e'
  proof (rule migrate_cases [OF run])
    fix e
    assume "trace st = [FetchIssue (selected_epic S)]
         \<or> (\<exists>pl. trace st = [FetchIssue (selected_epic S), CreateIssue pl (Inl e)])"
      and "res = Inl e"
    with ev show ?thesis by auto
  next
    fix pl nek e
    assume "trace st = [FetchIssue (selected_epic S), CreateIssue pl (Inr nek),
                   SearchChildren (selected_epic S)]"
    with ev show ?thesis by simp
  next
    fix pl esd nek evc evl
    assume t: "trace st = [FetchIssue (selected_epic S), CreateIssue pl (Inr nek),
                   SearchChildren (selected_epic S)] @ evc @ evl"
      and cp: "created_payloads evl = []"
      and b: "list_all2 (built_for P S esd nek)
         (take (length (created_payloads evc)) (child_issues st)) (created_payloads evc)"
    from ev t no_payloads_no_create [OF cp, of epl "Inl e'"]
    have "CreateIssue epl (Inl e') \<in> set evc" by auto
    then have "epl \<in> set (created_payloads evc)" by (rule create_event_in_payloads)
    from built_for_in_list [OF b this] obtain ch where
      "built_for P S esd nek ch epl" by blast
    from built_for_fields [OF this] ty show ?thesis by auto
  qed
  from first payloads searched failed show ?thesis by blast
qed

theorem calls_are_sequential_witness:
  "snd (migrate repo1 fromisoformat_date sel1) = Inr ()
   \<and> distinct (map key (child_issues (fst (migrate repo1 fromisoformat_date sel1))))
   \<and> trace (fst (migrate repo1 fromisoformat_date sel1))
       = [FetchIssue ''PPT-1'', CreateIssue new_epic1 (Inr ''DST-1''), SearchChildren ''PPT-1'',
          FetchProject ''DST'', CreateIssue new_c (Inr ''DST-2''),
          FetchProject ''DST'', CreateIssue new_a (Inr ''DST-3''),
          FetchProject ''DST'', CreateIssue new_b (Inr ''DST-4''),
          CreateIssueLink ''Blocks'' ''DST-3'' ''DST-2'' (Inr ()),
          CreateIssueLink ''Blocks'' ''DST-3'' ''DST-2'' (Inr ())]
   \<and> (\<exists>cr. trace (fst (migrate repo1 fromisoformat_date sel1))
              = cr @ [CreateIssueLink ''Blocks'' ''DST-3'' ''DST-2'' (Inr ()),
                      CreateIssueLink ''Blocks'' ''DST-3'' ''DST-2'' (Inr ())]
          \<and> link_calls cr = []
          \<and> length (created_payloads cr)
              = Suc (length (child_issues (fst (migrate repo1 fromisoformat_date sel1)))))
   \<and> child_links_map (fst (migrate repo1 fromisoformat_date sel1))
       = map (\<lambda>ch. (key ch, original_links (issuelinks ch))) [child_c, child_a, child_b]
   \<and> created_payloads (trace (fst (migrate repo1 fromisoformat_date sel1)))
       = new_epic1 # [new_c, new_a, new_b]
   \<and> p_issuetype new_epic1 = TypeName ''Epic''
   \<and> length [new_c, new_a, new_b]
       = length (child_issues (fst (migrate repo1 fromisoformat_date sel1)))
   \<and> requests_get repo1 [FetchIssue ''PPT-1'', CreateIssue new_epic1 (Inr ''DST-1'')] ''PPT-1''
       = Inr resp1
   \<and> issues_of (Some [child_a, child_b, child_c]) = [child_a, child_b, child_c]
   \<and> ordre_child_issues fromisoformat_date [child_a, child_b, child_c]
       = Inr (child_issues (fst (migrate repo1 fromisoformat_date sel1)))
   \<and> child_issues (fst (migrate repo1 fromisoformat_date sel1)) = [child_c, child_a, child_b]
   \<and> p_summary ([new_c, new_a, new_b] ! 0)
       = summary (child_issues (fst (migrate repo1 fromisoformat_date sel1)) ! 0)
   \<and> p_summary ([new_c, new_a, new_b] ! 1)
       = summary (child_issues (fst (migrate repo1 fromisoformat_date sel1)) ! 1)
   \<and> p_summary ([new_c, new_a, new_b] ! 2)
       = summary (child_issues (fst (migrate repo1 fromisoformat_date sel1)) ! 2)
   \<and> (\<exists>nek. CreateIssue new_epic1 (Inr nek)
                \<in> set (trace (fst (migrate repo1 fromisoformat_date sel1)))
          \<and> (\<forall>i<length [new_c, new_a, new_b].
                p_customfield_10014 ([new_c, new_a, new_b] ! i) = Some nek))
   \<and> CreateIssue new_epic1 (Inl (RepositoryError ''403''))
       \<in> set (trace (fst (migrate repo_fail fromisoformat_date sel1)))
   \<and> trace (fst (migrate repo_fail fromisoformat_date sel1))
       = [FetchIssue (selected_epic sel1), CreateIssue new_epic1 (Inl (RepositoryError ''403''))]
   \<and> snd (migrate repo_fail fromisoformat_date sel1) = Inl (RepositoryError ''403'')"
proof -
  let ?st = "fst (migrate repo1 fromisoformat_date sel1)"
  let ?links = "[CreateIssueLink ''Blocks'' ''DST-3'' ''DST-2'' (Inr ()),
                 CreateIssueLink ''Blocks'' ''DST-3'' ''DST-2'' (Inr ())]"
  note inst = calls_are_sequential [OF run1_pair]
  from inst [THEN conjunct1] obtain cr ln where
    b: "trace ?st = cr @ ln" "link_calls cr = []"
      "ln \<noteq> [] \<or> snd (migrate repo1 fromisoformat_date sel1) = Inr () \<longrightarrow>
         length (created_payloads cr) = Suc (length (child_issues ?st))"
      "snd (migrate repo1 fromisoformat_date sel1) = Inr () \<longrightarrow>
         ln = map ok_link (link_plan (old_to_new_keys ?st) (child_links_map ?st))
       \<and> (distinct (map key (child_issues ?st)) \<longrightarrow>
            child_links_map ?st
              = map (\<lambda>ch. (key ch, original_links (issuelinks ch))) (child_issues ?st)
          \<and> (\<forall>ch\<in>set (child_issues ?st). \<forall>link\<in>set (issuelinks ch). \<forall>b a' b'.
                get_key (old_to_new_keys ?st) (key ch) = Some a'
              \<and> get_key (old_to_new_keys ?st) b = Some b' \<longrightarrow>
                (outwardIssue link = Some b \<longrightarrow>
                   CreateIssueLink (type_name link) a' b' (Inr ()) \<in> set ln)
              \<and> (outwardIssue link = None \<and> inwardIssue link = Some b \<longrightarrow>
                   CreateIssueLink (type_name link) b' a' (Inr ()) \<in> set ln)))"
    by blast
  from b(4) run1_result have ln: "ln = ?links"
    by (simp add: run1_plan ok_link_simp)
  from b(4) run1_result run1_distinct
  have order: "child_links_map ?st
       = map (\<lambda>ch. (key ch, original_links (issuelinks ch))) (child_issues ?st)"
    by blast
  then have order': "child_links_map ?st
       = map (\<lambda>ch. (key ch, original_links (issuelinks ch))) [child_c, child_a, child_b]"
    by (simp only: run1_children)
  from b(3) run1_result
  have n: "length (created_payloads cr) = Suc (length (child_issues ?st))" by simp
  from b(1,2) ln n have split: "\<exists>cr. trace ?st = cr @ ?links \<and> link_calls cr = []
      \<and> length (created_payloads cr) = Suc (length (child_issues ?st))"
    by blast
  note pay = inst [THEN conjunct2, THEN conjunct1, rule_format, OF run1_payloads]
  note fields = pay [THEN conjunct2, THEN conjunct2, THEN conjunct2, THEN conjunct2,
      THEN conjunct1, rule_format]
  have ty: "p_issuetype new_epic1 = TypeName ''Epic''" using pay by (rule conjunct1)
  have len: "length [new_c, new_a, new_b] = length (child_issues ?st)"
    using pay [THEN conjunct2, THEN conjunct2, THEN conjunct2, THEN conjunct1] run1_result
    by (rule mp)
  have s0: "p_summary ([new_c, new_a, new_b] ! 0) = summary (child_issues ?st ! 0)"
    and s1: "p_summary ([new_c, new_a, new_b] ! 1) = summary (child_issues ?st ! 1)"
    and s2: "p_summary ([new_c, new_a, new_b] ! 2) = summary (child_issues ?st ! 2)"
    using fields [of 0] fields [of 1] fields [of 2] by simp_all
  have parent: "\<exists>nek. CreateIssue new_epic1 (Inr nek) \<in> set (trace ?st)
          \<and> (\<forall>i<length [new_c, new_a, new_b].
                p_customfield_10014 ([new_c, new_a, new_b] ! i) = Some nek)"
    using pay by simp
  have rg: "requests_get repo1 [FetchIssue ''PPT-1'', CreateIssue new_epic1 (Inr ''DST-1'')]
      ''PPT-1'' = Inr resp1"
    by (rule run1_search)
  have io: "issues_of (Some [child_a, child_b, child_c]) = [child_a, child_b, child_c]"
    by (simp add: issues_of_def)
  from inst [THEN conjunct2, THEN conjunct2, THEN conjunct1] run1_result
  have "\<exists>epl nek resp data.
       take 3 (trace ?st) = [FetchIssue (selected_epic sel1), CreateIssue epl (Inr nek),
                             SearchChildren (selected_epic sel1)]
     \<and> requests_get repo1 [FetchIssue (selected_epic sel1), CreateIssue epl (Inr nek)]
          (selected_epic sel1) = Inr resp
     \<and> status_code resp = 200 \<and> resp_json resp = Some data
     \<and> ordre_child_issues fromisoformat_date (issues_of data) = Inr (child_issues ?st)"
    by blast
  then obtain epl nek resp data where
    r: "requests_get repo1 [FetchIssue (selected_epic sel1), CreateIssue epl (Inr nek)]
          (selected_epic sel1) = Inr resp"
      "resp_json resp = Some data"
      "ordre_child_issues fromisoformat_date (issues_of data) = Inr (child_issues ?st)"
    by blast
  from r(1) have "resp = resp1" by (simp add: run1_search)
  with r(2) have "data = Some [child_a, child_b, child_c]" by (simp add: resp1_def)
  with r(3) have ord: "ordre_child_issues fromisoformat_date [child_a, child_b, child_c]
      = Inr (child_issues ?st)"
    by (simp add: issues_of_def)
  note fail = calls_are_sequential [OF fail_pair, THEN conjunct2, THEN conjunct2,
      THEN conjunct2, rule_format, of new_epic1 "RepositoryError ''403''"]
  have aborted: "trace (fst (migrate repo_fail fromisoformat_date sel1))
       = [FetchIssue (selected_epic sel1), CreateIssue new_epic1 (Inl (RepositoryError ''403''))]
   \<and> snd (migrate repo_fail fromisoformat_date sel1) = Inl (RepositoryError ''403'')"
    using fail fail_event by (simp add: new_epic1_def)
  from aborted have ab1: "trace (fst (migrate repo_fail fromisoformat_date sel1))
       = [FetchIssue (selected_epic sel1), CreateIssue new_epic1 (Inl (RepositoryError ''403''))]"
    and ab2: "snd (migrate repo_fail fromisoformat_date sel1) = Inl (RepositoryError ''403'')"
    by simp_all
  from run1_result run1_distinct run1_trace split order' run1_payloads ty len rg io ord
    run1_children s0 s1 s2 parent fail_event ab1 ab2
  show ?thesis by (intro conjI)
qed

section \<open>A link between two children is created twice\<close>

text \<open>
  Claim C10. Let a run succeed on children with distinct keys, let child A list a link of
  type T with the outward issue B and child B list the link of type T with the inward
  issue A, and let A' and B' be their new keys. Then the link pass issues the call
  (T, inward A', outward B') at least twice: once for the record stored with A and once
  for the record stored with B.
\<close>

theorem symmetric_link_is_created_twice:
  assumes run: "migrate R P S = (st, Inr ())"
    and dist: "distinct (map key (child_issues st))"
    and a: "cha \<in> set (child_issues st)" and b: "chb \<in> set (child_issues st)"
    and ne: "key cha \<noteq> key chb"
    and la: "la \<in> set (issuelinks cha)" "outwardIssue la = Some (key chb)" "type_name la = T"
    and lb: "lb \<in> set (issuelinks chb)" "outwardIssue lb = None"
      "inwardIssue lb = Some (key cha)" "type_name lb = T"
    and ka: "get_key (old_to_new_keys st) (key cha) = Some a'"
    and kb: "get_key (old_to_new_keys st) (key chb) = Some b'"
  shows "2 \<le> count_list (link_calls (trace st)) (T, a', b')
       \<and> CreateIssueLink T a' b' (Inr ()) \<in> set (trace st)"
proof -
  let ?keys = "old_to_new_keys st"
  let ?ea = "(key cha, original_links (issuelinks cha))"
  let ?eb = "(key chb, original_links (issuelinks chb))"
  from migrate_links [OF run] dist
  have calls: "link_calls (trace st) = link_plan ?keys (child_links_map st)"
    and sent: "\<forall>c\<in>set (link_plan ?keys (child_links_map st)). ok_link c \<in> set (trace st)"
    and entries: "\<forall>ch\<in>set (child_issues st).
        (key ch, original_links (issuelinks ch)) \<in> set (child_links_map st)"
    by simp_all
  from entries a b have ea: "?ea \<in> set (child_links_map st)"
    and eb: "?eb \<in> set (child_links_map st)" by simp_all
  from ne have diff: "?ea \<noteq> ?eb" by simp
  define sa where "sa = \<lparr>l_type = T, l_direction = outward, l_key = key chb\<rparr>"
  define sb where "sb = \<lparr>l_type = T, l_direction = inward, l_key = key cha\<rparr>"
  have "stored_of la = Some sa" using la(2,3) by (simp add: stored_of_def sa_def)
  with la(1) have ma: "sa \<in> set (original_links (issuelinks cha))"
    by (auto simp: original_links_iff)
  have "stored_of lb = Some sb" using lb(2,3,4) by (simp add: stored_of_def sb_def)
  with lb(1) have mb: "sb \<in> set (original_links (issuelinks chb))"
    by (auto simp: original_links_iff)
  have ca: "link_call ?keys a' sa = Some (T, a', b')"
    using kb by (simp add: link_call_def sa_def)
  have cb: "link_call ?keys b' sb = Some (T, a', b')"
    using ka by (simp add: link_call_def sb_def)
  from ka ma ca have ina: "(T, a', b') \<in> set (link_plan_of ?keys ?ea)"
    by (auto simp: link_plan_of_iff)
  from kb mb cb have inb: "(T, a', b') \<in> set (link_plan_of ?keys ?eb)"
    by (auto simp: link_plan_of_iff)
  from ea eb diff ina inb
  have "2 \<le> count_list (concat (map (link_plan_of ?keys) (child_links_map st))) (T, a', b')"
    by (rule count_twice_in_concat)
  with calls have two: "2 \<le> count_list (link_calls (trace st)) (T, a', b')"
    by (simp add: link_plan_def)
  from ea ina have "(T, a', b') \<in> set (link_plan ?keys (child_links_map st))"
    by (auto simp: link_plan_def)
  with sent have "ok_link (T, a', b') \<in> set (trace st)" by blast
  with two show ?thesis by (simp add: ok_link_simp)
qed

theorem symmetric_link_is_created_twice_witness:
  "migrate repo1 fromisoformat_date sel1 = (fst (migrate repo1 fromisoformat_date sel1), Inr ())
   \<and> distinct (map key (child_issues (fst (migrate repo1 fromisoformat_date sel1))))
   \<and> child_a \<in> set (child_issues (fst (migrate repo1 fromisoformat_date sel1)))
   \<and> child_c \<in> set (child_issues (fst (migrate repo1 fromisoformat_date sel1)))
   \<and> key child_a \<noteq> key child_c
   \<and> blocks_out \<in> set (issuelinks child_a) \<and> outwardIssue blocks_out = Some (key child_c)
   \<and> type_name blocks_out = ''Blocks''
   \<and> blocks_in \<in> set (issuelinks child_c) \<and> outwardIssue blocks_in = None
   \<and> inwardIssue blocks_in = Some (key child_a) \<and> type_name blocks_in = ''Blocks''
   \<and> get_key (old_to_new_keys (fst (migrate repo1 fromisoformat_date sel1))) (key child_a)
       = Some ''DST-3''
   \<and> get_key (old_to_new_keys (fst (migrate repo1 fromisoformat_date sel1))) (key child_c)
       = Some ''DST-2''
   \<and> 2 \<le> count_list (link_calls (trace (fst (migrate repo1 fromisoformat_date sel1))))
            (''Blocks'', ''DST-3'', ''DST-2'')
   \<and> count_list (link_calls (trace (fst (migrate repo1 fromisoformat_date sel1))))
            (''Blocks'', ''DST-3'', ''DST-2'') = 2"
proof -
  let ?st = "fst (migrate repo1 fromisoformat_date sel1)"
  have a: "child_a \<in> set (child_issues ?st)" and c: "child_c \<in> set (child_issues ?st)"
    by (simp_all add: run1_children)
  have ne: "key child_a \<noteq> key child_c" by (simp add: child_links)
  have la: "outwardIssue blocks_out = Some (key child_c)" "type_name blocks_out = ''Blocks''"
    by (simp_all add: blocks_out_def child_links)
  have lb: "outwardIssue blocks_in = None" "inwardIssue blocks_in = Some (key child_a)"
    "type_name blocks_in = ''Blocks''"
    by (simp_all add: blocks_in_def child_links)
  have ka: "get_key (old_to_new_keys ?st) (key child_a) = Some ''DST-3''"
    and kc: "get_key (old_to_new_keys ?st) (key child_c) = Some ''DST-2''"
    by (simp_all add: child_links run1_new_keys)
  from symmetric_link_is_created_twice [OF run1_ok run1_distinct a c ne child_links(1) la
      child_links(2) lb ka kc]
  have two: "2 \<le> count_list (link_calls (trace ?st)) (''Blocks'', ''DST-3'', ''DST-2'')"
    by simp
  have exact: "count_list (link_calls (trace ?st)) (''Blocks'', ''DST-3'', ''DST-2'') = 2"
    by (simp add: run1_link_calls)
  from run1_ok run1_distinct a c ne child_links(1,2) la lb ka kc two exact show ?thesis
    by blast
qed

end
